(* ===== verification/Prelude.thy ===== *)
theory Prelude
  imports Main "HOL-Library.Word"
begin

text \<open>
  Shared vocabulary of the development: the machine types of the C++ sources, the
  faults a C++ operation can end in, the sequencing operator of fallible operations,
  and the generic lemmas on lists and 64-bit words that the component proofs use.

  A C++ \<^verbatim>\<open>char\<close>, \<^verbatim>\<open>std::string\<close> and \<^verbatim>\<open>std::vector<char>\<close> are HOL's 8-bit \<^typ>\<open>char\<close> and
  lists of it; \<^verbatim>\<open>size_t\<close> is a 64-bit word, so the arithmetic of the sources wraps here
  as it does there.
\<close>

section \<open>Machine types\<close>

type_synonym bytes = "char list"
type_synonym size_t = "64 word"
type_synonym u32 = "32 word"
type_synonym u16 = "16 word"

text \<open>The largest \<^verbatim>\<open>std::vector<char>\<close> or \<^verbatim>\<open>std::string\<close>: \<^verbatim>\<open>PTRDIFF_MAX\<close> bytes.\<close>

definition max_size :: nat where
  "max_size = 2 ^ 63 - 1"

section \<open>Faults and sequencing\<close>

text \<open>
  How a C++ operation can fail to return: a failed \<^verbatim>\<open>assert\<close> (the build does not define
  \<^verbatim>\<open>NDEBUG\<close>), undefined behaviour (a read or write outside an object, a use after
  destruction, a null dereference), an exception, or \<^verbatim>\<open>exit\<close>. \<open>Fuel_Exhausted\<close> is
  not an outcome of the program: a bounded unrolling of one of its loops ran out.
\<close>

datatype fault =
    Assertion_Failed
  | Undefined_Behaviour
  | Out_Of_Range
  | Length_Error
  | Exit_Failure string
  | Exit_Success
  | Thrown string
  | Fuel_Exhausted

type_synonym 'a res = "fault + 'a"

definition bindR :: "'e + 'a \<Rightarrow> ('a \<Rightarrow> 'e + 'b) \<Rightarrow> 'e + 'b" where
  "bindR m f = (case m of Inl e \<Rightarrow> Inl e | Inr x \<Rightarrow> f x)"

definition assertR :: "bool \<Rightarrow> unit res" where
  "assertR c = (if c then Inr () else Inl Assertion_Failed)"

named_theorems res_simps \<open>evaluation of fallible operations\<close>

lemma bindR_simps [simp, res_simps]:
  "bindR (Inl e) f = Inl e"
  "bindR (Inr x) f = f x"
  by (simp_all add: bindR_def)

lemma bindR_assoc [res_simps]: "bindR (bindR m f) g = bindR m (\<lambda>x. bindR (f x) g)"
  by (cases m) simp_all

lemma bindR_cong [fundef_cong]:
  assumes "m = m'" and "\<And>x. m' = Inr x \<Longrightarrow> f x = f' x"
  shows "bindR m f = bindR m' f'"
  using assms by (cases m') simp_all

lemma bindR_eq_Inr: "bindR m f = Inr y \<longleftrightarrow> (\<exists>x. m = Inr x \<and> f x = Inr y)"
  by (cases m) auto

lemma bindR_eq_Inl: "bindR m f = Inl e \<longleftrightarrow> m = Inl e \<or> (\<exists>x. m = Inr x \<and> f x = Inl e)"
  by (cases m) auto

lemma assertR_simps [simp, res_simps]:
  "assertR True = Inr ()"
  "assertR False = Inl Assertion_Failed"
  by (simp_all add: assertR_def)

lemma assertR_eq_Inr [simp]: "assertR c = Inr u \<longleftrightarrow> c"
  by (simp add: assertR_def)

fun foldR :: "('a \<Rightarrow> 's \<Rightarrow> 'e + 's) \<Rightarrow> 'a list \<Rightarrow> 's \<Rightarrow> 'e + 's" where
  "foldR f [] s = Inr s"
| "foldR f (x # xs) s = bindR (f x s) (foldR f xs)"

lemma foldR_append: "foldR f (xs @ ys) s = bindR (foldR f xs s) (foldR f ys)"
proof (induction xs arbitrary: s)
  case (Cons x xs)
  then show ?case by (cases "f x s") simp_all
qed simp

section \<open>Ranges of an array\<close>

text \<open>
  The two halves of \<^verbatim>\<open>std::copy\<close> on a vector: reading \<open>n\<close> elements from index \<open>i\<close>, and
  overwriting from index \<open>i\<close>. A range that leaves the vector is undefined behaviour.
\<close>

definition slice :: "nat \<Rightarrow> nat \<Rightarrow> 'a list \<Rightarrow> 'a list res" where
  "slice i n xs = (if i + n \<le> length xs then Inr (take n (drop i xs)) else Inl Undefined_Behaviour)"

definition put_at :: "nat \<Rightarrow> 'a list \<Rightarrow> 'a list \<Rightarrow> 'a list res" where
  "put_at i ys xs =
     (if i + length ys \<le> length xs then Inr (take i xs @ ys @ drop (i + length ys) xs)
      else Inl Undefined_Behaviour)"

lemma slice_ok [simp]: "i + n \<le> length xs \<Longrightarrow> slice i n xs = Inr (take n (drop i xs))"
  by (simp add: slice_def)

lemma put_at_ok [simp]:
  "i + length ys \<le> length xs \<Longrightarrow> put_at i ys xs = Inr (take i xs @ ys @ drop (i + length ys) xs)"
  by (simp add: put_at_def)

lemma slice_of_put_at:
  assumes "i \<le> j" and "j \<le> length xs"
  shows "take (j + length ys - i) (drop i (take j xs @ ys @ zs)) = take (j - i) (drop i xs) @ ys"
proof -
  have "drop i (take j xs @ ys @ zs) = drop i (take j xs) @ ys @ zs"
    using assms by simp
  moreover have "j + length ys - i = length (drop i (take j xs)) + length ys"
    using assms by simp
  ultimately show ?thesis
    by (simp add: drop_take)
qed

section \<open>64-bit indices\<close>

text \<open>
  Word arithmetic read as arithmetic on natural numbers, where nothing wraps. The
  bounds are those a vector's indices keep.
\<close>

lemma max_size_lt: "max_size < 2 ^ 64"
  by (simp add: max_size_def)

lemma unat_add_small:
  fixes a b :: size_t
  assumes "unat a + unat b < 2 ^ 64"
  shows "unat (a + b) = unat a + unat b"
  using assms by (simp add: unat_word_ariths)

lemma unat_sub_le:
  fixes a b :: size_t
  assumes "unat b \<le> unat a"
  shows "unat (a - b) = unat a - unat b"
  using assms by (simp add: unat_sub word_le_nat_alt)

lemma unat_of_nat_size [simp]: "n < 2 ^ 64 \<Longrightarrow> unat (of_nat n :: size_t) = n"
  by (simp add: unat_of_nat take_bit_nat_eq_self_iff)

lemma unat_of_nat_max: "n \<le> max_size \<Longrightarrow> unat (of_nat n :: size_t) = n"
  by (simp add: max_size_def)

end
