(* ===== verification/NetBuffer.thy ===== *)
theory NetBuffer
  imports Prelude
begin

text \<open>
  The growable byte buffer of a connection (\<^verbatim>\<open>network/buffer.h\<close>, \<^verbatim>\<open>network/buffer.cpp\<close>): its
  state, every operation, the index invariant, and the abstract byte queue it implements.
  Pointers into the vector are modelled by their offset from \<^verbatim>\<open>begin()\<close>.
\<close>

section \<open>State\<close>

definition kPrePendIndex :: size_t where
  "kPrePendIndex = 8"

definition kInitSize :: size_t where
  "kInitSize = 1024"

record buffer =
  vec :: "char list"
  read_index :: size_t
  write_index :: size_t

definition Buffer_new :: buffer where
  "Buffer_new =
     \<lparr>vec = replicate (unat kInitSize) (CHR 0x00),
      read_index = kPrePendIndex, write_index = kPrePendIndex\<rparr>"

section \<open>Operations\<close>

definition readAbleBytes :: "buffer \<Rightarrow> size_t" where
  "readAbleBytes b = write_index b - read_index b"

definition writeAbleBytes :: "buffer \<Rightarrow> size_t" where
  "writeAbleBytes b = of_nat (length (vec b)) - write_index b"

definition prependAbleBytes :: "buffer \<Rightarrow> size_t" where
  "prependAbleBytes b = read_index b"

definition beginRead :: "buffer \<Rightarrow> size_t" where
  "beginRead b = read_index b"

definition beginWrite :: "buffer \<Rightarrow> size_t" where
  "beginWrite b = write_index b"

definition Peek :: "buffer \<Rightarrow> size_t" where
  "Peek b = beginRead b"

text \<open>\<^verbatim>\<open>std::string(first, last)\<close> over the vector: undefined where the range leaves it.\<close>

definition PeekAsString :: "size_t \<Rightarrow> buffer \<Rightarrow> bytes res" where
  "PeekAsString len b = slice (unat (beginRead b)) (unat len) (vec b)"

definition PeekAllAsString :: "buffer \<Rightarrow> bytes res" where
  "PeekAllAsString b =
     (if unat (beginRead b) \<le> unat (beginWrite b)
      then slice (unat (beginRead b)) (unat (beginWrite b) - unat (beginRead b)) (vec b)
      else Inl Undefined_Behaviour)"

text \<open>\<^verbatim>\<open>std::vector<char>::resize\<close>: new elements are zero; too large a size throws.\<close>

definition vec_resize :: "size_t \<Rightarrow> char list \<Rightarrow> char list res" where
  "vec_resize n xs =
     (if max_size < unat n then Inl Length_Error
      else Inr (take (unat n) xs @ replicate (unat n - length xs) (CHR 0x00)))"

definition EnsureWriteableBytes :: "size_t \<Rightarrow> buffer \<Rightarrow> buffer res" where
  "EnsureWriteableBytes len b =
     (if len \<le> writeAbleBytes b then Inr b
      else if kPrePendIndex + len \<le> writeAbleBytes b + prependAbleBytes b then
        bindR (PeekAllAsString b) (\<lambda>live.
        bindR (put_at (unat kPrePendIndex) live (vec b)) (\<lambda>v.
          Inr (b\<lparr>vec := v,
                 write_index := kPrePendIndex + readAbleBytes b,
                 read_index := kPrePendIndex\<rparr>)))
      else bindR (vec_resize (write_index b + len) (vec b)) (\<lambda>v. Inr (b\<lparr>vec := v\<rparr>)))"

text \<open>\<^verbatim>\<open>Append(message, len)\<close>: \<open>message\<close> is the memory the pointer addresses.\<close>

definition Append :: "bytes \<Rightarrow> size_t \<Rightarrow> buffer \<Rightarrow> buffer res" where
  "Append message len b =
     bindR (EnsureWriteableBytes len b) (\<lambda>b1.
     bindR (slice 0 (unat len) message) (\<lambda>src.
     bindR (put_at (unat (beginWrite b1)) src (vec b1)) (\<lambda>v.
       Inr (b1\<lparr>vec := v, write_index := write_index b1 + len\<rparr>))))"

definition Append_str :: "bytes \<Rightarrow> buffer \<Rightarrow> buffer res" where
  "Append_str message b = Append message (of_nat (length message)) b"

text \<open>\<^verbatim>\<open>strlen\<close>: the bytes before the first zero; undefined without one.\<close>

definition strlen :: "bytes \<Rightarrow> size_t res" where
  "strlen m =
     (if CHR 0x00 \<in> set m then Inr (of_nat (length (takeWhile (\<lambda>c. c \<noteq> CHR 0x00) m)))
      else Inl Undefined_Behaviour)"

definition Append_cstr :: "bytes \<Rightarrow> buffer \<Rightarrow> buffer res" where
  "Append_cstr message b = bindR (strlen message) (\<lambda>len. Append message len b)"

definition RetrieveAll :: "buffer \<Rightarrow> buffer" where
  "RetrieveAll b = b\<lparr>write_index := kPrePendIndex, read_index := kPrePendIndex\<rparr>"

definition Retrieve :: "size_t \<Rightarrow> buffer \<Rightarrow> buffer res" where
  "Retrieve len b =
     bindR (assertR (len \<le> readAbleBytes b)) (\<lambda>_.
       if len + read_index b < write_index b
       then Inr (b\<lparr>read_index := read_index b + len\<rparr>)
       else Inr (RetrieveAll b))"

definition RetrieveUntil :: "size_t \<Rightarrow> buffer \<Rightarrow> buffer res" where
  "RetrieveUntil stop b =
     bindR (assertR (stop \<le> beginWrite b)) (\<lambda>_.
       Inr (b\<lparr>read_index := read_index b + (stop - beginRead b)\<rparr>))"

definition RetrieveAsString :: "size_t \<Rightarrow> buffer \<Rightarrow> (bytes \<times> buffer) res" where
  "RetrieveAsString len b =
     bindR (assertR (read_index b + len \<le> write_index b)) (\<lambda>_.
     bindR (PeekAsString len b) (\<lambda>ret.
     bindR (Retrieve len b) (\<lambda>b1. Inr (ret, b1))))"

definition RetrieveUtilAsString :: "size_t \<Rightarrow> buffer \<Rightarrow> (bytes \<times> buffer) res" where
  "RetrieveUtilAsString stop b =
     bindR (assertR (stop \<le> beginWrite b)) (\<lambda>_.
     bindR (PeekAsString (stop - beginRead b) b) (\<lambda>ret.
     bindR (RetrieveUntil stop b) (\<lambda>b1. Inr (ret, b1))))"

definition RetrieveAllAsString :: "buffer \<Rightarrow> (bytes \<times> buffer) res" where
  "RetrieveAllAsString b =
     bindR (assertR (0 \<le> readAbleBytes b)) (\<lambda>_.
     bindR (PeekAllAsString b) (\<lambda>ret. Inr (ret, RetrieveAll b)))"

section \<open>Invariant and contents\<close>

definition buf_ok :: "buffer \<Rightarrow> bool" where
  "buf_ok b \<longleftrightarrow>
     8 \<le> unat (read_index b) \<and> unat (read_index b) \<le> unat (write_index b)
     \<and> unat (write_index b) \<le> length (vec b) \<and> length (vec b) \<le> max_size"

text \<open>The unread bytes, and the head room for \<open>n\<close> further bytes before a vector would be too large.\<close>

definition contents :: "buffer \<Rightarrow> bytes" where
  "contents b =
     take (unat (write_index b) - unat (read_index b)) (drop (unat (read_index b)) (vec b))"

definition room :: "buffer \<Rightarrow> nat \<Rightarrow> bool" where
  "room b n \<longleftrightarrow> unat (write_index b) + n \<le> max_size"


lemmas buf_defs =
  readAbleBytes_def writeAbleBytes_def prependAbleBytes_def beginRead_def beginWrite_def
  kPrePendIndex_def

lemma buf_okD:
  assumes "buf_ok b"
  shows "8 \<le> unat (read_index b)" and "unat (read_index b) \<le> unat (write_index b)"
    and "unat (write_index b) \<le> length (vec b)" and "length (vec b) \<le> max_size"
    and "length (vec b) < 2 ^ 64" and "unat (write_index b) < 2 ^ 64"
  using assms max_size_lt by (auto simp: buf_ok_def)

lemma length_contents:
  "buf_ok b \<Longrightarrow> length (contents b) = unat (write_index b) - unat (read_index b)"
  by (auto simp: contents_def buf_ok_def)

lemma contents_eqI:
  assumes "vec b = p @ m @ q" and "length p = unat (read_index b)"
    and "length p + length m = unat (write_index b)"
  shows "contents b = m"
  using assms(2,3) unfolding contents_def assms(1) by (simp flip: assms(2) assms(3))

lemma unat_readAbleBytes: "buf_ok b \<Longrightarrow> unat (readAbleBytes b) = length (contents b)"
  by (simp add: readAbleBytes_def unat_sub_le buf_okD length_contents)

lemma readable_iff: "buf_ok b \<Longrightarrow> 0 < readAbleBytes b \<longleftrightarrow> contents b \<noteq> []"
  using unat_readAbleBytes [of b] by (auto simp: word_less_nat_alt)

lemma unat_writeAbleBytes:
  "buf_ok b \<Longrightarrow> unat (writeAbleBytes b) = length (vec b) - unat (write_index b)"
  using buf_okD [of b] unat_of_nat_size [of "length (vec b)"]
  by (simp add: writeAbleBytes_def unat_sub_le)

lemma fits_iff:
  "buf_ok b \<Longrightarrow> len \<le> writeAbleBytes b \<longleftrightarrow> unat len \<le> length (vec b) - unat (write_index b)"
  by (simp add: word_le_nat_alt unat_writeAbleBytes)

lemma PeekAllAsString_ok: "buf_ok b \<Longrightarrow> PeekAllAsString b = Inr (contents b)"
  by (simp add: PeekAllAsString_def buf_defs contents_def buf_okD)

lemma PeekAsString_ok:
  "buf_ok b \<Longrightarrow> unat n \<le> length (contents b) \<Longrightarrow> PeekAsString n b = Inr (take (unat n) (contents b))"
  using buf_okD [of b] length_contents [of b]
  by (simp add: PeekAsString_def buf_defs contents_def [of b] take_take min_absorb1 del: length_take)

lemma buf_ok_new: "buf_ok Buffer_new" and contents_new: "contents Buffer_new = []"
  by (simp_all add: Buffer_new_def buf_ok_def contents_def kPrePendIndex_def kInitSize_def max_size_def)

subsection \<open>Making room and appending\<close>

lemma compaction_guard:
  assumes "buf_ok b" and "unat (write_index b) + unat len \<le> max_size"
  shows "kPrePendIndex + len \<le> writeAbleBytes b + prependAbleBytes b \<longleftrightarrow>
    8 + unat len \<le> length (vec b) - unat (write_index b) + unat (read_index b)"
proof -
  note ok = buf_okD [OF assms(1)]
  have "unat (kPrePendIndex + len) = 8 + unat len"
    using assms(2) ok by (simp add: kPrePendIndex_def unat_add_small max_size_def)
  moreover have "unat (writeAbleBytes b + prependAbleBytes b) =
      length (vec b) - unat (write_index b) + unat (read_index b)"
    using ok assms(1) by (simp add: unat_add_small unat_writeAbleBytes prependAbleBytes_def)
  ultimately show ?thesis by (simp add: word_le_nat_alt)
qed

text \<open>
  Whatever branch \<^verbatim>\<open>EnsureWriteableBytes\<close> takes (room already, compaction, growth), the
  unread bytes stay the same and \<open>len\<close> bytes fit behind them afterwards.
\<close>

lemma compact_ok:
  assumes ok: "buf_ok b" and small: "unat (write_index b) + unat len \<le> max_size"
    and nofit: "length (vec b) - unat (write_index b) < unat len"
    and fit: "8 + unat len \<le> length (vec b) - unat (write_index b) + unat (read_index b)"
  defines "b' \<equiv> b\<lparr>vec := take 8 (vec b) @ contents b @ drop (8 + length (contents b)) (vec b),
                 write_index := kPrePendIndex + readAbleBytes b, read_index := kPrePendIndex\<rparr>"
  shows "EnsureWriteableBytes len b = Inr b'" and "buf_ok b'" and "contents b' = contents b"
    and "unat (write_index b') + unat len \<le> length (vec b')"
    and "unat (write_index b') \<le> unat (write_index b)"
proof -
  note d = buf_okD [OF ok]
  have len: "8 + length (contents b) \<le> length (vec b)"
    using d by (simp add: length_contents ok)
  have w: "unat (kPrePendIndex + readAbleBytes b) = 8 + length (contents b)"
    using d len ok by (simp add: unat_add_small unat_readAbleBytes kPrePendIndex_def)
  show "EnsureWriteableBytes len b = Inr b'"
    using nofit fit small ok len
    by (simp add: EnsureWriteableBytes_def compaction_guard PeekAllAsString_ok fits_iff b'_def)
       (simp add: kPrePendIndex_def)
  show "buf_ok b'"
    using d len w by (simp add: buf_ok_def b'_def kPrePendIndex_def)
  show "contents b' = contents b"
    by (rule contents_eqI [where p = "take 8 (vec b)" and q = "drop (8 + length (contents b)) (vec b)"])
       (use len w in \<open>simp_all add: b'_def, simp_all add: kPrePendIndex_def\<close>)
  show "unat (write_index b') + unat len \<le> length (vec b')"
    using d len w fit ok by (simp add: b'_def length_contents)
  show "unat (write_index b') \<le> unat (write_index b)"
    using d w ok by (simp add: b'_def length_contents)
qed

lemma grow_ok:
  assumes ok: "buf_ok b" and small: "unat (write_index b) + unat len \<le> max_size"
    and nofit: "length (vec b) - unat (write_index b) < unat len"
  defines "v' \<equiv> vec b @ replicate (unat (write_index b) + unat len - length (vec b)) (CHR 0x00)"
  shows "vec_resize (write_index b + len) (vec b) = Inr v'" and "buf_ok (b\<lparr>vec := v'\<rparr>)"
    and "contents (b\<lparr>vec := v'\<rparr>) = contents b"
    and "length v' = unat (write_index b) + unat len"
proof -
  note d = buf_okD [OF ok]
  have u: "unat (write_index b + len) = unat (write_index b) + unat len"
    using small max_size_lt by (simp add: unat_add_small)
  show len: "length v' = unat (write_index b) + unat len"
    using nofit d by (simp add: v'_def)
  show "vec_resize (write_index b + len) (vec b) = Inr v'"
    using small nofit d by (simp add: vec_resize_def u v'_def)
  show "buf_ok (b\<lparr>vec := v'\<rparr>)"
    using d small len by (simp add: buf_ok_def)
  show "contents (b\<lparr>vec := v'\<rparr>) = contents b"
    using d by (simp add: contents_def v'_def)
qed

lemma EnsureWriteableBytes_ok:
  assumes ok: "buf_ok b" and small: "unat (write_index b) + unat len \<le> max_size"
  obtains b' where "EnsureWriteableBytes len b = Inr b'" and "buf_ok b'"
    and "contents b' = contents b" and "unat (write_index b') + unat len \<le> length (vec b')"
    and "unat (write_index b') \<le> unat (write_index b)"
proof -
  note d = buf_okD [OF ok]
  consider (fits) "len \<le> writeAbleBytes b"
    | (compact) "length (vec b) - unat (write_index b) < unat len"
        "8 + unat len \<le> length (vec b) - unat (write_index b) + unat (read_index b)"
    | (grow) "length (vec b) - unat (write_index b) < unat len"
        "\<not> 8 + unat len \<le> length (vec b) - unat (write_index b) + unat (read_index b)"
    using fits_iff [OF ok, of len] by linarith
  then show ?thesis
  proof cases
    case fits
    then have "EnsureWriteableBytes len b = Inr b" by (simp add: EnsureWriteableBytes_def)
    moreover have "unat (write_index b) + unat len \<le> length (vec b)"
      using fits d fits_iff [OF ok, of len] by simp
    ultimately show ?thesis using that ok by blast
  next
    case compact
    then show ?thesis using that compact_ok [OF ok small compact] by blast
  next
    case grow
    then have "EnsureWriteableBytes len b =
        bindR (vec_resize (write_index b + len) (vec b)) (\<lambda>v. Inr (b\<lparr>vec := v\<rparr>))"
      using ok small
      by (simp add: EnsureWriteableBytes_def compaction_guard fits_iff)
    then show ?thesis
      using that grow_ok [OF ok small grow(1)] by simp
  qed
qed

lemma Append_ok:
  assumes ok: "buf_ok b" and room: "room b (length m)"
  obtains b' where "Append_str m b = Inr b'" and "buf_ok b'" and "contents b' = contents b @ m"
    and "unat (write_index b') \<le> unat (write_index b) + length m"
proof -
  let ?len = "of_nat (length m) :: size_t"
  have len: "unat ?len = length m"
    using room by (simp add: room_def unat_of_nat_max)
  obtain b1 where b1: "EnsureWriteableBytes ?len b = Inr b1" "buf_ok b1" "contents b1 = contents b"
      "unat (write_index b1) + length m \<le> length (vec b1)"
      "unat (write_index b1) \<le> unat (write_index b)"
    using EnsureWriteableBytes_ok [OF ok, of ?len] room len by (auto simp: room_def)
  note d = buf_okD [OF b1(2)]
  let ?w = "unat (write_index b1)"
  let ?b' = "b1\<lparr>vec := take ?w (vec b1) @ m @ drop (?w + length m) (vec b1),
               write_index := write_index b1 + ?len\<rparr>"
  have w: "unat (write_index b1 + ?len) = ?w + length m"
    using b1(4) d len by (simp add: unat_add_small)
  have "Append_str m b = Inr ?b'"
    using b1 len by (simp add: Append_str_def Append_def beginWrite_def)
  moreover have "buf_ok ?b'"
    using d b1(4) w by (simp add: buf_ok_def)
  moreover have "contents ?b' = contents b @ m"
    unfolding b1(3) [symmetric]
    using slice_of_put_at [of "unat (read_index b1)" ?w "vec b1" m] d w
    by (simp add: contents_def del: take_append drop_append)
  moreover have "unat (write_index ?b') \<le> unat (write_index b) + length m"
    using w b1(5) by simp
  ultimately show ?thesis using that by blast
qed


subsection \<open>Retrieving\<close>

lemma RetrieveAll_ok:
  "buf_ok b \<Longrightarrow> buf_ok (RetrieveAll b)" "contents (RetrieveAll b) = []"
  "buf_ok b \<Longrightarrow> unat (write_index (RetrieveAll b)) \<le> unat (write_index b)"
  by (auto simp: RetrieveAll_def buf_ok_def contents_def kPrePendIndex_def)

lemma Retrieve_ok:
  assumes ok: "buf_ok b" and len: "unat n \<le> length (contents b)"
  obtains b' where "Retrieve n b = Inr b'" and "buf_ok b'" and "contents b' = drop (unat n) (contents b)"
    and "unat (write_index b') \<le> unat (write_index b)"
proof -
  note d = buf_okD [OF ok]
  have sum: "unat (n + read_index b) = unat n + unat (read_index b)"
    using len d by (simp add: unat_add_small length_contents ok)
  have guard: "n \<le> readAbleBytes b"
    using len by (simp add: word_le_nat_alt unat_readAbleBytes ok)
  show ?thesis
  proof (cases "n + read_index b < write_index b")
    case True
    let ?b' = "b\<lparr>read_index := read_index b + n\<rparr>"
    have "Retrieve n b = Inr ?b'" using True guard by (simp add: Retrieve_def)
    moreover have "buf_ok ?b'"
      using True sum d by (simp add: buf_ok_def word_less_nat_alt add.commute)
    moreover have "contents ?b' = drop (unat n) (contents b)"
      using sum by (simp add: contents_def drop_take add.commute)
    ultimately show ?thesis using that by simp
  next
    case False
    then have "drop (unat n) (contents b) = []"
      using sum d by (simp add: word_less_nat_alt length_contents ok)
    moreover have "Retrieve n b = Inr (RetrieveAll b)" using False guard by (simp add: Retrieve_def)
    ultimately show ?thesis using that RetrieveAll_ok [of b] ok by simp
  qed
qed

lemma RetrieveAsString_ok:
  assumes ok: "buf_ok b" and len: "unat n \<le> length (contents b)"
  obtains b' where "RetrieveAsString n b = Inr (take (unat n) (contents b), b')" and "buf_ok b'"
    and "contents b' = drop (unat n) (contents b)" and "unat (write_index b') \<le> unat (write_index b)"
proof -
  note d = buf_okD [OF ok]
  have "read_index b + n \<le> write_index b"
    using len d by (simp add: word_le_nat_alt unat_add_small length_contents ok)
  moreover obtain b' where "Retrieve n b = Inr b'" "buf_ok b'" "contents b' = drop (unat n) (contents b)"
      "unat (write_index b') \<le> unat (write_index b)"
    using Retrieve_ok [OF ok len] .
  ultimately show ?thesis
    using that PeekAsString_ok [OF ok len] by (simp add: RetrieveAsString_def)
qed

lemma RetrieveAllAsString_ok:
  "buf_ok b \<Longrightarrow> RetrieveAllAsString b = Inr (contents b, RetrieveAll b)"
  by (simp add: RetrieveAllAsString_def PeekAllAsString_ok)

text \<open>Asking for more than is there never returns: the check fires, or the range is invalid.\<close>

lemma RetrieveAsString_too_long:
  assumes ok: "buf_ok b" and len: "length (contents b) < unat n"
  shows "\<exists>e. RetrieveAsString n b = Inl e"
proof (cases "read_index b + n \<le> write_index b")
  case True
  have "\<not> n \<le> readAbleBytes b"
    using len by (simp add: word_le_nat_alt unat_readAbleBytes ok)
  then show ?thesis
    using True by (cases "PeekAsString n b") (simp_all add: RetrieveAsString_def Retrieve_def)
qed (simp add: RetrieveAsString_def)

lemma RetrieveUntil_ok:
  assumes ok: "buf_ok b" and stop: "unat (read_index b) \<le> unat stop" "unat stop \<le> unat (write_index b)"
  obtains b' where
    "RetrieveUtilAsString stop b = Inr (take (unat stop - unat (read_index b)) (contents b), b')"
    and "buf_ok b'" and "contents b' = drop (unat stop - unat (read_index b)) (contents b)"
    and "unat (write_index b') \<le> unat (write_index b)"
proof -
  note d = buf_okD [OF ok]
  let ?n = "stop - read_index b"
  have n: "unat ?n = unat stop - unat (read_index b)" using stop by (simp add: unat_sub_le)
  have le: "unat ?n \<le> length (contents b)" using stop n by (simp add: length_contents ok)
  let ?b' = "b\<lparr>read_index := stop\<rparr>"
  have "RetrieveUtilAsString stop b = Inr (take (unat ?n) (contents b), ?b')"
    using stop PeekAsString_ok [OF ok le]
    by (simp add: RetrieveUtilAsString_def RetrieveUntil_def beginRead_def beginWrite_def word_le_nat_alt)
  moreover have "buf_ok ?b'" using d stop by (simp add: buf_ok_def)
  moreover have "contents ?b' = drop (unat ?n) (contents b)"
    using n stop by (simp add: contents_def drop_take)
  ultimately show ?thesis using that n by simp
qed

section \<open>The byte queue a buffer implements\<close>

text \<open>
  The contract the users of a buffer rely on (connections, the message framing): bytes
  come out in the order they went in, nothing is lost or invented, and an operation whose
  precondition holds returns. \<open>room\<close> bounds how much may still go in.
\<close>

datatype queue_op = Q_put bytes | Q_get size_t | Q_get_all

fun run_queue ::
  "(bytes \<Rightarrow> 'q \<Rightarrow> 'q res) \<Rightarrow> (size_t \<Rightarrow> 'q \<Rightarrow> (bytes \<times> 'q) res) \<Rightarrow> ('q \<Rightarrow> (bytes \<times> 'q) res)
   \<Rightarrow> queue_op list \<Rightarrow> 'q \<Rightarrow> (bytes \<times> 'q) res" where
  "run_queue put get get_all [] q = Inr ([], q)"
| "run_queue put get get_all (Q_put m # ops) q =
     bindR (put m q) (run_queue put get get_all ops)"
| "run_queue put get get_all (Q_get n # ops) q =
     bindR (get n q) (\<lambda>(x, q1). bindR (run_queue put get get_all ops q1) (\<lambda>(xs, q2). Inr (x @ xs, q2)))"
| "run_queue put get get_all (Q_get_all # ops) q =
     bindR (get_all q) (\<lambda>(x, q1). bindR (run_queue put get get_all ops q1) (\<lambda>(xs, q2). Inr (x @ xs, q2)))"

text \<open>What goes in, and whether every \<open>Q_get\<close> asks for no more than is there.\<close>

fun put_bytes :: "queue_op list \<Rightarrow> bytes" where
  "put_bytes [] = []"
| "put_bytes (Q_put m # ops) = m @ put_bytes ops"
| "put_bytes (Q_get n # ops) = put_bytes ops"
| "put_bytes (Q_get_all # ops) = put_bytes ops"

fun gets_bounded :: "nat \<Rightarrow> queue_op list \<Rightarrow> bool" where
  "gets_bounded k [] = True"
| "gets_bounded k (Q_put m # ops) = gets_bounded (k + length m) ops"
| "gets_bounded k (Q_get n # ops) = (unat n \<le> k \<and> gets_bounded (k - unat n) ops)"
| "gets_bounded k (Q_get_all # ops) = gets_bounded 0 ops"

locale byte_queue =
  fixes ok :: "'q \<Rightarrow> bool" and bytes_of :: "'q \<Rightarrow> bytes" and has_room :: "'q \<Rightarrow> nat \<Rightarrow> bool"
    and put :: "bytes \<Rightarrow> 'q \<Rightarrow> 'q res"
    and get :: "size_t \<Rightarrow> 'q \<Rightarrow> (bytes \<times> 'q) res"
    and get_all :: "'q \<Rightarrow> (bytes \<times> 'q) res"
  assumes put_law: "ok q \<Longrightarrow> has_room q (length m + k) \<Longrightarrow>
      \<exists>q'. put m q = Inr q' \<and> ok q' \<and> bytes_of q' = bytes_of q @ m \<and> has_room q' k"
    and get_law: "ok q \<Longrightarrow> unat n \<le> length (bytes_of q) \<Longrightarrow> has_room q k \<Longrightarrow>
      \<exists>q'. get n q = Inr (take (unat n) (bytes_of q), q') \<and> ok q'
           \<and> bytes_of q' = drop (unat n) (bytes_of q) \<and> has_room q' k"
    and get_all_law: "ok q \<Longrightarrow> has_room q k \<Longrightarrow>
      \<exists>q'. get_all q = Inr (bytes_of q, q') \<and> ok q' \<and> bytes_of q' = [] \<and> has_room q' k"
begin

lemma fifo:
  assumes "ok q" and "gets_bounded (length (bytes_of q)) ops" and "has_room q (length (put_bytes ops))"
  shows "\<exists>out q'. run_queue put get get_all ops q = Inr (out, q') \<and> ok q'
           \<and> out @ bytes_of q' = bytes_of q @ put_bytes ops"
  using assms
proof (induction ops arbitrary: q rule: put_bytes.induct)
  case (2 m ops)
  obtain q1 where q1: "put m q = Inr q1" "ok q1" "bytes_of q1 = bytes_of q @ m"
      "has_room q1 (length (put_bytes ops))"
    using put_law [of q m "length (put_bytes ops)"] 2 by auto
  with "2.prems" "2.IH" [of q1] show ?case by auto
next
  case (3 n ops)
  obtain q1 where q1: "get n q = Inr (take (unat n) (bytes_of q), q1)" "ok q1"
      "bytes_of q1 = drop (unat n) (bytes_of q)" "has_room q1 (length (put_bytes ops))"
    using get_law [of q n "length (put_bytes ops)"] "3.prems" by auto
  with "3.prems" "3.IH" [of q1] show ?case
    by fastforce
next
  case (4 ops)
  obtain q1 where q1: "get_all q = Inr (bytes_of q, q1)" "ok q1" "bytes_of q1 = []"
      "has_room q1 (length (put_bytes ops))"
    using get_all_law [of q "length (put_bytes ops)"] "4.prems" by auto
  with "4.prems" "4.IH" [of q1] show ?case by fastforce
qed auto

end

interpretation buf: byte_queue buf_ok contents room Append_str RetrieveAsString RetrieveAllAsString
proof
  fix q and m :: bytes and k
  assume "buf_ok q" and "room q (length m + k)"
  moreover from this have "room q (length m)" by (simp add: room_def)
  ultimately show "\<exists>q'. Append_str m q = Inr q' \<and> buf_ok q' \<and> contents q' = contents q @ m \<and> room q' k"
    using Append_ok [of q m] by (fastforce simp: room_def)
next
  fix q and n :: size_t and k
  assume "buf_ok q" and "unat n \<le> length (contents q)" and "room q k"
  then show "\<exists>q'. RetrieveAsString n q = Inr (take (unat n) (contents q), q') \<and> buf_ok q'
           \<and> contents q' = drop (unat n) (contents q) \<and> room q' k"
    using RetrieveAsString_ok [of q n] by (fastforce simp: room_def)
next
  fix q k
  assume "buf_ok q" and "room q k"
  then show "\<exists>q'. RetrieveAllAsString q = Inr (contents q, q') \<and> buf_ok q' \<and> contents q' = [] \<and> room q' k"
    using RetrieveAllAsString_ok [of q] RetrieveAll_ok [of q] by (fastforce simp: room_def)
qed

section \<open>Properties\<close>

lemma write_index_new [simp]: "unat (write_index Buffer_new) = 8"
  by (simp add: Buffer_new_def kPrePendIndex_def)

lemma room_new: "n < 2 ^ 62 \<Longrightarrow> room Buffer_new n"
  by (simp add: room_def Buffer_new_def kPrePendIndex_def max_size_def)

text \<open>
  C1: A \<^verbatim>\<open>Buffer\<close> is a first-in first-out byte queue: for every sequence of appends, bounded
  reads and read-alls that asks for no more than is there and keeps the vector below its maximal
  size, no operation faults, the invariant holds at the end, and what was read followed by what is
  still in the buffer is exactly what was there at first followed by what was appended.
\<close>

theorem buffer_fifo:
  assumes "buf_ok b" and "gets_bounded (length (contents b)) ops" and "room b (length (put_bytes ops))"
  shows "\<exists>out b'. run_queue Append_str RetrieveAsString RetrieveAllAsString ops b = Inr (out, b')
    \<and> buf_ok b' \<and> out @ contents b' = contents b @ put_bytes ops"
  by (rule buf.fifo [OF assms])

theorem buffer_fifo_witness:
  "\<exists>out b'. run_queue Append_str RetrieveAsString RetrieveAllAsString
      [Q_put ''hello'', Q_get 2, Q_put ''!'', Q_get_all] Buffer_new = Inr (out, b')
    \<and> buf_ok b' \<and> out @ contents b' = ''hello!''"
  using buffer_fifo [of Buffer_new "[Q_put ''hello'', Q_get 2, Q_put ''!'', Q_get_all]"]
  by (simp add: buf_ok_new contents_new room_new)

text \<open>
  \<^verbatim>\<open>EnsureWriteableBytes\<close> keeps the unread bytes and makes room for the requested length
  behind them without leaving the vector, whichever of its three branches runs (enough room,
  compaction towards the front, growth).
\<close>

theorem ensure_writeable_keeps_bytes:
  assumes "buf_ok b" and "unat (write_index b) + unat len \<le> max_size"
  shows "\<exists>b'. EnsureWriteableBytes len b = Inr b' \<and> buf_ok b' \<and> contents b' = contents b
    \<and> len \<le> writeAbleBytes b'"
proof -
  obtain b' where b': "EnsureWriteableBytes len b = Inr b'" "buf_ok b'" "contents b' = contents b"
      "unat (write_index b') + unat len \<le> length (vec b')"
    using EnsureWriteableBytes_ok [OF assms] by metis
  moreover have "len \<le> writeAbleBytes b'" using fits_iff [OF b'(2), of len] b'(4) by simp
  ultimately show ?thesis by blast
qed

theorem ensure_writeable_keeps_bytes_witness:
  "\<exists>b'. EnsureWriteableBytes 4000 Buffer_new = Inr b' \<and> buf_ok b' \<and> contents b' = []
    \<and> 4000 \<le> writeAbleBytes b'"
  using ensure_writeable_keeps_bytes [of Buffer_new 4000]
  by (simp add: buf_ok_new contents_new max_size_def)

text \<open>
  Asking \<^verbatim>\<open>RetrieveAsString\<close> for more bytes than the buffer holds never returns normally
  (the assertion of \<^verbatim>\<open>Retrieve\<close> or the range check stops it), for every length a \<^verbatim>\<open>size_t\<close> can
  hold, wrap-around included.
\<close>

theorem retrieve_beyond_end_fails:
  assumes "buf_ok b" and "length (contents b) < unat n"
  shows "\<exists>e. RetrieveAsString n b = Inl e"
  by (rule RetrieveAsString_too_long [OF assms])

theorem retrieve_beyond_end_fails_witness: "\<exists>e. RetrieveAsString 0xFFFFFFFFFFFFFFFF Buffer_new = Inl e"
  using retrieve_beyond_end_fails [of Buffer_new "0xFFFFFFFFFFFFFFFF"] by (simp add: buf_ok_new contents_new)

end
