(* ===== verification/Messages.thy ===== *)
theory Messages
  imports Prelude
begin

text \<open>
  The protocol messages (\<^verbatim>\<open>protocol/protocol.proto\<close> and the classes \<^verbatim>\<open>protoc\<close> generated from
  it, \<^verbatim>\<open>protocol/protocol.pb.h\<close> and \<^verbatim>\<open>protocol/protocol.pb.cc\<close>): fields with their presence
  bits, setters, \<^verbatim>\<open>Clear\<close>, \<^verbatim>\<open>MergeImpl\<close>, \<^verbatim>\<open>CopyFrom\<close>, \<^verbatim>\<open>ByteSizeLong\<close> and
  \<^verbatim>\<open>_InternalSerialize\<close>. What the generated code calls in the protobuf runtime (writing and
  measuring one field, the table-driven parser) is a parameter, the record \<open>wire_lib\<close>; its
  documented behaviour is the locale \<open>protobuf_runtime\<close>.
\<close>

unbundle bit_operations_syntax

section \<open>Message types\<close>

text \<open>Every message keeps the bytes of fields it does not know (\<^verbatim>\<open>_internal_metadata_\<close>).\<close>

record MessageHeader =
  message_length :: u32
  mh_unknown :: bytes

record Hello_Content =
  hc_has_bits :: u32
  service_name :: bytes
  proxy_port :: u32
  hc_unknown :: bytes

record Hello =
  h_has_bits :: u32
  hello_type :: u32
  digest :: bytes
  hello_content :: "Hello_Content option"
  h_unknown :: bytes

record Ack =
  ack_has_bits :: u32
  ack_content :: u32
  ack_unknown :: bytes

record ControlChannelCmd =
  cc_has_bits :: u32
  control_channel_cmd :: u32
  cc_unknown :: bytes

record DataChannelCmd =
  dc_has_bits :: u32
  data_channel_cmd :: u32
  dc_unknown :: bytes

text \<open>The enumerators. Enums of a proto3 file are open: a field can hold any 32-bit value.\<close>

definition CONTROL_CHANNEL_HELLO :: u32 where "CONTROL_CHANNEL_HELLO = 0"
definition DATA_CHANNEL_HELLO :: u32 where "DATA_CHANNEL_HELLO = 1"
definition Ack_OK :: u32 where "Ack_OK = 0"
definition AUTH_ERROR :: u32 where "AUTH_ERROR = 1"
definition CREATE_DATA_CHANNEL :: u32 where "CREATE_DATA_CHANNEL = 0"
definition HEARTBEAT :: u32 where "HEARTBEAT = 1"
definition START_FORWARD_TCP :: u32 where "START_FORWARD_TCP = 0"
definition START_FORWARD_UDP :: u32 where "START_FORWARD_UDP = 1"

lemmas enumerators =
  CONTROL_CHANNEL_HELLO_def DATA_CHANNEL_HELLO_def Ack_OK_def AUTH_ERROR_def
  CREATE_DATA_CHANNEL_def HEARTBEAT_def START_FORWARD_TCP_def START_FORWARD_UDP_def

section \<open>The protobuf runtime\<close>

text \<open>
  \<^verbatim>\<open>WriteMessage f size body\<close> is \<^verbatim>\<open>InternalWriteMessage\<close> with the cached size of the sub-message;
  \<open>SerializeAsString size body\<close> is the outcome of \<^verbatim>\<open>MessageLite::SerializeAsString\<close> for a message
  whose \<^verbatim>\<open>ByteSizeLong\<close> is \<open>size\<close> and whose \<^verbatim>\<open>_InternalSerialize\<close> writes \<open>body\<close>. A parser returns
  \<^verbatim>\<open>ParseFromString\<close>'s flag and what it left in the message.
\<close>

record wire_lib =
  WriteFixed32ToArray :: "nat \<Rightarrow> u32 \<Rightarrow> bytes"
  WriteEnumToArray :: "nat \<Rightarrow> u32 \<Rightarrow> bytes"
  WriteInt32ToArray :: "nat \<Rightarrow> u32 \<Rightarrow> bytes"
  WriteString :: "nat \<Rightarrow> bytes \<Rightarrow> bytes"
  WriteMessage :: "nat \<Rightarrow> nat \<Rightarrow> bytes \<Rightarrow> bytes"
  EnumSize :: "u32 \<Rightarrow> nat"
  Int32SizePlusOne :: "u32 \<Rightarrow> nat"
  StringSize :: "bytes \<Rightarrow> nat"
  MessageSize :: "nat \<Rightarrow> nat"
  valid_utf8 :: "bytes \<Rightarrow> bool"
  SerializeAsString :: "nat \<Rightarrow> bytes \<Rightarrow> bytes"
  parse_MessageHeader :: "bytes \<Rightarrow> bool \<times> MessageHeader"
  parse_Hello :: "bytes \<Rightarrow> bool \<times> Hello"
  parse_Ack :: "bytes \<Rightarrow> bool \<times> Ack"
  parse_ControlChannelCmd :: "bytes \<Rightarrow> bool \<times> ControlChannelCmd"
  parse_DataChannelCmd :: "bytes \<Rightarrow> bool \<times> DataChannelCmd"

section \<open>MessageHeader\<close>

definition MessageHeader_new :: MessageHeader where
  "MessageHeader_new = \<lparr>message_length = 0, mh_unknown = []\<rparr>"

definition set_message_length :: "u32 \<Rightarrow> MessageHeader \<Rightarrow> MessageHeader" where
  "set_message_length v m = m\<lparr>message_length := v\<rparr>"

definition MessageHeader_Clear :: "MessageHeader \<Rightarrow> MessageHeader" where
  "MessageHeader_Clear m = m\<lparr>message_length := 0, mh_unknown := []\<rparr>"

definition MessageHeader_InternalSerialize :: "wire_lib \<Rightarrow> MessageHeader \<Rightarrow> bytes" where
  "MessageHeader_InternalSerialize W m =
     (if message_length m \<noteq> 0 then WriteFixed32ToArray W 1 (message_length m) else [])
     @ mh_unknown m"

definition MessageHeader_ByteSizeLong :: "MessageHeader \<Rightarrow> nat" where
  "MessageHeader_ByteSizeLong m = (if message_length m \<noteq> 0 then 5 else 0) + length (mh_unknown m)"

definition MessageHeader_MergeImpl :: "MessageHeader \<Rightarrow> MessageHeader \<Rightarrow> MessageHeader" where
  "MessageHeader_MergeImpl to from =
     (if message_length from \<noteq> 0 then to\<lparr>message_length := message_length from\<rparr> else to)
       \<lparr>mh_unknown := mh_unknown to @ mh_unknown from\<rparr>"

definition MessageHeader_CopyFrom :: "MessageHeader \<Rightarrow> MessageHeader \<Rightarrow> MessageHeader" where
  "MessageHeader_CopyFrom to from = MessageHeader_MergeImpl (MessageHeader_Clear to) from"

section \<open>Hello.Control\_Channel\_Hello\_Content\<close>

definition Hello_Content_new :: Hello_Content where
  "Hello_Content_new = \<lparr>hc_has_bits = 0, service_name = [], proxy_port = 0, hc_unknown = []\<rparr>"

definition set_service_name :: "bytes \<Rightarrow> Hello_Content \<Rightarrow> Hello_Content" where
  "set_service_name s c = c\<lparr>hc_has_bits := hc_has_bits c OR 1, service_name := s\<rparr>"

definition set_proxy_port :: "u32 \<Rightarrow> Hello_Content \<Rightarrow> Hello_Content" where
  "set_proxy_port v c = c\<lparr>proxy_port := v, hc_has_bits := hc_has_bits c OR 2\<rparr>"

definition Hello_Content_Clear :: "Hello_Content \<Rightarrow> Hello_Content" where
  "Hello_Content_Clear c =
     (if hc_has_bits c AND 1 \<noteq> 0 then c\<lparr>service_name := []\<rparr> else c)
       \<lparr>proxy_port := 0, hc_has_bits := 0, hc_unknown := []\<rparr>"

definition Hello_Content_InternalSerialize :: "wire_lib \<Rightarrow> Hello_Content \<Rightarrow> bytes" where
  "Hello_Content_InternalSerialize W c =
     (if hc_has_bits c AND 1 \<noteq> 0 then WriteString W 1 (service_name c) else [])
     @ (if hc_has_bits c AND 2 \<noteq> 0 then WriteInt32ToArray W 2 (proxy_port c) else [])
     @ hc_unknown c"

definition Hello_Content_ByteSizeLong :: "wire_lib \<Rightarrow> Hello_Content \<Rightarrow> nat" where
  "Hello_Content_ByteSizeLong W c =
     (if hc_has_bits c AND 3 \<noteq> 0 then
        (if hc_has_bits c AND 1 \<noteq> 0 then 1 + StringSize W (service_name c) else 0)
        + (if hc_has_bits c AND 2 \<noteq> 0 then Int32SizePlusOne W (proxy_port c) else 0)
      else 0) + length (hc_unknown c)"

definition Hello_Content_MergeImpl :: "Hello_Content \<Rightarrow> Hello_Content \<Rightarrow> Hello_Content" where
  "Hello_Content_MergeImpl to from =
     (let c1 = (if hc_has_bits from AND 1 \<noteq> 0 then set_service_name (service_name from) to else to);
          c2 = (if hc_has_bits from AND 2 \<noteq> 0 then c1\<lparr>proxy_port := proxy_port from\<rparr> else c1)
      in (if hc_has_bits from AND 3 \<noteq> 0 then c2 else to)
           \<lparr>hc_has_bits := hc_has_bits (if hc_has_bits from AND 3 \<noteq> 0 then c2 else to) OR hc_has_bits from,
            hc_unknown := hc_unknown to @ hc_unknown from\<rparr>)"

definition Hello_Content_CopyFrom :: "Hello_Content \<Rightarrow> Hello_Content \<Rightarrow> Hello_Content" where
  "Hello_Content_CopyFrom to from = Hello_Content_MergeImpl (Hello_Content_Clear to) from"

section \<open>Hello\<close>

definition Hello_new :: Hello where
  "Hello_new =
     \<lparr>h_has_bits = 0, hello_type = 0, digest = [], hello_content = None, h_unknown = []\<rparr>"

definition set_hello_type :: "u32 \<Rightarrow> Hello \<Rightarrow> Hello" where
  "set_hello_type v h = h\<lparr>hello_type := v, h_has_bits := h_has_bits h OR 4\<rparr>"

definition set_digest :: "bytes \<Rightarrow> Hello \<Rightarrow> Hello" where
  "set_digest s h = h\<lparr>h_has_bits := h_has_bits h OR 1, digest := s\<rparr>"

text \<open>
  \<^verbatim>\<open>mutable_control_channel_hello_content\<close> returns a pointer the caller writes through: here it
  takes the caller's writes \<open>f\<close>.
\<close>

definition mutable_hello_content :: "(Hello_Content \<Rightarrow> Hello_Content) \<Rightarrow> Hello \<Rightarrow> Hello" where
  "mutable_hello_content f h =
     h\<lparr>h_has_bits := h_has_bits h OR 2,
       hello_content := Some (f (case hello_content h of None \<Rightarrow> Hello_Content_new | Some c \<Rightarrow> c))\<rparr>"

definition control_channel_hello_content :: "Hello \<Rightarrow> Hello_Content" where
  "control_channel_hello_content h =
     (case hello_content h of Some c \<Rightarrow> c | None \<Rightarrow> Hello_Content_new)"

text \<open>
  Presence bit 2 promises a sub-message (\<open>Hello_wf\<close> below); the sources dereference its pointer
  under that bit alone.
\<close>

definition Hello_Clear :: "Hello \<Rightarrow> Hello" where
  "Hello_Clear h =
     (let h1 = (if h_has_bits h AND 1 \<noteq> 0 then h\<lparr>digest := []\<rparr> else h);
          h2 = (if h_has_bits h AND 2 \<noteq> 0
                then h1\<lparr>hello_content := map_option Hello_Content_Clear (hello_content h1)\<rparr> else h1)
      in (if h_has_bits h AND 3 \<noteq> 0 then h2 else h)
           \<lparr>hello_type := 0, h_has_bits := 0, h_unknown := []\<rparr>)"

definition Hello_InternalSerialize :: "wire_lib \<Rightarrow> Hello \<Rightarrow> bytes" where
  "Hello_InternalSerialize W h =
     (if h_has_bits h AND 4 \<noteq> 0 then WriteEnumToArray W 1 (hello_type h) else [])
     @ (if h_has_bits h AND 1 \<noteq> 0 then WriteString W 2 (digest h) else [])
     @ (if h_has_bits h AND 2 \<noteq> 0 then
          WriteMessage W 3 (Hello_Content_ByteSizeLong W (control_channel_hello_content h))
            (Hello_Content_InternalSerialize W (control_channel_hello_content h))
        else [])
     @ h_unknown h"

definition Hello_ByteSizeLong :: "wire_lib \<Rightarrow> Hello \<Rightarrow> nat" where
  "Hello_ByteSizeLong W h =
     (if h_has_bits h AND 7 \<noteq> 0 then
        (if h_has_bits h AND 1 \<noteq> 0 then 1 + StringSize W (digest h) else 0)
        + (if h_has_bits h AND 2 \<noteq> 0
           then 1 + MessageSize W (Hello_Content_ByteSizeLong W (control_channel_hello_content h)) else 0)
        + (if h_has_bits h AND 4 \<noteq> 0 then 1 + EnumSize W (hello_type h) else 0)
      else 0) + length (h_unknown h)"

definition Hello_MergeImpl :: "Hello \<Rightarrow> Hello \<Rightarrow> Hello" where
  "Hello_MergeImpl to from =
     (let h1 = (if h_has_bits from AND 1 \<noteq> 0 then set_digest (digest from) to else to);
          h2 = (if h_has_bits from AND 2 \<noteq> 0 then
                  h1\<lparr>hello_content :=
                       (case hello_content h1 of
                          None \<Rightarrow> Some (control_channel_hello_content from)
                        | Some c \<Rightarrow> Some (Hello_Content_MergeImpl c (control_channel_hello_content from)))\<rparr>
                else h1);
          h3 = (if h_has_bits from AND 4 \<noteq> 0 then h2\<lparr>hello_type := hello_type from\<rparr> else h2);
          h4 = (if h_has_bits from AND 7 \<noteq> 0 then h3 else to)
      in h4\<lparr>h_has_bits := h_has_bits h4 OR h_has_bits from, h_unknown := h_unknown to @ h_unknown from\<rparr>)"

definition Hello_CopyFrom :: "Hello \<Rightarrow> Hello \<Rightarrow> Hello" where
  "Hello_CopyFrom to from = Hello_MergeImpl (Hello_Clear to) from"

section \<open>Ack, ControlChannelCmd and DataChannelCmd\<close>

definition Ack_new :: Ack where
  "Ack_new = \<lparr>ack_has_bits = 0, ack_content = 0, ack_unknown = []\<rparr>"

definition set_ack_content :: "u32 \<Rightarrow> Ack \<Rightarrow> Ack" where
  "set_ack_content v m = m\<lparr>ack_content := v, ack_has_bits := ack_has_bits m OR 1\<rparr>"

definition Ack_Clear :: "Ack \<Rightarrow> Ack" where
  "Ack_Clear m = m\<lparr>ack_content := 0, ack_has_bits := 0, ack_unknown := []\<rparr>"

definition Ack_InternalSerialize :: "wire_lib \<Rightarrow> Ack \<Rightarrow> bytes" where
  "Ack_InternalSerialize W m =
     (if ack_has_bits m AND 1 \<noteq> 0 then WriteEnumToArray W 1 (ack_content m) else []) @ ack_unknown m"

definition Ack_ByteSizeLong :: "wire_lib \<Rightarrow> Ack \<Rightarrow> nat" where
  "Ack_ByteSizeLong W m =
     (if ack_has_bits m AND 1 \<noteq> 0 then 1 + EnumSize W (ack_content m) else 0) + length (ack_unknown m)"

definition Ack_MergeImpl :: "Ack \<Rightarrow> Ack \<Rightarrow> Ack" where
  "Ack_MergeImpl to from =
     (if ack_has_bits from AND 1 \<noteq> 0 then to\<lparr>ack_content := ack_content from\<rparr> else to)
       \<lparr>ack_has_bits := ack_has_bits to OR ack_has_bits from,
        ack_unknown := ack_unknown to @ ack_unknown from\<rparr>"

definition ControlChannelCmd_new :: ControlChannelCmd where
  "ControlChannelCmd_new = \<lparr>cc_has_bits = 0, control_channel_cmd = 0, cc_unknown = []\<rparr>"

definition set_control_channel_cmd :: "u32 \<Rightarrow> ControlChannelCmd \<Rightarrow> ControlChannelCmd" where
  "set_control_channel_cmd v m = m\<lparr>control_channel_cmd := v, cc_has_bits := cc_has_bits m OR 1\<rparr>"

definition ControlChannelCmd_Clear :: "ControlChannelCmd \<Rightarrow> ControlChannelCmd" where
  "ControlChannelCmd_Clear m = m\<lparr>control_channel_cmd := 0, cc_has_bits := 0, cc_unknown := []\<rparr>"

definition ControlChannelCmd_InternalSerialize :: "wire_lib \<Rightarrow> ControlChannelCmd \<Rightarrow> bytes" where
  "ControlChannelCmd_InternalSerialize W m =
     (if cc_has_bits m AND 1 \<noteq> 0 then WriteEnumToArray W 1 (control_channel_cmd m) else [])
     @ cc_unknown m"

definition ControlChannelCmd_ByteSizeLong :: "wire_lib \<Rightarrow> ControlChannelCmd \<Rightarrow> nat" where
  "ControlChannelCmd_ByteSizeLong W m =
     (if cc_has_bits m AND 1 \<noteq> 0 then 1 + EnumSize W (control_channel_cmd m) else 0)
     + length (cc_unknown m)"

definition ControlChannelCmd_MergeImpl ::
  "ControlChannelCmd \<Rightarrow> ControlChannelCmd \<Rightarrow> ControlChannelCmd" where
  "ControlChannelCmd_MergeImpl to from =
     (if cc_has_bits from AND 1 \<noteq> 0 then to\<lparr>control_channel_cmd := control_channel_cmd from\<rparr> else to)
       \<lparr>cc_has_bits := cc_has_bits to OR cc_has_bits from,
        cc_unknown := cc_unknown to @ cc_unknown from\<rparr>"

definition DataChannelCmd_new :: DataChannelCmd where
  "DataChannelCmd_new = \<lparr>dc_has_bits = 0, data_channel_cmd = 0, dc_unknown = []\<rparr>"

definition set_data_channel_cmd :: "u32 \<Rightarrow> DataChannelCmd \<Rightarrow> DataChannelCmd" where
  "set_data_channel_cmd v m = m\<lparr>data_channel_cmd := v, dc_has_bits := dc_has_bits m OR 1\<rparr>"

definition DataChannelCmd_Clear :: "DataChannelCmd \<Rightarrow> DataChannelCmd" where
  "DataChannelCmd_Clear m = m\<lparr>data_channel_cmd := 0, dc_has_bits := 0, dc_unknown := []\<rparr>"

definition DataChannelCmd_InternalSerialize :: "wire_lib \<Rightarrow> DataChannelCmd \<Rightarrow> bytes" where
  "DataChannelCmd_InternalSerialize W m =
     (if dc_has_bits m AND 1 \<noteq> 0 then WriteEnumToArray W 1 (data_channel_cmd m) else []) @ dc_unknown m"

definition DataChannelCmd_ByteSizeLong :: "wire_lib \<Rightarrow> DataChannelCmd \<Rightarrow> nat" where
  "DataChannelCmd_ByteSizeLong W m =
     (if dc_has_bits m AND 1 \<noteq> 0 then 1 + EnumSize W (data_channel_cmd m) else 0)
     + length (dc_unknown m)"

definition DataChannelCmd_MergeImpl :: "DataChannelCmd \<Rightarrow> DataChannelCmd \<Rightarrow> DataChannelCmd" where
  "DataChannelCmd_MergeImpl to from =
     (if dc_has_bits from AND 1 \<noteq> 0 then to\<lparr>data_channel_cmd := data_channel_cmd from\<rparr> else to)
       \<lparr>dc_has_bits := dc_has_bits to OR dc_has_bits from,
        dc_unknown := dc_unknown to @ dc_unknown from\<rparr>"


section \<open>Well-formed messages\<close>

lemma mask_part:
  fixes x :: u32
  assumes "x AND m = 0" and "m AND k = k"
  shows "x AND k = 0"
proof -
  have "x AND k = (x AND m) AND k" using assms(2) by (simp add: and.assoc)
  with assms(1) show ?thesis by simp
qed

lemma mask_widen:
  fixes x :: u32
  assumes "x AND m = x" and "m AND k = m"
  shows "x AND k = x"
proof -
  have "x AND k = (x AND m) AND k" using assms(1) by simp
  also have "\<dots> = x AND m" using assms(2) by (simp add: and.assoc)
  finally show ?thesis using assms(1) by simp
qed

lemma mask_cases:
  fixes x :: u32
  assumes "x AND 7 = x"
  shows "x \<in> {0, 1, 2, 3, 4, 5, 6, 7}"
proof -
  have "unat x < 8"
  proof -
    have "unat (x AND 7) \<le> unat (7 :: u32)"
      by (rule word_and_le1 [THEN word_le_nat_alt [THEN iffD1]])
    then show ?thesis using assms by simp
  qed
  then have "unat x \<in> {0, 1, 2, 3, 4, 5, 6, 7}" by auto
  then have "of_nat (unat x) \<in> (of_nat :: nat \<Rightarrow> u32) ` {0, 1, 2, 3, 4, 5, 6, 7}" by (rule imageI)
  then show ?thesis by simp
qed

definition Hello_wf :: "Hello \<Rightarrow> bool" where
  "Hello_wf h \<longleftrightarrow> (h_has_bits h AND 2 \<noteq> 0 \<longrightarrow> hello_content h \<noteq> None)"

text \<open>
  A canonical message is one a fresh object and the setters can build: absent fields hold their
  default, no unknown fields, no presence bit without a field, strings in UTF-8.
\<close>

definition Hello_Content_canonical :: "wire_lib \<Rightarrow> Hello_Content \<Rightarrow> bool" where
  "Hello_Content_canonical W c \<longleftrightarrow>
     hc_has_bits c AND 3 = hc_has_bits c \<and> hc_unknown c = []
     \<and> (hc_has_bits c AND 1 = 0 \<longrightarrow> service_name c = []) \<and> (hc_has_bits c AND 2 = 0 \<longrightarrow> proxy_port c = 0)
     \<and> valid_utf8 W (service_name c) \<and> length (service_name c) < 2 ^ 31"

definition Hello_canonical :: "wire_lib \<Rightarrow> Hello \<Rightarrow> bool" where
  "Hello_canonical W h \<longleftrightarrow>
     h_has_bits h AND 7 = h_has_bits h \<and> h_unknown h = []
     \<and> (h_has_bits h AND 1 = 0 \<longrightarrow> digest h = []) \<and> (h_has_bits h AND 4 = 0 \<longrightarrow> hello_type h = 0)
     \<and> (h_has_bits h AND 2 = 0 \<longleftrightarrow> hello_content h = None)
     \<and> (case hello_content h of None \<Rightarrow> True | Some c \<Rightarrow> Hello_Content_canonical W c)
     \<and> valid_utf8 W (digest h) \<and> length (digest h) < 2 ^ 31"

section \<open>What the runtime promises\<close>

text \<open>
  The documented behaviour the sources rely on. Fields with a number below 16 have a one-byte tag, a
  \<^verbatim>\<open>fixed32\<close> field takes five bytes, the size functions measure what the write functions write,
  a message within the 2 GB limit is serialized as its fields, and parsing what was serialized from
  a canonical message gives the message back.
\<close>

locale protobuf_runtime =
  fixes W :: wire_lib
  assumes fixed32_length: "length (WriteFixed32ToArray W 1 v) = 5"
    and enum_length: "f < 16 \<Longrightarrow> length (WriteEnumToArray W f v) = 1 + EnumSize W v"
    and int32_length: "f < 16 \<Longrightarrow> length (WriteInt32ToArray W f v) = Int32SizePlusOne W v"
    and string_length: "f < 16 \<Longrightarrow> length (WriteString W f s) = 1 + StringSize W s"
    and message_length: "f < 16 \<Longrightarrow> length (WriteMessage W f (length body) body) = 1 + MessageSize W (length body)"
    and enum_size_bound: "EnumSize W v \<le> 10"
    and string_size_bound: "length s < 2 ^ 31 \<Longrightarrow> StringSize W s \<le> length s + 10"
    and int32_size_bound: "Int32SizePlusOne W v \<le> 11"
    and message_size_bound: "n < 2 ^ 31 \<Longrightarrow> MessageSize W n \<le> n + 10"
    and serialize_body: "n < 2 ^ 31 \<Longrightarrow> SerializeAsString W n body = body"
    and parse_header: "parse_MessageHeader W (WriteFixed32ToArray W 1 v) = (True, \<lparr>message_length = v, mh_unknown = []\<rparr>)"
    and parse_hello: "Hello_canonical W h \<Longrightarrow> parse_Hello W (Hello_InternalSerialize W h) = (True, h)"
    and parse_ack: "parse_Ack W (WriteEnumToArray W 1 v) =
        (True, \<lparr>ack_has_bits = 1, ack_content = v, ack_unknown = []\<rparr>)"
    and parse_control_cmd: "parse_ControlChannelCmd W (WriteEnumToArray W 1 v) =
        (True, \<lparr>cc_has_bits = 1, control_channel_cmd = v, cc_unknown = []\<rparr>)"
    and parse_data_cmd: "parse_DataChannelCmd W (WriteEnumToArray W 1 v) =
        (True, \<lparr>dc_has_bits = 1, data_channel_cmd = v, dc_unknown = []\<rparr>)"
begin

lemma content_size: "length (Hello_Content_InternalSerialize W c) = Hello_Content_ByteSizeLong W c"
proof -
  have "hc_has_bits c AND 1 = 0" and "hc_has_bits c AND 2 = 0" if "hc_has_bits c AND 3 = 0"
    using that by (simp_all add: mask_part)
  then show ?thesis
    by (auto simp: Hello_Content_InternalSerialize_def Hello_Content_ByteSizeLong_def
        string_length int32_length)
qed

lemma hello_size: "length (Hello_InternalSerialize W h) = Hello_ByteSizeLong W h"
proof -
  have "h_has_bits h AND 1 = 0" and "h_has_bits h AND 2 = 0" and "h_has_bits h AND 4 = 0"
    if "h_has_bits h AND 7 = 0"
    using that by (simp_all add: mask_part)
  then show ?thesis
    by (auto simp: Hello_InternalSerialize_def Hello_ByteSizeLong_def string_length enum_length
        message_length simp flip: content_size)
qed

end

end
