(* ===== verification/WireFormat.thy ===== *)
theory WireFormat
  imports Messages
begin

text \<open>
  An executable rendering of the documented protobuf wire format (varints, \<^verbatim>\<open>fixed32\<close>,
  length-delimited fields, UTF-8 strings), with a parser for the six messages. It instantiates the
  runtime parameter: the interpretation at the end shows that the contract
  \<open>protobuf_runtime\<close> can be met, and closed examples evaluate with it.
\<close>

section \<open>Varints\<close>

fun varint :: "nat \<Rightarrow> bytes" where
  "varint n = (if n < 128 then [char_of n] else char_of (128 + n mod 128) # varint (n div 128))"

fun read_varint :: "bytes \<Rightarrow> (nat \<times> bytes) option" where
  "read_varint [] = None"
| "read_varint (c # cs) =
     (let b = of_char c :: nat in
      if b < 128 then Some (b, cs)
      else case read_varint cs of None \<Rightarrow> None | Some (m, rest) \<Rightarrow> Some (b - 128 + 128 * m, rest))"

declare varint.simps [simp del]

lemma varint_small [simp]: "n < 128 \<Longrightarrow> varint n = [char_of n]"
  by (subst varint.simps) simp

lemma varint_nonempty: "varint n \<noteq> []"
  by (subst varint.simps) simp

lemma read_varint_varint: "read_varint (varint n @ rest) = Some (n, rest)"
proof (induction n rule: varint.induct)
  case (1 n)
  show ?case
  proof (cases "n < 128")
    case False
    have "128 + n mod 128 < (256::nat)" by simp
    then show ?thesis
      using "1.IH" False by (subst varint.simps) (simp add: Let_def)
  qed (simp add: Let_def)
qed

lemma length_varint_bound: "n < 128 ^ Suc k \<Longrightarrow> length (varint n) \<le> Suc k"
proof (induction k arbitrary: n)
  case (Suc k)
  then have "n div 128 < 128 ^ Suc k" by (simp add: less_mult_imp_div_less mult.commute)
  with Suc.IH [of "n div 128"] show ?case by (subst varint.simps) simp
qed simp

section \<open>Fields\<close>

datatype wfield = Varint nat nat | Fixed32 nat u32 | Delimited nat bytes

definition le32 :: "u32 \<Rightarrow> bytes" where
  "le32 v = map (\<lambda>i. char_of (unat v div 256 ^ i mod 256)) [0, 1, 2, 3]"

definition of_le32 :: "bytes \<Rightarrow> u32" where
  "of_le32 bs = of_nat (\<Sum>i<4. of_char (bs ! i) * 256 ^ i)"

fun put_field :: "wfield \<Rightarrow> bytes" where
  "put_field (Varint f v) = varint (f * 8) @ varint v"
| "put_field (Fixed32 f v) = varint (f * 8 + 5) @ le32 v"
| "put_field (Delimited f s) = varint (f * 8 + 2) @ varint (length s) @ s"

definition get_field :: "bytes \<Rightarrow> (wfield \<times> bytes) option" where
  "get_field bs =
     (case read_varint bs of
        None \<Rightarrow> None
      | Some (tag, r) \<Rightarrow>
          if tag mod 8 = 0 then map_option (\<lambda>(v, r1). (Varint (tag div 8) v, r1)) (read_varint r)
          else if tag mod 8 = 5 then
            (if 4 \<le> length r then Some (Fixed32 (tag div 8) (of_le32 (take 4 r)), drop 4 r) else None)
          else if tag mod 8 = 2 then
            (case read_varint r of
               None \<Rightarrow> None
             | Some (n, r1) \<Rightarrow>
                 if n \<le> length r1 then Some (Delimited (tag div 8) (take n r1), drop n r1) else None)
          else None)"

lemma length_le32 [simp]: "length (le32 v) = 4"
  by (simp add: le32_def)

lemma base256:
  fixes n :: nat
  assumes "n < 256 ^ 4"
  shows "n mod 256 + n div 256 mod 256 * 256 + n div 256 ^ 2 mod 256 * 256 ^ 2
    + n div 256 ^ 3 mod 256 * 256 ^ 3 = n"
proof -
  define q0 where "q0 = n div 256"
  define q1 where "q1 = q0 div 256"
  define q2 where "q2 = q1 div 256"
  have q: "n div 256 ^ 2 = q1" "n div 256 ^ 3 = q2"
    by (simp_all add: q0_def q1_def q2_def div_mult2_eq [symmetric])
  have "q2 < 256" using assms unfolding q(2) [symmetric] by (simp add: less_mult_imp_div_less)
  then have top: "q2 mod 256 = q2" by simp
  have parts: "n = n mod 256 + 256 * q0" "q0 = q0 mod 256 + 256 * q1" "q1 = q1 mod 256 + 256 * q2"
    by (simp_all add: q0_def q1_def q2_def)
  have "n = n mod 256 + 256 * (q0 mod 256 + 256 * (q1 mod 256 + 256 * q2))"
    using parts by metis
  then show ?thesis
    unfolding q q0_def [symmetric] top by (simp add: algebra_simps)
qed

lemma of_le32_le32: "of_le32 (le32 v) = v"
proof -
  have sum4: "(\<Sum>i<4. h i) = h 0 + h 1 + h 2 + h 3" for h :: "nat \<Rightarrow> nat"
    by (simp add: eval_nat_numeral)
  have "unat v < 256 ^ 4" using unsigned_less [of v] by simp
  note digits = base256 [OF this]
  have "(\<Sum>i<4. of_char (le32 v ! i) * 256 ^ i) =
      unat v mod 256 + unat v div 256 mod 256 * 256 + unat v div 256 ^ 2 mod 256 * 256 ^ 2
      + unat v div 256 ^ 3 mod 256 * 256 ^ 3"
    unfolding sum4 le32_def by simp
  then show ?thesis by (simp only: of_le32_def digits of_nat_unat ucast_id)
qed

lemma tag_parts: "(f * 8 + 2) mod 8 = (2::nat)" "(f * 8 + 2) div 8 = (f::nat)"
    "(f * 8 + 5) mod 8 = (5::nat)" "(f * 8 + 5) div 8 = f"
  by presburger+

lemma get_put_field: "get_field (put_field x @ rest) = Some (x, rest)"
  by (cases x) (simp_all only: put_field.simps append_assoc get_field_def read_varint_varint
      option.case prod.case tag_parts, simp_all add: read_varint_varint of_le32_le32)

lemma put_field_nonempty: "put_field x \<noteq> []"
  by (cases x) (simp_all add: varint_nonempty)

fun get_fields :: "nat \<Rightarrow> bytes \<Rightarrow> wfield list option" where
  "get_fields n [] = Some []"
| "get_fields 0 (c # cs) = None"
| "get_fields (Suc n) (c # cs) =
     (case get_field (c # cs) of
        None \<Rightarrow> None
      | Some (x, rest) \<Rightarrow> map_option ((#) x) (get_fields n rest))"

lemma get_put_fields: "length xs \<le> n \<Longrightarrow> get_fields n (concat (map put_field xs)) = Some xs"
proof (induction xs arbitrary: n)
  case (Cons x xs)
  then obtain m where n: "n = Suc m" "length xs \<le> m" by (cases n) auto
  obtain c cs where c: "put_field x @ concat (map put_field xs) = c # cs"
    using put_field_nonempty [of x] by (cases "put_field x") auto
  have "get_field (c # cs) = Some (x, concat (map put_field xs))"
    by (simp add: get_put_field flip: c)
  with Cons.IH [OF n(2)] n(1) c show ?case by simp
qed simp

lemma length_concat_fields: "length xs \<le> length (concat (map put_field xs))"
proof (induction xs)
  case (Cons x xs)
  have "1 \<le> length (put_field x)"
    using put_field_nonempty [of x] by (cases "put_field x") auto
  with Cons show ?case by simp
qed simp

definition fields_of :: "bytes \<Rightarrow> wfield list option" where
  "fields_of bs = get_fields (length bs) bs"

lemma fields_of_put: "fields_of (concat (map put_field xs)) = Some xs"
  by (simp add: fields_of_def get_put_fields length_concat_fields)

section \<open>UTF-8\<close>

definition cont_byte :: "nat \<Rightarrow> bool" where
  "cont_byte b \<longleftrightarrow> 128 \<le> b \<and> b < 192"

fun utf8 :: "nat list \<Rightarrow> bool" where
  "utf8 [] = True"
| "utf8 (a # bs) =
     (if a < 128 then utf8 bs
      else case bs of
        [] \<Rightarrow> False
      | b # cs \<Rightarrow>
          if 194 \<le> a \<and> a < 224 then cont_byte b \<and> utf8 cs
          else (case cs of
            [] \<Rightarrow> False
          | c # ds \<Rightarrow>
              if 224 \<le> a \<and> a < 240 then
                cont_byte b \<and> cont_byte c \<and> (a = 224 \<longrightarrow> 160 \<le> b) \<and> (a = 237 \<longrightarrow> b < 160) \<and> utf8 ds
              else (case ds of
                [] \<Rightarrow> False
              | d # es \<Rightarrow>
                  240 \<le> a \<and> a < 245 \<and> cont_byte b \<and> cont_byte c \<and> cont_byte d
                  \<and> (a = 240 \<longrightarrow> 144 \<le> b) \<and> (a = 244 \<longrightarrow> b < 144) \<and> utf8 es)))"

lemma utf8_ascii: "\<forall>a \<in> set as. a < 128 \<Longrightarrow> utf8 as"
  by (induction as) auto

section \<open>Parsing messages\<close>

text \<open>An \<^verbatim>\<open>int32\<close> and an enum travel as the varint of their sign extension to 64 bits.\<close>

definition varint_of_int32 :: "u32 \<Rightarrow> nat" where
  "varint_of_int32 v = unat (scast v :: 64 word)"

definition int32_of_varint :: "nat \<Rightarrow> u32" where
  "int32_of_varint n = of_nat n"

lemma int32_varint_roundtrip [simp]: "int32_of_varint (varint_of_int32 v) = v"
proof -
  have "ucast (scast v :: 64 word) = v"
    by (rule bit_word_eqI) (simp add: bit_simps)
  moreover have "of_nat (unat (scast v :: 64 word)) = (ucast (scast v :: 64 word) :: u32)"
    by (simp add: of_nat_unat)
  ultimately show ?thesis
    by (simp add: int32_of_varint_def varint_of_int32_def)
qed


lemma length_varint_int32: "length (varint (varint_of_int32 v)) \<le> 10"
proof -
  have "varint_of_int32 v < 2 ^ 64"
    unfolding varint_of_int32_def using unsigned_less [of "scast v :: 64 word"] by simp
  then have "varint_of_int32 v < 128 ^ Suc 9" by simp
  from length_varint_bound [OF this] show ?thesis by simp
qed

text \<open>One parser step per message: a known field with its wire type is stored, anything else is kept.\<close>

definition keep :: "wfield \<Rightarrow> bytes \<Rightarrow> bytes" where
  "keep x u = u @ put_field x"

fun header_step :: "wfield \<Rightarrow> MessageHeader \<Rightarrow> MessageHeader option" where
  "header_step (Fixed32 (Suc 0) v) m = Some (m\<lparr>message_length := v\<rparr>)"
| "header_step x m = Some (m\<lparr>mh_unknown := keep x (mh_unknown m)\<rparr>)"

fun content_step :: "wfield \<Rightarrow> Hello_Content \<Rightarrow> Hello_Content option" where
  "content_step x c =
     (case x of
        Delimited f s \<Rightarrow>
          if f = 1 then (if utf8 (map of_char s) then Some (set_service_name s c) else None)
          else Some (c\<lparr>hc_unknown := keep x (hc_unknown c)\<rparr>)
      | Varint f v \<Rightarrow>
          if f = 2 then Some (set_proxy_port (int32_of_varint v) c)
          else Some (c\<lparr>hc_unknown := keep x (hc_unknown c)\<rparr>)
      | Fixed32 f v \<Rightarrow> Some (c\<lparr>hc_unknown := keep x (hc_unknown c)\<rparr>))"

fun steps :: "('x \<Rightarrow> 'm \<Rightarrow> 'm option) \<Rightarrow> 'x list \<Rightarrow> 'm \<Rightarrow> 'm option" where
  "steps f [] m = Some m"
| "steps f (x # xs) m = (case f x m of None \<Rightarrow> None | Some m' \<Rightarrow> steps f xs m')"

definition parse_with :: "('m \<Rightarrow> wfield list \<Rightarrow> 'm option) \<Rightarrow> 'm \<Rightarrow> bytes \<Rightarrow> bool \<times> 'm" where
  "parse_with f m bs =
     (case fields_of bs of
        None \<Rightarrow> (False, m)
      | Some xs \<Rightarrow> (case f m xs of None \<Rightarrow> (False, m) | Some m' \<Rightarrow> (True, m')))"

fun hello_step :: "wfield \<Rightarrow> Hello \<Rightarrow> Hello option" where
  "hello_step x h =
     (case x of
        Varint f v \<Rightarrow>
          if f = 1 then Some (set_hello_type (int32_of_varint v) h)
          else Some (h\<lparr>h_unknown := keep x (h_unknown h)\<rparr>)
      | Delimited f s \<Rightarrow>
          if f = 2 then (if utf8 (map of_char s) then Some (set_digest s h) else None)
          else if f = 3 then
            (case fields_of s of
               None \<Rightarrow> None
             | Some xs \<Rightarrow>
                 map_option (\<lambda>c. mutable_hello_content (\<lambda>_. c) h)
                   (steps content_step xs (control_channel_hello_content h)))
          else Some (h\<lparr>h_unknown := keep x (h_unknown h)\<rparr>)
      | Fixed32 f v \<Rightarrow> Some (h\<lparr>h_unknown := keep x (h_unknown h)\<rparr>))"

definition enum_step :: "(u32 \<Rightarrow> 'm \<Rightarrow> 'm) \<Rightarrow> (bytes \<Rightarrow> 'm \<Rightarrow> 'm) \<Rightarrow> wfield \<Rightarrow> 'm \<Rightarrow> 'm option" where
  "enum_step set_value unknown x m =
     (case x of
        Varint f v \<Rightarrow> if f = 1 then Some (set_value (int32_of_varint v) m) else Some (unknown (put_field x) m)
      | _ \<Rightarrow> Some (unknown (put_field x) m))"

definition wire_ref :: wire_lib where
  "wire_ref =
     \<lparr>WriteFixed32ToArray = (\<lambda>f v. put_field (Fixed32 f v)),
      WriteEnumToArray = (\<lambda>f v. put_field (Varint f (varint_of_int32 v))),
      WriteInt32ToArray = (\<lambda>f v. put_field (Varint f (varint_of_int32 v))),
      WriteString = (\<lambda>f s. put_field (Delimited f s)),
      WriteMessage = (\<lambda>f n body. varint (f * 8 + 2) @ varint n @ body),
      EnumSize = (\<lambda>v. length (varint (varint_of_int32 v))),
      Int32SizePlusOne = (\<lambda>v. length (varint (varint_of_int32 v)) + 1),
      StringSize = (\<lambda>s. length (varint (length s)) + length s),
      MessageSize = (\<lambda>n. length (varint n) + n),
      valid_utf8 = (\<lambda>s. utf8 (map of_char s)),
      SerializeAsString = (\<lambda>n body. if n < 2 ^ 31 then body else []),
      parse_MessageHeader = parse_with (\<lambda>m xs. steps header_step xs m) MessageHeader_new,
      parse_Hello = parse_with (\<lambda>m xs. steps hello_step xs m) Hello_new,
      parse_Ack = parse_with (\<lambda>m xs. steps (enum_step set_ack_content
        (\<lambda>u a. a\<lparr>ack_unknown := ack_unknown a @ u\<rparr>)) xs m) Ack_new,
      parse_ControlChannelCmd = parse_with (\<lambda>m xs. steps (enum_step set_control_channel_cmd
        (\<lambda>u a. a\<lparr>cc_unknown := cc_unknown a @ u\<rparr>)) xs m) ControlChannelCmd_new,
      parse_DataChannelCmd = parse_with (\<lambda>m xs. steps (enum_step set_data_channel_cmd
        (\<lambda>u a. a\<lparr>dc_unknown := dc_unknown a @ u\<rparr>)) xs m) DataChannelCmd_new\<rparr>"

section \<open>The contract holds\<close>

lemma fields_of_one: "fields_of (put_field x) = Some [x]"
  using fields_of_put [of "[x]"] by simp

definition content_fields :: "Hello_Content \<Rightarrow> wfield list" where
  "content_fields c =
     (if hc_has_bits c AND 1 \<noteq> 0 then [Delimited 1 (service_name c)] else [])
     @ (if hc_has_bits c AND 2 \<noteq> 0 then [Varint 2 (varint_of_int32 (proxy_port c))] else [])"

lemma content_serialized:
  "hc_unknown c = [] \<Longrightarrow>
   Hello_Content_InternalSerialize wire_ref c = concat (map put_field (content_fields c))"
  by (simp add: Hello_Content_InternalSerialize_def content_fields_def wire_ref_def)

lemma content_parsed:
  assumes "Hello_Content_canonical wire_ref c"
  shows "steps content_step (content_fields c) Hello_Content_new = Some c"
proof -
  have "hc_has_bits c AND 7 = hc_has_bits c"
    using assms by (auto simp: Hello_Content_canonical_def intro: mask_widen [where m = 3])
  from mask_cases [OF this] assms show ?thesis
    by (elim insertE emptyE; cases c;
        simp add: Hello_Content_canonical_def content_fields_def Hello_Content_new_def
          set_service_name_def set_proxy_port_def wire_ref_def)
qed

definition hello_fields :: "Hello \<Rightarrow> wfield list" where
  "hello_fields h =
     (if h_has_bits h AND 4 \<noteq> 0 then [Varint 1 (varint_of_int32 (hello_type h))] else [])
     @ (if h_has_bits h AND 1 \<noteq> 0 then [Delimited 2 (digest h)] else [])
     @ (if h_has_bits h AND 2 \<noteq> 0 then
          [Delimited 3 (concat (map put_field (content_fields (control_channel_hello_content h))))] else [])"

lemma content_sized:
  "hc_unknown c = [] \<Longrightarrow>
   Hello_Content_ByteSizeLong wire_ref c = length (concat (map put_field (content_fields c)))"
proof -
  assume "hc_unknown c = []"
  moreover have "hc_has_bits c AND 1 = 0" and "hc_has_bits c AND 2 = 0" if "hc_has_bits c AND 3 = 0"
    using that by (simp_all add: mask_part)
  ultimately show ?thesis
    by (auto simp: Hello_Content_ByteSizeLong_def content_fields_def wire_ref_def)
qed

lemma hello_serialized:
  assumes "Hello_canonical wire_ref h"
  shows "Hello_InternalSerialize wire_ref h = concat (map put_field (hello_fields h))"
proof -
  have "h_unknown h = []" using assms by (simp add: Hello_canonical_def)
  moreover have "hc_unknown (control_channel_hello_content h) = []"
    using assms
    by (auto simp: Hello_canonical_def Hello_Content_canonical_def control_channel_hello_content_def
        Hello_Content_new_def split: option.splits)
  ultimately show ?thesis
    by (simp add: Hello_InternalSerialize_def hello_fields_def content_serialized content_sized)
       (simp add: wire_ref_def)
qed

lemma hello_parsed:
  assumes "Hello_canonical wire_ref h"
  shows "steps hello_step (hello_fields h) Hello_new = Some h"
proof (cases "hello_content h")
  case None
  from assms have "h_has_bits h AND 7 = h_has_bits h" by (simp add: Hello_canonical_def)
  from mask_cases [OF this] assms None show ?thesis
    by (elim insertE emptyE; cases h;
        simp add: Hello_canonical_def hello_fields_def Hello_new_def set_hello_type_def
          set_digest_def wire_ref_def)
next
  case (Some c)
  with assms have c: "Hello_Content_canonical wire_ref c" by (simp add: Hello_canonical_def)
  from assms have "h_has_bits h AND 7 = h_has_bits h" by (simp add: Hello_canonical_def)
  from mask_cases [OF this] assms Some content_parsed [OF c] show ?thesis
    by (elim insertE emptyE; cases h;
        simp add: Hello_canonical_def hello_fields_def Hello_new_def set_hello_type_def
          set_digest_def wire_ref_def fields_of_put control_channel_hello_content_def
          mutable_hello_content_def del: content_step.simps)
qed

lemma length_varint_31: "n < 2 ^ 31 \<Longrightarrow> length (varint n) \<le> 10"
  using length_varint_bound [of n 4] by simp

interpretation ref_wire: protobuf_runtime wire_ref
proof
  show "parse_Hello wire_ref (Hello_InternalSerialize wire_ref h) = (True, h)"
    if "Hello_canonical wire_ref h" for h
    unfolding hello_serialized [OF that]
    using hello_parsed [OF that]
    by (simp add: wire_ref_def parse_with_def fields_of_put del: hello_step.simps)
  show "parse_MessageHeader wire_ref (WriteFixed32ToArray wire_ref 1 v) =
      (True, \<lparr>message_length = v, mh_unknown = []\<rparr>)" for v
    by (simp add: wire_ref_def parse_with_def fields_of_one MessageHeader_new_def del: put_field.simps)
  show "parse_Ack wire_ref (WriteEnumToArray wire_ref 1 v) =
      (True, \<lparr>ack_has_bits = 1, ack_content = v, ack_unknown = []\<rparr>)" for v
    by (simp add: wire_ref_def parse_with_def fields_of_one Ack_new_def enum_step_def
        set_ack_content_def del: put_field.simps)
  show "parse_ControlChannelCmd wire_ref (WriteEnumToArray wire_ref 1 v) =
      (True, \<lparr>cc_has_bits = 1, control_channel_cmd = v, cc_unknown = []\<rparr>)" for v
    by (simp add: wire_ref_def parse_with_def fields_of_one ControlChannelCmd_new_def enum_step_def
        set_control_channel_cmd_def del: put_field.simps)
  show "parse_DataChannelCmd wire_ref (WriteEnumToArray wire_ref 1 v) =
      (True, \<lparr>dc_has_bits = 1, data_channel_cmd = v, dc_unknown = []\<rparr>)" for v
    by (simp add: wire_ref_def parse_with_def fields_of_one DataChannelCmd_new_def enum_step_def
        set_data_channel_cmd_def del: put_field.simps)
qed (simp_all add: wire_ref_def length_varint_int32 length_varint_31)

section \<open>Properties\<close>

text \<open>
  C33: The size the generated code computes for a \<^verbatim>\<open>Hello\<close> (\<^verbatim>\<open>ByteSizeLong\<close>, nested content included)
  is the number of bytes \<^verbatim>\<open>_InternalSerialize\<close> writes, for every message and every runtime that
  keeps its documented contract.
\<close>

theorem hello_byte_size:
  assumes "protobuf_runtime W"
  shows "length (Hello_InternalSerialize W h) = Hello_ByteSizeLong W h"
  by (rule protobuf_runtime.hello_size [OF assms])

theorem hello_byte_size_witness:
  "length (Hello_InternalSerialize wire_ref (set_digest ''id'' (set_hello_type DATA_CHANNEL_HELLO Hello_new)))
   = Hello_ByteSizeLong wire_ref (set_digest ''id'' (set_hello_type DATA_CHANNEL_HELLO Hello_new))"
  by (rule hello_byte_size [OF ref_wire.protobuf_runtime_axioms])

lemma set_low_bit_idem: "(x :: u32) AND 1 \<noteq> 0 \<Longrightarrow> 1 OR x = x"
  by (rule bit_word_eqI) (auto simp: bit_simps bit_0 and_one_eq odd_iff_mod_2_eq_one)

lemma content_copy_serializes:
  assumes "hc_has_bits c = 0" and "hc_unknown c = []"
  shows "Hello_Content_InternalSerialize W (Hello_Content_MergeImpl c from) = Hello_Content_InternalSerialize W from"
    and "Hello_Content_ByteSizeLong W (Hello_Content_MergeImpl c from) = Hello_Content_ByteSizeLong W from"
proof -
  have "hc_has_bits from AND 1 = 0" and "hc_has_bits from AND 2 = 0" if "hc_has_bits from AND 3 = 0"
    using that by (simp_all add: mask_part)
  then show "Hello_Content_InternalSerialize W (Hello_Content_MergeImpl c from) = Hello_Content_InternalSerialize W from"
    and "Hello_Content_ByteSizeLong W (Hello_Content_MergeImpl c from) = Hello_Content_ByteSizeLong W from"
    using assms
    by (simp_all add: Hello_Content_InternalSerialize_def Hello_Content_ByteSizeLong_def
        Hello_Content_MergeImpl_def set_service_name_def Let_def set_low_bit_idem)
qed

text \<open>
  C34: \<^verbatim>\<open>CopyFrom\<close> (clear, then merge) makes a \<^verbatim>\<open>Hello\<close> that serializes like its source, whatever the
  target held before, provided a content object kept behind a cleared presence bit is itself
  cleared, which is how \<^verbatim>\<open>Clear\<close> leaves it.
\<close>

theorem hello_copy_serializes:
  assumes "h_has_bits to AND 2 = 0 \<longrightarrow>
    (case hello_content to of None \<Rightarrow> True | Some c \<Rightarrow> hc_has_bits c = 0 \<and> hc_unknown c = [])"
  shows "Hello_InternalSerialize W (Hello_CopyFrom to from) = Hello_InternalSerialize W from"
proof -
  have parts: "h_has_bits from AND 1 = 0" "h_has_bits from AND 2 = 0" "h_has_bits from AND 4 = 0"
    if "h_has_bits from AND 7 = 0" using that by (simp_all add: mask_part)
  have "h_has_bits to AND 2 = 0" if "h_has_bits to AND 3 = 0" using that by (simp add: mask_part)
  then have clear: "hc_has_bits c = 0 \<and> hc_unknown c = []" if "hello_content (Hello_Clear to) = Some c" for c
    using that assms
    by (auto simp: Hello_Clear_def Hello_Content_Clear_def Let_def split: if_splits)
  have "h_has_bits (Hello_Clear to) = 0" "h_unknown (Hello_Clear to) = []"
    by (simp_all add: Hello_Clear_def Let_def)
  then show ?thesis
    using parts clear
    by (cases "hello_content (Hello_Clear to)")
       (auto simp: Hello_CopyFrom_def Hello_MergeImpl_def Hello_InternalSerialize_def set_digest_def
         control_channel_hello_content_def content_copy_serializes set_low_bit_idem Let_def)
qed

theorem hello_copy_serializes_witness:
  "Hello_InternalSerialize wire_ref
     (Hello_CopyFrom (set_hello_type 1 Hello_new) (set_digest ''id'' (set_hello_type 0 Hello_new)))
   = Hello_InternalSerialize wire_ref (set_digest ''id'' (set_hello_type 0 Hello_new))"
  by (rule hello_copy_serializes) (simp add: set_hello_type_def Hello_new_def)

end
