(* ===== verification/Framing.thy ===== *)
theory Framing
  imports NetBuffer WireFormat
begin

text \<open>
  Message framing (\<^verbatim>\<open>protocol/protoMsgUtil.h\<close>): every message travels behind a serialized
  \<^verbatim>\<open>MessageHeader\<close> that holds its length; a receiver asks its input buffer whether a whole message
  has arrived before it takes one. The two public statics only forward to the singleton's methods.
\<close>

section \<open>Operations\<close>

definition MSG_HEADER_LENGTH :: size_t where
  "MSG_HEADER_LENGTH = 5"

definition headerInstaller :: "wire_lib \<Rightarrow> bytes \<Rightarrow> bytes" where
  "headerInstaller W serialized_msg =
     (let message_len = of_nat (length serialized_msg) :: u32;
          header = set_message_length message_len MessageHeader_new;
          header_str = SerializeAsString W (MessageHeader_ByteSizeLong header)
                         (MessageHeader_InternalSerialize W header)
      in header_str @ serialized_msg)"

text \<open>The flag of \<^verbatim>\<open>ParseFromString\<close> is not looked at; the length is what the parser left in the header.\<close>

definition canReadMsg :: "wire_lib \<Rightarrow> buffer \<Rightarrow> (u32 \<times> buffer) res" where
  "canReadMsg W b =
     (if readAbleBytes b < MSG_HEADER_LENGTH then Inr (0, b)
      else bindR (PeekAsString MSG_HEADER_LENGTH b) (\<lambda>s.
        let msg_header = snd (parse_MessageHeader W s) in
        if readAbleBytes b < ucast (message_length msg_header) + MSG_HEADER_LENGTH then Inr (0, b)
        else bindR (Retrieve MSG_HEADER_LENGTH b) (\<lambda>b1. Inr (message_length msg_header, b1))))"

text \<open>
  The opening of every message handler: ask for a message length, return if it is zero, take that
  many bytes. \<open>None\<close> is the early return.
\<close>

definition take_message :: "wire_lib \<Rightarrow> buffer \<Rightarrow> (bytes option \<times> buffer) res" where
  "take_message W b =
     bindR (canReadMsg W b) (\<lambda>(msg_len, b1).
       if msg_len = 0 then Inr (None, b1)
       else bindR (RetrieveAsString (ucast msg_len) b1) (\<lambda>(m, b2). Inr (Some m, b2)))"

fun take_messages :: "wire_lib \<Rightarrow> nat \<Rightarrow> buffer \<Rightarrow> (bytes list \<times> buffer) res" where
  "take_messages W 0 b = Inr ([], b)"
| "take_messages W (Suc n) b =
     bindR (take_message W b) (\<lambda>(m, b1).
       case m of
         None \<Rightarrow> Inr ([], b1)
       | Some x \<Rightarrow> bindR (take_messages W n b1) (\<lambda>(xs, b2). Inr (x # xs, b2)))"

section \<open>Framed messages come back\<close>

lemma unat_header_length: "unat MSG_HEADER_LENGTH = 5"
  by (simp add: MSG_HEADER_LENGTH_def)

lemma unat_len32: "length m < 2 ^ 32 \<Longrightarrow> unat (of_nat (length m) :: u32) = length m"
  by (simp add: unat_of_nat take_bit_nat_eq_self_iff)

lemma len32_nonzero: "m \<noteq> [] \<Longrightarrow> length m < 2 ^ 32 \<Longrightarrow> (of_nat (length m) :: u32) \<noteq> 0"
  using unat_len32 [of m] by fastforce

lemma unat_ucast_u32: "unat (ucast (v :: u32) :: size_t) = unat v"
proof -
  have "unat v < 2 ^ 32" using unsigned_less [of v] by simp
  then have "unat v < 2 ^ 64" by simp
  then show ?thesis by (simp add: unsigned_ucast_eq take_bit_nat_eq_self)
qed

lemma unat_needed: "unat (ucast (v :: u32) + MSG_HEADER_LENGTH) = unat v + 5"
proof -
  have "unat v < 2 ^ 32" using unsigned_less [of v] by simp
  then show ?thesis
    by (subst unat_add_small) (simp_all add: unat_ucast_u32 unat_header_length)
qed

context protobuf_runtime
begin

definition hdr :: "bytes \<Rightarrow> bytes" where
  "hdr m = WriteFixed32ToArray W 1 (of_nat (length m))"

lemma length_hdr [simp]: "length (hdr m) = 5"
  by (simp add: hdr_def fixed32_length del: One_nat_def)

lemma frame_eq:
  assumes "m \<noteq> []" and "length m < 2 ^ 32"
  shows "headerInstaller W m = hdr m @ m"
  using len32_nonzero [OF assms]
  by (simp add: headerInstaller_def hdr_def set_message_length_def MessageHeader_new_def
      MessageHeader_InternalSerialize_def MessageHeader_ByteSizeLong_def serialize_body Let_def)

lemma frame_empty: "headerInstaller W [] = []"
  by (simp add: headerInstaller_def set_message_length_def MessageHeader_new_def
      MessageHeader_InternalSerialize_def MessageHeader_ByteSizeLong_def serialize_body Let_def)

lemma can_read_incomplete:
  assumes ok: "buf_ok b" and m: "m \<noteq> []" "length m < 2 ^ 32"
    and part: "headerInstaller W m = contents b @ q" "q \<noteq> []"
  shows "canReadMsg W b = Inr (0, b)"
proof (cases "length (contents b) < 5")
  case True
  then show ?thesis
    using ok by (simp add: canReadMsg_def word_less_nat_alt unat_readAbleBytes unat_header_length)
next
  case False
  have split: "hdr m @ m = contents b @ q" using part(1) frame_eq [OF m] by simp
  then have "take 5 (contents b) = hdr m"
    using False by (metis append_eq_append_conv_if length_hdr not_less take_append take_all_iff
        append_take_drop_id le_refl)
  moreover have "length (contents b) < 5 + length m"
    using arg_cong [OF split, of length] part(2) by simp
  ultimately show ?thesis
    using False ok unat_len32 [OF m(2)]
    by (simp add: canReadMsg_def word_less_nat_alt unat_readAbleBytes unat_header_length
        PeekAsString_ok hdr_def parse_header unat_needed del: One_nat_def)
qed

lemma can_read_complete:
  assumes ok: "buf_ok b" and m: "m \<noteq> []" "length m < 2 ^ 32"
    and whole: "contents b = headerInstaller W m @ rest"
  obtains b1 where "canReadMsg W b = Inr (of_nat (length m), b1)" and "buf_ok b1"
    and "contents b1 = m @ rest" and "unat (write_index b1) \<le> unat (write_index b)"
proof -
  have c: "contents b = hdr m @ m @ rest" using whole frame_eq [OF m] by simp
  obtain b1 where b1: "Retrieve MSG_HEADER_LENGTH b = Inr b1" "buf_ok b1"
      "contents b1 = drop 5 (contents b)" "unat (write_index b1) \<le> unat (write_index b)"
    using Retrieve_ok [OF ok, of MSG_HEADER_LENGTH] c by (auto simp: unat_header_length)
  have "canReadMsg W b = Inr (of_nat (length m), b1)"
    using b1(1) ok c unat_len32 [OF m(2)]
    by (simp add: canReadMsg_def word_less_nat_alt unat_readAbleBytes unat_header_length
        PeekAsString_ok unat_needed)
       (simp add: hdr_def parse_header unat_needed del: One_nat_def)
  then show ?thesis using that b1 c by simp
qed

lemma take_message_complete:
  assumes ok: "buf_ok b" and m: "m \<noteq> []" "length m < 2 ^ 32"
    and whole: "contents b = headerInstaller W m @ rest"
  obtains b2 where "take_message W b = Inr (Some m, b2)" and "buf_ok b2" and "contents b2 = rest"
    and "unat (write_index b2) \<le> unat (write_index b)"
proof -
  obtain b1 where b1: "canReadMsg W b = Inr (of_nat (length m), b1)" "buf_ok b1"
      "contents b1 = m @ rest" "unat (write_index b1) \<le> unat (write_index b)"
    using can_read_complete [OF assms] .
  have n: "unat (ucast (of_nat (length m) :: u32) :: size_t) = length m"
    using unat_len32 [OF m(2)] by (simp add: unat_ucast_u32)
  obtain b2 where "RetrieveAsString (ucast (of_nat (length m) :: u32)) b1 = Inr (m, b2)" "buf_ok b2"
      "contents b2 = rest" "unat (write_index b2) \<le> unat (write_index b1)"
    using RetrieveAsString_ok [OF b1(2), of "ucast (of_nat (length m) :: u32)"] n b1(3) by auto
  then show ?thesis
    using that b1 len32_nonzero [OF m] by (simp add: take_message_def)
qed

lemma take_message_incomplete:
  assumes "buf_ok b" and "m \<noteq> []" "length m < 2 ^ 32"
    and "headerInstaller W m = contents b @ q" "q \<noteq> []"
  shows "take_message W b = Inr (None, b)"
  by (simp add: take_message_def can_read_incomplete [OF assms])

lemma take_messages_all:
  assumes "buf_ok b" and "\<forall>m \<in> set ms. m \<noteq> [] \<and> length m < 2 ^ 32"
    and "contents b = concat (map (headerInstaller W) ms) @ rest"
  shows "\<exists>b'. take_messages W (length ms) b = Inr (ms, b') \<and> buf_ok b' \<and> contents b' = rest"
  using assms
proof (induction ms arbitrary: b)
  case (Cons m ms)
  obtain b1 where b1: "take_message W b = Inr (Some m, b1)" "buf_ok b1"
      "contents b1 = concat (map (headerInstaller W) ms) @ rest"
    using take_message_complete [of b m "concat (map (headerInstaller W) ms) @ rest"] Cons.prems
    by auto
  with Cons.IH [of b1] Cons.prems show ?case by auto
qed simp

end

section \<open>Properties\<close>

text \<open>
  C2: A stream of framed messages comes back as those messages: when a buffer holds the frames of
  \<open>ms\<close> (each non-empty, below 4 GB) followed by \<open>rest\<close>, taking messages one after the other gives
  exactly \<open>ms\<close> in order, without a fault, and leaves exactly \<open>rest\<close>.
\<close>

theorem framed_stream_received:
  assumes "protobuf_runtime W" and "buf_ok b" and "\<forall>m \<in> set ms. m \<noteq> [] \<and> length m < 2 ^ 32"
    and "contents b = concat (map (headerInstaller W) ms) @ rest"
  shows "\<exists>b'. take_messages W (length ms) b = Inr (ms, b') \<and> buf_ok b' \<and> contents b' = rest"
  by (rule protobuf_runtime.take_messages_all [OF assms])

definition sample_buffer :: "bytes \<Rightarrow> buffer" where
  "sample_buffer bs =
     \<lparr>vec = replicate 8 (CHR 0x00) @ bs, read_index = 8, write_index = of_nat (8 + length bs)\<rparr>"

lemma sample_buffer_ok:
  assumes "length bs < 1000"
  shows "buf_ok (sample_buffer bs)" and "contents (sample_buffer bs) = bs"
proof -
  have "unat (of_nat (8 + length bs) :: size_t) = 8 + length bs"
    using assms unat_of_nat_size [of "8 + length bs"] by simp
  then show "buf_ok (sample_buffer bs)" and "contents (sample_buffer bs) = bs"
    using assms by (simp_all add: sample_buffer_def buf_ok_def contents_def max_size_def)
qed

lemma ref_frame_length:
  "m \<noteq> [] \<Longrightarrow> length m < 100 \<Longrightarrow> length (headerInstaller wire_ref m) = 5 + length m"
  using ref_wire.frame_eq [of m] by simp

theorem framed_stream_received_witness:
  "\<exists>b'. take_messages wire_ref (length [''ab'', ''c''])
      (sample_buffer (headerInstaller wire_ref ''ab'' @ headerInstaller wire_ref ''c'' @ ''tail''))
      = Inr ([''ab'', ''c''], b') \<and> buf_ok b' \<and> contents b' = ''tail''"
proof -
  let ?bs = "headerInstaller wire_ref ''ab'' @ headerInstaller wire_ref ''c'' @ ''tail''"
  have "length ?bs < 1000" by (simp add: ref_frame_length)
  from sample_buffer_ok [OF this] show ?thesis
    using framed_stream_received [OF ref_wire.protobuf_runtime_axioms, of "sample_buffer ?bs" "[''ab'', ''c'']" "''tail''"]
    by (simp del: take_messages.simps)
qed

text \<open>
  C3: A message of which only a proper prefix of the frame has arrived (header included) is not
  taken: \<^verbatim>\<open>canReadMsg\<close> answers 0 and consumes nothing, so the rest can still complete it.
\<close>

theorem partial_frame_waits:
  assumes "protobuf_runtime W" and "buf_ok b" and "m \<noteq> []" and "length m < 2 ^ 32"
    and "headerInstaller W m = contents b @ q" and "q \<noteq> []"
  shows "canReadMsg W b = Inr (0, b)"
  by (rule protobuf_runtime.can_read_incomplete [OF assms])

theorem partial_frame_waits_witness:
  "canReadMsg wire_ref (sample_buffer (take 6 (headerInstaller wire_ref ''ab''))) =
     Inr (0, sample_buffer (take 6 (headerInstaller wire_ref ''ab'')))"
proof (rule partial_frame_waits [OF ref_wire.protobuf_runtime_axioms, of _ "''ab''" "drop 6 (headerInstaller wire_ref ''ab'')"])
  have "length (take 6 (headerInstaller wire_ref ''ab'')) < 1000" by simp
  from sample_buffer_ok [OF this]
  show "buf_ok (sample_buffer (take 6 (headerInstaller wire_ref ''ab'')))"
    and "headerInstaller wire_ref ''ab'' =
      contents (sample_buffer (take 6 (headerInstaller wire_ref ''ab''))) @ drop 6 (headerInstaller wire_ref ''ab'')"
    by simp_all
  show "drop 6 (headerInstaller wire_ref ''ab'') \<noteq> []"
    using ref_frame_length [of "''ab''"] by simp
qed simp_all

text \<open>
  A message that serializes to no bytes cannot be framed: its header is a \<^verbatim>\<open>fixed32\<close> field with
  the default value 0, which proto3 does not write, so \<^verbatim>\<open>headerInstaller\<close> produces nothing at all.
\<close>

theorem empty_message_has_no_frame:
  assumes "protobuf_runtime W"
  shows "headerInstaller W [] = []"
  by (rule protobuf_runtime.frame_empty [OF assms])

theorem empty_message_has_no_frame_witness: "headerInstaller wire_ref [] = []"
  by (rule empty_message_has_no_frame [OF ref_wire.protobuf_runtime_axioms])

end
