(* ===== verification/Kernel.thy ===== *)
theory Kernel
  imports Messages
begin

text \<open>
  The boundary to the operating system and the thin classes on top of it: \<^verbatim>\<open>InetAddress\<close>,
  \<^verbatim>\<open>errif\<close>, the socket helpers and \<^verbatim>\<open>TcpSocket\<close>. The kernel is a parameter: a function from
  the history of all earlier calls and their results, and the call being made, to its result. Every
  definition that makes a system call appends it to the history, so what a program has done is read
  off the history and what the environment may do is whatever the parameter says.
\<close>

section \<open>Addresses\<close>

record sockaddr_in =
  sin_family :: u16
  sin_port :: u16
  s_addr :: u32

text \<open>Ports are kept in network byte order; the targets of the build are little-endian.\<close>

definition htons :: "u16 \<Rightarrow> u16" where
  "htons x = push_bit 8 x OR drop_bit 8 x"

definition ntohs :: "u16 \<Rightarrow> u16" where
  "ntohs x = push_bit 8 x OR drop_bit 8 x"

definition AF_INET :: u16 where
  "AF_INET = 2"

definition zero_addr :: sockaddr_in where
  "zero_addr = \<lparr>sin_family = 0, sin_port = 0, s_addr = 0\<rparr>"

lemma ntohs_htons [simp]: "ntohs (htons x) = x"
  by (rule bit_word_eqI) (auto simp: ntohs_def htons_def bit_simps)

section \<open>System calls\<close>

datatype errno = EAGAIN | EINTR | EINPROGRESS | E_other int

text \<open>What a \<^verbatim>\<open>Channel*\<close> stored in an epoll event points to.\<close>

datatype channel_ptr = Chan_conn nat | Chan_acceptor nat | Chan_connector nat | Chan_wakeup

datatype ctl_op = EPOLL_CTL_ADD | EPOLL_CTL_MOD | EPOLL_CTL_DEL

datatype syscall =
    Sys_socket bool
  | Sys_fcntl_getfl int
  | Sys_fcntl_setfl int int
  | Sys_bind int sockaddr_in
  | Sys_listen int int
  | Sys_accept int
  | Sys_connect int sockaddr_in
  | Sys_select int
  | Sys_getsockopt int
  | Sys_getsockname int
  | Sys_getpeername int
  | Sys_read int nat
  | Sys_write int bytes
  | Sys_close int
  | Sys_epoll_create
  | Sys_epoll_ctl int ctl_op int u32 channel_ptr
  | Sys_epoll_wait int nat
  | Sys_eventfd
  | Sys_gettid
  | Sys_random
  | Sys_uuid

text \<open>
  The result of a call: the returned integer, \<^verbatim>\<open>errno\<close>, and the memory the call filled (bytes
  read, a socket address, \<^verbatim>\<open>SO_ERROR\<close>, ready events). \<open>Sys_random\<close> is the draw of a connection id and
  \<open>Sys_uuid\<close> the Boost generator: like the kernel they are outside the program.
\<close>

record sysret =
  ret :: int
  err :: errno
  data :: bytes
  addr_out :: sockaddr_in
  so_error :: int
  ready :: "(channel_ptr \<times> u32) list"

type_synonym history = "(syscall \<times> sysret) list"

text \<open>
  Everything outside the repository that the program calls: the kernel, the address functions of the
  C library, the protobuf runtime. \<open>loop_fuel\<close> bounds the unrolling of the read and write loops.
\<close>

record env =
  kern :: "history \<Rightarrow> syscall \<Rightarrow> sysret"
  inet_addr :: "bytes \<Rightarrow> u32"
  inet_ntoa :: "u32 \<Rightarrow> bytes"
  wire :: wire_lib
  loop_fuel :: nat

definition sys :: "env \<Rightarrow> syscall \<Rightarrow> history \<Rightarrow> sysret \<times> history" where
  "sys E c h = (let r = kern E h c in (r, (c, r) # h))"

text \<open>
  Bytes the kernel has accepted on a descriptor, in order, those accepted between two points, and how
  often the descriptor was closed.
\<close>

fun sent :: "history \<Rightarrow> int \<Rightarrow> bytes" where
  "sent [] fd = []"
| "sent ((c, r) # h) fd =
     sent h fd @ (case c of Sys_write fd' bs \<Rightarrow> if fd' = fd then take (nat (ret r)) bs else [] | _ \<Rightarrow> [])"

definition newly_sent :: "history \<Rightarrow> history \<Rightarrow> int \<Rightarrow> bytes" where
  "newly_sent h h' fd = drop (length (sent h fd)) (sent h' fd)"

fun closed :: "history \<Rightarrow> int \<Rightarrow> nat" where
  "closed [] fd = 0"
| "closed ((c, r) # h) fd = closed h fd + (if c = Sys_close fd then 1 else 0)"

text \<open>
  The interest list the epoll calls of a history amount to (the documented effect of
  \<^verbatim>\<open>epoll_ctl\<close> and of closing a descriptor): the events a descriptor is registered for.
\<close>

fun interest :: "history \<Rightarrow> int \<Rightarrow> (u32 \<times> channel_ptr) option" where
  "interest [] fd = None"
| "interest ((c, r) # h) fd =
     (case c of
        Sys_epoll_ctl _ oper fd' ev p \<Rightarrow>
          if fd' = fd then
            (case oper of
               EPOLL_CTL_ADD \<Rightarrow> (if interest h fd = None then Some (ev, p) else interest h fd)
             | EPOLL_CTL_MOD \<Rightarrow> (if interest h fd = None then None else Some (ev, p))
             | EPOLL_CTL_DEL \<Rightarrow> None)
          else interest h fd
      | Sys_close fd' \<Rightarrow> if fd' = fd then None else interest h fd
      | _ \<Rightarrow> interest h fd)"

section \<open>InetAddress and errif\<close>

definition InetAddress :: "env \<Rightarrow> bytes \<Rightarrow> u16 \<Rightarrow> sockaddr_in" where
  "InetAddress E ip port =
     zero_addr\<lparr>sin_family := AF_INET, s_addr := inet_addr E ip, sin_port := htons port\<rparr>"

definition get_ip :: "env \<Rightarrow> sockaddr_in \<Rightarrow> bytes" where
  "get_ip E a = inet_ntoa E (s_addr a)"

definition get_port :: "sockaddr_in \<Rightarrow> u16" where
  "get_port a = ntohs (sin_port a)"

definition errif :: "bool \<Rightarrow> string \<Rightarrow> unit res" where
  "errif condition msg = (if condition then Inl (Exit_Failure msg) else Inr ())"

lemma get_port_InetAddress: "get_port (InetAddress E ip port) = port"
  by (simp add: get_port_def InetAddress_def)

section \<open>Socket helpers\<close>

definition Close :: "env \<Rightarrow> int \<Rightarrow> history \<Rightarrow> history" where
  "Close E sockfd h = snd (sys E (Sys_close sockfd) h)"

definition getLocalAddr :: "env \<Rightarrow> int \<Rightarrow> history \<Rightarrow> sockaddr_in \<times> history" where
  "getLocalAddr E sockfd h =
     (let (r, h1) = sys E (Sys_getsockname sockfd) h
      in (if ret r < 0 then zero_addr else addr_out r, h1))"

definition getPeerAddr :: "env \<Rightarrow> int \<Rightarrow> history \<Rightarrow> sockaddr_in \<times> history" where
  "getPeerAddr E sockfd h =
     (let (r, h1) = sys E (Sys_getpeername sockfd) h
      in (if ret r < 0 then zero_addr else addr_out r, h1))"

definition createNonblockingOrDie :: "env \<Rightarrow> history \<Rightarrow> int \<times> history" where
  "createNonblockingOrDie E h = (let (r, h1) = sys E (Sys_socket True) h in (ret r, h1))"

section \<open>TcpSocket\<close>

text \<open>\<^verbatim>\<open>is_nonblock_\<close> is not initialised by the constructor that takes a descriptor: \<open>None\<close>.\<close>

record TcpSocket =
  fd :: int
  is_nonblock :: "bool option"

definition O_NONBLOCK :: int where
  "O_NONBLOCK = 2048"

definition TcpSocket_new :: "env \<Rightarrow> bool \<Rightarrow> history \<Rightarrow> (TcpSocket \<times> history) res" where
  "TcpSocket_new E nonblock h =
     (let (r, h1) = sys E (Sys_socket False) h; s = \<lparr>fd = ret r, is_nonblock = Some nonblock\<rparr> in
      if nonblock then
        (let (r1, h2) = sys E (Sys_fcntl_getfl (fd s)) h1 in
         bindR (errif (ret r1 = -1) ''fcntl error'') (\<lambda>_.
         let (r2, h3) = sys E (Sys_fcntl_setfl (fd s) (ret r1 OR O_NONBLOCK)) h2 in
         bindR (errif (ret r2 = -1) ''fcntl error'') (\<lambda>_. Inr (s, h3))))
      else Inr (s, h1))"

definition TcpSocket_of_fd :: "int \<Rightarrow> TcpSocket" where
  "TcpSocket_of_fd f = \<lparr>fd = f, is_nonblock = None\<rparr>"

definition TcpSocket_destroy :: "env \<Rightarrow> TcpSocket \<Rightarrow> history \<Rightarrow> history" where
  "TcpSocket_destroy E s h = snd (sys E (Sys_close (fd s)) h)"

definition TcpSocket_bind :: "env \<Rightarrow> TcpSocket \<Rightarrow> sockaddr_in \<Rightarrow> history \<Rightarrow> history res" where
  "TcpSocket_bind E s local h =
     (let (r, h1) = sys E (Sys_bind (fd s) local) h
      in bindR (errif (ret r \<noteq> 0) ''tcp bind error'') (\<lambda>_. Inr h1))"

definition TcpSocket_listen :: "env \<Rightarrow> TcpSocket \<Rightarrow> int \<Rightarrow> history \<Rightarrow> history res" where
  "TcpSocket_listen E s backlog h =
     (let (r, h1) = sys E (Sys_listen (fd s) backlog) h
      in bindR (errif (ret r \<noteq> 0) ''tcp listen error'') (\<lambda>_. Inr h1))"

definition TcpSocket_accept :: "env \<Rightarrow> TcpSocket \<Rightarrow> history \<Rightarrow> int \<times> sockaddr_in \<times> history" where
  "TcpSocket_accept E s h =
     (let (r, h1) = sys E (Sys_accept (fd s)) h in (ret r, addr_out r, h1))"

text \<open>\<^verbatim>\<open>return -1\<close> in a function of type \<^verbatim>\<open>bool\<close> returns \<^verbatim>\<open>true\<close>.\<close>

definition bool_of_int :: "int \<Rightarrow> bool" where
  "bool_of_int n = (n \<noteq> 0)"

definition connect_on_nonblocking :: "env \<Rightarrow> TcpSocket \<Rightarrow> sockaddr_in \<Rightarrow> history \<Rightarrow> bool \<times> history" where
  "connect_on_nonblocking E s remote h =
     (let (r, h1) = sys E (Sys_connect (fd s) remote) h in
      if ret r < 0 \<and> err r = EINPROGRESS then
        (let (r2, h2) = sys E (Sys_select (fd s)) h1 in
         if 0 < ret r2 then
           (let (r3, h3) = sys E (Sys_getsockopt (fd s)) h2 in
            if ret r3 < 0 \<or> so_error r3 \<noteq> 0 then (bool_of_int (-1), h3) else (True, h3))
         else if ret r2 = 0 then (bool_of_int (-1), h2)
         else (bool_of_int (-1), h2))
      else (True, h1))"

definition TcpSocket_connect :: "env \<Rightarrow> TcpSocket \<Rightarrow> sockaddr_in \<Rightarrow> history \<Rightarrow> history res" where
  "TcpSocket_connect E s remote h =
     (case is_nonblock s of
        None \<Rightarrow> Inl Undefined_Behaviour
      | Some nb \<Rightarrow>
          bindR (if nb then
                   (let (connected, h1) = connect_on_nonblocking E s remote h
                    in bindR (errif (connected = False) ''tcp connect error!'') (\<lambda>_. Inr h1))
                 else Inr h) (\<lambda>h1.
          let (r, h2) = sys E (Sys_connect (fd s) remote) h1
          in bindR (errif (ret r \<noteq> 0) ''tcp connect error'') (\<lambda>_. Inr h2)))"

text \<open>\<^verbatim>\<open>sizeof(buf)\<close> is the size of a pointer: each call moves at most eight bytes, to the same place.\<close>

definition sizeof_ptr :: nat where
  "sizeof_ptr = 8"

text \<open>The flag says whether the loop goes on; the last component is the updated total.\<close>

definition read_step :: "env \<Rightarrow> TcpSocket \<Rightarrow> size_t \<Rightarrow> history \<Rightarrow> bool \<times> size_t \<times> history" where
  "read_step E s tot h =
     (let (r, h1) = sys E (Sys_read (fd s) sizeof_ptr) h in
      if 0 < ret r then (True, tot + of_int (ret r), h1)
      else if ret r < 0 then
        (if err r = EAGAIN then (False, tot, h1)
         else if err r = EINTR then (True, tot, h1)
         else (False, tot, h1))
      else (False, tot, h1))"

fun read_loop :: "env \<Rightarrow> TcpSocket \<Rightarrow> nat \<Rightarrow> size_t \<Rightarrow> history \<Rightarrow> (size_t \<times> history) res" where
  "read_loop E s 0 tot h = Inl Fuel_Exhausted"
| "read_loop E s (Suc n) tot h =
     (case read_step E s tot h of
        (True, t, h1) \<Rightarrow> read_loop E s n t h1
      | (False, t, h1) \<Rightarrow> Inr (t, h1))"

definition TcpSocket_read :: "env \<Rightarrow> TcpSocket \<Rightarrow> history \<Rightarrow> (size_t \<times> history) res" where
  "TcpSocket_read E s h =
     (case is_nonblock s of
        None \<Rightarrow> Inl Undefined_Behaviour
      | Some True \<Rightarrow> read_loop E s (loop_fuel E) 0 h
      | Some False \<Rightarrow>
          (let (r, h1) = sys E (Sys_read (fd s) sizeof_ptr) h
           in Inr (if 0 < ret r then of_int (ret r) else 0, h1)))"

text \<open>The result of \<^verbatim>\<open>::write\<close> is stored in an unsigned variable before it is compared with zero.\<close>

definition TcpSocket_write :: "env \<Rightarrow> TcpSocket \<Rightarrow> bytes \<Rightarrow> history \<Rightarrow> (size_t \<times> history) res" where
  "TcpSocket_write E s buf h =
     (if length buf < sizeof_ptr then Inl Undefined_Behaviour
      else case is_nonblock s of
        None \<Rightarrow> Inl Undefined_Behaviour
      | Some nb \<Rightarrow>
          (let (r, h1) = sys E (Sys_write (fd s) (take sizeof_ptr buf)) h;
               write_bytes = of_int (ret r) :: size_t
           in if nb then Inr (if 0 < write_bytes then write_bytes else 0, h1)
              else Inr (write_bytes, h1)))"

section \<open>Facts\<close>

lemma sys_result [simp]: "fst (sys E c h) = kern E h c" "snd (sys E c h) = (c, kern E h c) # h"
  by (simp_all add: sys_def Let_def)

lemma connect_on_nonblocking_true: "fst (connect_on_nonblocking E s remote h) = True"
  by (simp add: connect_on_nonblocking_def bool_of_int_def Let_def sys_def)

end
