(* ===== verification/Reactor.thy ===== *)
theory Reactor
  imports Kernel
begin

text \<open>
  The event core: \<^verbatim>\<open>Channel\<close> (what a descriptor is watched for and which callback an event
  reaches), \<^verbatim>\<open>Epoll\<close> and \<^verbatim>\<open>EventLoop\<close> with its task list, wake-up descriptor and owner thread.

  The state of one process is a record that later theories extend (\<open>record conn_world = reactor + \<dots>\<close>):
  every operation here is stated for all extensions. A \<^verbatim>\<open>std::function\<close> is a value of a data
  type naming the closure; the code it runs is passed to the operations that call it.
\<close>

section \<open>State\<close>

text \<open>The four closures a channel is given in the sources, and the closures bound as loop tasks.\<close>

datatype chan_cb = Cb_handle_data_in | Cb_handle_data_out | Cb_acceptNewConnection | Cb_wakeup_callback

record channel =
  ch_fd :: int
  tie :: "nat option"
  listen_events :: u16
  ready_events :: u16
  is_epolled :: bool
  read_callback :: "chan_cb option"
  write_callback :: "chan_cb option"

datatype task =
    Task_handle_close nat
  | Task_ConnectionConstructor nat
  | Task_disconnectHandleInLoop nat nat
  | Task_startInLoop nat
  | Task_stopInLoop nat
  | Task_resetChannel nat
  | Task_set_close_handle nat

text \<open>
  \<open>cached_tid\<close> is the thread-local \<^verbatim>\<open>t_cachedTid\<close> of the thread that executes; \<open>loop_tid\<close> is the
  loop's \<^verbatim>\<open>tid_\<close>, an arbitrary value until \<^verbatim>\<open>run\<close> sets it.
\<close>

record reactor =
  hist :: history
  cached_tid :: int
  epoll_fd :: int
  loop_tid :: int
  to_do_list :: "task list"
  stop_flag :: bool
  wakeup_fd :: int
  wakeup_channel :: channel

definition sysw :: "env \<Rightarrow> syscall \<Rightarrow> 'z reactor_scheme \<Rightarrow> sysret \<times> 'z reactor_scheme" where
  "sysw E c w = (let (r, h) = sys E c (hist w) in (r, w\<lparr>hist := h\<rparr>))"

section \<open>Thread identity\<close>

definition cacheTid :: "env \<Rightarrow> 'z reactor_scheme \<Rightarrow> 'z reactor_scheme" where
  "cacheTid E w =
     (if cached_tid w = 0 then (let (r, w1) = sysw E Sys_gettid w in w1\<lparr>cached_tid := ret r\<rparr>) else w)"

definition current_tid :: "env \<Rightarrow> 'z reactor_scheme \<Rightarrow> int \<times> 'z reactor_scheme" where
  "current_tid E w = (let w1 = (if cached_tid w = 0 then cacheTid E w else w) in (cached_tid w1, w1))"

section \<open>Epoll\<close>

definition MAX_EVENTS :: nat where
  "MAX_EVENTS = 1000"

definition Epoll_new :: "env \<Rightarrow> 'z reactor_scheme \<Rightarrow> 'z reactor_scheme res" where
  "Epoll_new E w =
     (let (r, w1) = sysw E Sys_epoll_create w in
      bindR (errif (ret r < 0) ''epoll create error!'') (\<lambda>_. Inr (w1\<lparr>epoll_fd := ret r\<rparr>)))"

text \<open>The destructor closes the descriptor and then applies \<^verbatim>\<open>delete[]\<close> to a member array.\<close>

definition Epoll_destroy :: "env \<Rightarrow> 'z reactor_scheme \<Rightarrow> 'z reactor_scheme res" where
  "Epoll_destroy E w = (let w1 = snd (sysw E (Sys_close (epoll_fd w)) w) in Inl Undefined_Behaviour)"

text \<open>The \<^verbatim>\<open>short\<close> of the channel is sign-extended into the 32-bit event mask.\<close>

definition Epoll_update_channel ::
  "env \<Rightarrow> channel_ptr \<Rightarrow> channel \<Rightarrow> 'z reactor_scheme \<Rightarrow> channel \<times> 'z reactor_scheme" where
  "Epoll_update_channel E p ch w =
     (let ev = scast (listen_events ch) :: u32 in
      if \<not> is_epolled ch then
        (let (_, w1) = sysw E (Sys_epoll_ctl (epoll_fd w) EPOLL_CTL_ADD (ch_fd ch) ev p) w
         in (ch\<lparr>is_epolled := True\<rparr>, w1))
      else
        (let (_, w1) = sysw E (Sys_epoll_ctl (epoll_fd w) EPOLL_CTL_MOD (ch_fd ch) ev p) w
         in (ch, w1)))"

definition Epoll_delete_channel ::
  "env \<Rightarrow> channel_ptr \<Rightarrow> channel \<Rightarrow> 'z reactor_scheme \<Rightarrow> 'z reactor_scheme" where
  "Epoll_delete_channel E p ch w =
     snd (sysw E (Sys_epoll_ctl (epoll_fd w) EPOLL_CTL_DEL (ch_fd ch) 0 p) w)"

text \<open>\<^verbatim>\<open>poll\<close> stores the ready events in each channel through its pointer: \<open>set_revs\<close>.\<close>

definition Epoll_poll ::
  "env \<Rightarrow> (channel_ptr \<Rightarrow> u32 \<Rightarrow> 'z reactor_scheme \<Rightarrow> 'z reactor_scheme res)
   \<Rightarrow> 'z reactor_scheme \<Rightarrow> (channel_ptr list \<times> 'z reactor_scheme) res" where
  "Epoll_poll E set_revs w =
     (let (r, w1) = sysw E (Sys_epoll_wait (epoll_fd w) MAX_EVENTS) w;
          evs = take (nat (ret r)) (ready r)
      in bindR (foldR (\<lambda>(p, ev). set_revs p ev) evs w1) (\<lambda>w2. Inr (map fst evs, w2)))"

section \<open>Channel\<close>

definition EPOLLIN :: u32 where "EPOLLIN = 1"
definition EPOLLPRI :: u32 where "EPOLLPRI = 2"
definition EPOLLOUT :: u32 where "EPOLLOUT = 4"
definition EPOLLET :: u32 where "EPOLLET = 0x80000000"

lemmas epoll_bits = EPOLLIN_def EPOLLPRI_def EPOLLOUT_def EPOLLET_def

definition Channel_new :: "int \<Rightarrow> channel" where
  "Channel_new f =
     \<lparr>ch_fd = f, tie = None, listen_events = 0, ready_events = 0, is_epolled = False,
      read_callback = None, write_callback = None\<rparr>"

text \<open>A compound assignment computes at 32 bits and stores the low 16 bits.\<close>

definition enableRead ::
  "env \<Rightarrow> channel_ptr \<Rightarrow> channel \<Rightarrow> 'z reactor_scheme \<Rightarrow> channel \<times> 'z reactor_scheme" where
  "enableRead E p ch w =
     Epoll_update_channel E p
       (ch\<lparr>listen_events := ucast ((scast (listen_events ch) :: u32) OR (EPOLLIN OR EPOLLPRI))\<rparr>) w"

definition enableWrite ::
  "env \<Rightarrow> channel_ptr \<Rightarrow> channel \<Rightarrow> 'z reactor_scheme \<Rightarrow> channel \<times> 'z reactor_scheme" where
  "enableWrite E p ch w =
     Epoll_update_channel E p
       (ch\<lparr>listen_events := ucast ((scast (listen_events ch) :: u32) OR EPOLLOUT)\<rparr>) w"

definition disableWrite ::
  "env \<Rightarrow> channel_ptr \<Rightarrow> channel \<Rightarrow> 'z reactor_scheme \<Rightarrow> channel \<times> 'z reactor_scheme" where
  "disableWrite E p ch w =
     Epoll_update_channel E p
       (ch\<lparr>listen_events := ucast ((scast (listen_events ch) :: u32) AND NOT EPOLLOUT)\<rparr>) w"

definition disableAll ::
  "env \<Rightarrow> channel_ptr \<Rightarrow> channel \<Rightarrow> 'z reactor_scheme \<Rightarrow> channel \<times> 'z reactor_scheme" where
  "disableAll E p ch w = Epoll_update_channel E p (ch\<lparr>listen_events := 0\<rparr>) w"

definition set_et ::
  "env \<Rightarrow> channel_ptr \<Rightarrow> channel \<Rightarrow> 'z reactor_scheme \<Rightarrow> channel \<times> 'z reactor_scheme" where
  "set_et E p ch w =
     Epoll_update_channel E p
       (ch\<lparr>listen_events := ucast ((scast (listen_events ch) :: u32) OR EPOLLET)\<rparr>) w"

definition setEpolled :: "bool \<Rightarrow> channel \<Rightarrow> channel" where
  "setEpolled b ch = ch\<lparr>is_epolled := b\<rparr>"

definition setRevs :: "u32 \<Rightarrow> channel \<Rightarrow> channel" where
  "setRevs revs ch = ch\<lparr>ready_events := ucast revs\<rparr>"

definition set_read_callback ::
  "env \<Rightarrow> channel_ptr \<Rightarrow> chan_cb \<Rightarrow> channel \<Rightarrow> 'z reactor_scheme \<Rightarrow> channel \<times> 'z reactor_scheme" where
  "set_read_callback E p cb ch w = enableRead E p (ch\<lparr>read_callback := Some cb\<rparr>) w"

definition set_write_callback :: "chan_cb \<Rightarrow> channel \<Rightarrow> channel" where
  "set_write_callback cb ch = ch\<lparr>write_callback := Some cb\<rparr>"

definition set_tie :: "nat \<Rightarrow> channel \<Rightarrow> channel" where
  "set_tie c ch = ch\<lparr>tie := Some c\<rparr>"

text \<open>
  \<^verbatim>\<open>handle_event_guard\<close> reads its channel again after the read callback, which may have destroyed it:
  \<open>get\<close> follows the pointer (a dangling one is undefined behaviour), \<open>run\<close> runs a callback.
\<close>

definition handle_event_guard ::
  "('w \<Rightarrow> channel res) \<Rightarrow> (chan_cb \<Rightarrow> 'w \<Rightarrow> 'w res) \<Rightarrow> 'w \<Rightarrow> 'w res" where
  "handle_event_guard get run w =
     bindR (get w) (\<lambda>ch.
     bindR (if (scast (ready_events ch) :: u32) AND EPOLLIN \<noteq> 0
            then (case read_callback ch of Some cb \<Rightarrow> run cb w | None \<Rightarrow> Inr w) else Inr w) (\<lambda>w1.
     bindR (get w1) (\<lambda>ch1.
       if (scast (ready_events ch1) :: u32) AND EPOLLOUT \<noteq> 0
       then (case write_callback ch1 of Some cb \<Rightarrow> run cb w1 | None \<Rightarrow> Inr w1) else Inr w1)))"

section \<open>EventLoop\<close>

definition wakeup_loop :: "env \<Rightarrow> 'z reactor_scheme \<Rightarrow> 'z reactor_scheme" where
  "wakeup_loop E w =
     snd (sysw E (Sys_write (wakeup_fd w) (CHR 0x01 # replicate 7 (CHR 0x00))) w)"

definition wakeup_callback :: "env \<Rightarrow> 'z reactor_scheme \<Rightarrow> 'z reactor_scheme" where
  "wakeup_callback E w = snd (sysw E (Sys_read (wakeup_fd w) 8) w)"

text \<open>The constructor, on a process state whose loop fields do not matter yet.\<close>

definition EventLoop_new :: "env \<Rightarrow> 'z reactor_scheme \<Rightarrow> 'z reactor_scheme res" where
  "EventLoop_new E w =
     bindR (Epoll_new E w) (\<lambda>w2.
      let (r2, w3) = sysw E Sys_eventfd w2;
          w4 = w3\<lparr>stop_flag := False, to_do_list := [], wakeup_fd := ret r2\<rparr>;
          (ch1, w5) = set_read_callback E Chan_wakeup Cb_wakeup_callback (Channel_new (ret r2)) w4;
          (ch2, w6) = enableRead E Chan_wakeup ch1 w5
      in Inr (w6\<lparr>wakeup_channel := setEpolled True ch2\<rparr>))"

text \<open>After the body the members go, the poller among them.\<close>

definition EventLoop_destroy :: "env \<Rightarrow> 'z reactor_scheme \<Rightarrow> 'z reactor_scheme res" where
  "EventLoop_destroy E w =
     (let w1 = Epoll_delete_channel E Chan_wakeup (wakeup_channel w) w;
          w2 = snd (sysw E (Sys_close (wakeup_fd w1)) w1)
      in Epoll_destroy E w2)"

definition EventLoop_stop :: "'z reactor_scheme \<Rightarrow> 'z reactor_scheme" where
  "EventLoop_stop w = w\<lparr>stop_flag := True\<rparr>"

definition add_to_do :: "task \<Rightarrow> 'z reactor_scheme \<Rightarrow> 'z reactor_scheme" where
  "add_to_do t w = w\<lparr>to_do_list := to_do_list w @ [t]\<rparr>"

definition isInEpollLoop :: "env \<Rightarrow> 'z reactor_scheme \<Rightarrow> bool \<times> 'z reactor_scheme" where
  "isInEpollLoop E w = (let (t, w1) = current_tid E w in (loop_tid w1 = t, w1))"

text \<open>\<open>body\<close> is what the task \<open>t\<close> does when it runs.\<close>

definition run_on_onwer_thread ::
  "env \<Rightarrow> task \<Rightarrow> ('z reactor_scheme \<Rightarrow> 'z reactor_scheme res)
   \<Rightarrow> 'z reactor_scheme \<Rightarrow> 'z reactor_scheme res" where
  "run_on_onwer_thread E t body w =
     (let (here, w1) = isInEpollLoop E w in
      if here then body w1 else Inr (wakeup_loop E (add_to_do t w1)))"

text \<open>The swap leaves the list empty for whatever the tasks themselves add.\<close>

definition do_after_handle_events ::
  "(task \<Rightarrow> 'z reactor_scheme \<Rightarrow> 'z reactor_scheme res)
   \<Rightarrow> 'z reactor_scheme \<Rightarrow> 'z reactor_scheme res" where
  "do_after_handle_events run_task w = foldR run_task (to_do_list w) (w\<lparr>to_do_list := []\<rparr>)"

text \<open>
  One turn of \<^verbatim>\<open>run\<close>'s loop after the stop test: poll, handle every reported channel, then the
  tasks. An empty poll skips the tasks. \<open>handle\<close> is \<^verbatim>\<open>Channel::handle_event\<close> through a pointer.
\<close>

definition loop_turn ::
  "env \<Rightarrow> (channel_ptr \<Rightarrow> u32 \<Rightarrow> 'z reactor_scheme \<Rightarrow> 'z reactor_scheme res)
   \<Rightarrow> (channel_ptr \<Rightarrow> 'z reactor_scheme \<Rightarrow> 'z reactor_scheme res)
   \<Rightarrow> (task \<Rightarrow> 'z reactor_scheme \<Rightarrow> 'z reactor_scheme res)
   \<Rightarrow> 'z reactor_scheme \<Rightarrow> 'z reactor_scheme res" where
  "loop_turn E set_revs handle run_task w =
     bindR (Epoll_poll E set_revs w) (\<lambda>(active, w1).
       if active = [] then Inr w1
       else bindR (foldR handle active w1) (do_after_handle_events run_task))"

text \<open>\<^verbatim>\<open>run\<close> itself need not return: \<open>None\<close> is a run still going after \<open>n\<close> turns.\<close>

fun run_turns ::
  "('z reactor_scheme \<Rightarrow> 'z reactor_scheme res) \<Rightarrow> nat \<Rightarrow> 'z reactor_scheme
   \<Rightarrow> 'z reactor_scheme option res" where
  "run_turns turn 0 w = Inr (if stop_flag w then Some w else None)"
| "run_turns turn (Suc n) w =
     (if stop_flag w then Inr (Some w) else bindR (turn w) (run_turns turn n))"

definition EventLoop_run ::
  "env \<Rightarrow> ('z reactor_scheme \<Rightarrow> 'z reactor_scheme res) \<Rightarrow> nat \<Rightarrow> 'z reactor_scheme
   \<Rightarrow> 'z reactor_scheme option res" where
  "EventLoop_run E turn n w =
     (let (t, w1) = current_tid E w in run_turns turn n (w1\<lparr>loop_tid := t\<rparr>))"

section \<open>Facts\<close>

lemma sysw_simp: "sysw E c w = (kern E (hist w) c, w\<lparr>hist := (c, kern E (hist w) c) # hist w\<rparr>)"
  by (simp add: sysw_def sys_def Let_def)

text \<open>The calling thread is the one that runs the loop.\<close>

definition in_loop :: "'z reactor_scheme \<Rightarrow> bool" where
  "in_loop w \<longleftrightarrow> cached_tid w \<noteq> 0 \<and> loop_tid w = cached_tid w"

lemma isInEpollLoop_in_loop [simp]: "in_loop w \<Longrightarrow> isInEpollLoop E w = (True, w)"
  by (simp add: isInEpollLoop_def current_tid_def in_loop_def)

lemma run_on_onwer_thread_in_loop [simp]:
  "in_loop w \<Longrightarrow> run_on_onwer_thread E t body w = body w"
  by (simp add: run_on_onwer_thread_def)

lemma in_loop_upd [simp]:
  "in_loop (w\<lparr>hist := h\<rparr>) = in_loop w" "in_loop (w\<lparr>to_do_list := ts\<rparr>) = in_loop w"
  by (simp_all add: in_loop_def)

text \<open>The stored mask loses every bit above the fifteenth: edge triggering is never requested.\<close>

lemma short_or: "ucast ((scast (x :: u16) :: u32) OR ucast (y :: u16)) = x OR y"
  by (rule bit_word_eqI) (auto simp: bit_simps)

lemma EPOLLET_bit: "EPOLLET = push_bit 31 1"
  by (simp add: EPOLLET_def)

lemma EPOLLET_low: "n < 16 \<Longrightarrow> \<not> bit EPOLLET n"
  by (simp only: EPOLLET_bit bit_push_bit_iff) simp

lemma set_et_mask: "ucast ((scast (x :: u16) :: u32) OR EPOLLET) = x"
  by (rule bit_word_eqI) (auto simp: bit_simps EPOLLET_low)

end
