(* ===== verification/Conn.thy ===== *)
theory Conn
  imports Framing Reactor
begin

text \<open>
  \<^verbatim>\<open>Connection\<close> (\<^verbatim>\<open>network/connection.h\<close>, \<^verbatim>\<open>network/connection.cpp\<close>): one accepted or opened TCP
  connection with its channel, its two buffers, its four callbacks and its life cycle. Connection
  objects live in a heap indexed by their address; a \<^verbatim>\<open>std::shared_ptr\<close> to one is its address, and
  \<open>use_count\<close> counts the shared pointers. Dropping the last one runs the destructor, after which the
  address is dangling and following it is undefined behaviour.
\<close>

section \<open>State\<close>

datatype ConnectionState = CONNECTING | CONNECTED | DISCONNECTING | DISCONNECTED

text \<open>The close callbacks the sources install: of a server, of a client, and after a client is gone.\<close>

datatype close_cb = Cb_disconnectHandle nat | Cb_removeConnection nat | Cb_remove_connection

record 'cb connection =
  conn_id :: int
  client_fd :: int
  c_state :: ConnectionState
  local_addr :: sockaddr_in
  peer_addr :: sockaddr_in
  c_channel :: channel
  input_buffer :: buffer
  output_buffer :: buffer
  on_conn :: "'cb option"
  on_message :: "'cb option"
  on_close :: "close_cb option"
  notice_on_close :: "'cb option"
  use_count :: nat

record 'cb conn_world = reactor +
  conns :: "nat \<Rightarrow> 'cb connection option"
  next_ref :: nat

text \<open>
  The code behind the callbacks: \<open>run_cb\<close> runs a closure of the application on the connection it is
  called with, \<open>run_close\<close> a close callback.
\<close>

record ('cb, 'w) hooks =
  run_cb :: "'cb \<Rightarrow> nat option \<Rightarrow> 'w \<Rightarrow> 'w res"
  run_close :: "close_cb \<Rightarrow> nat \<Rightarrow> 'w \<Rightarrow> 'w res"

section \<open>Shared pointers\<close>

definition deref :: "nat \<Rightarrow> ('cb, 'z) conn_world_scheme \<Rightarrow> 'cb connection res" where
  "deref c w = (case conns w c of None \<Rightarrow> Inl Undefined_Behaviour | Some x \<Rightarrow> Inr x)"

definition put_conn ::
  "nat \<Rightarrow> 'cb connection \<Rightarrow> ('cb, 'z) conn_world_scheme \<Rightarrow> ('cb, 'z) conn_world_scheme" where
  "put_conn c x w = w\<lparr>conns := (conns w)(c \<mapsto> x)\<rparr>"

definition modify ::
  "nat \<Rightarrow> ('cb connection \<Rightarrow> 'cb connection) \<Rightarrow> ('cb, 'z) conn_world_scheme
   \<Rightarrow> ('cb, 'z) conn_world_scheme res" where
  "modify c f w = bindR (deref c w) (\<lambda>x. Inr (put_conn c (f x) w))"

definition with_channel ::
  "nat \<Rightarrow> (channel \<Rightarrow> ('cb, 'z) conn_world_scheme \<Rightarrow> channel \<times> ('cb, 'z) conn_world_scheme)
   \<Rightarrow> ('cb, 'z) conn_world_scheme \<Rightarrow> ('cb, 'z) conn_world_scheme res" where
  "with_channel c f w =
     bindR (deref c w) (\<lambda>x. let (ch, w1) = f (c_channel x) w in Inr (put_conn c (x\<lparr>c_channel := ch\<rparr>) w1))"

definition Connection_destroy ::
  "env \<Rightarrow> nat \<Rightarrow> ('cb, 'z) conn_world_scheme \<Rightarrow> ('cb, 'z) conn_world_scheme res" where
  "Connection_destroy E c w =
     bindR (deref c w) (\<lambda>x.
       let (_, w1) = sysw E (Sys_close (client_fd x)) w in Inr (w1\<lparr>conns := (conns w1)(c := None)\<rparr>))"

definition shared_copy ::
  "nat \<Rightarrow> ('cb, 'z) conn_world_scheme \<Rightarrow> ('cb, 'z) conn_world_scheme res" where
  "shared_copy c w = modify c (\<lambda>x. x\<lparr>use_count := use_count x + 1\<rparr>) w"

definition shared_drop ::
  "env \<Rightarrow> nat \<Rightarrow> ('cb, 'z) conn_world_scheme \<Rightarrow> ('cb, 'z) conn_world_scheme res" where
  "shared_drop E c w =
     bindR (deref c w) (\<lambda>x.
       if use_count x \<le> 1 then Connection_destroy E c w
       else Inr (put_conn c (x\<lparr>use_count := use_count x - 1\<rparr>) w))"

text \<open>A shared pointer held by a scope or a call: a temporary, a guard, a bound argument.\<close>

definition holding ::
  "env \<Rightarrow> nat \<Rightarrow> (('cb, 'z) conn_world_scheme \<Rightarrow> ('cb, 'z) conn_world_scheme res)
   \<Rightarrow> ('cb, 'z) conn_world_scheme \<Rightarrow> ('cb, 'z) conn_world_scheme res" where
  "holding E c body w = bindR (shared_copy c w) (\<lambda>w1. bindR (body w1) (shared_drop E c))"

definition expired :: "nat \<Rightarrow> ('cb, 'z) conn_world_scheme \<Rightarrow> bool" where
  "expired c w \<longleftrightarrow> conns w c = None"

section \<open>Life cycle\<close>

definition Connection_new ::
  "env \<Rightarrow> int \<Rightarrow> sockaddr_in \<Rightarrow> sockaddr_in \<Rightarrow> ('cb, 'z) conn_world_scheme
   \<Rightarrow> nat \<times> ('cb, 'z) conn_world_scheme" where
  "Connection_new E sockfd local peer w =
     (let c = next_ref w;
          (r, w1) = sysw E Sys_random w;
          (ch, w2) = set_read_callback E (Chan_conn c) Cb_handle_data_in (Channel_new sockfd) w1;
          x = \<lparr>conn_id = ret r, client_fd = sockfd, c_state = CONNECTING,
               local_addr = local, peer_addr = peer,
               c_channel = set_write_callback Cb_handle_data_out ch,
               input_buffer = Buffer_new, output_buffer = Buffer_new,
               on_conn = None, on_message = None, on_close = None, notice_on_close = None,
               use_count = 1\<rparr>
      in (c, (put_conn c x w2)\<lparr>next_ref := Suc c\<rparr>))"

definition set_conn_handle ::
  "nat \<Rightarrow> 'cb option \<Rightarrow> ('cb, 'z) conn_world_scheme \<Rightarrow> ('cb, 'z) conn_world_scheme res" where
  "set_conn_handle c cb w = modify c (\<lambda>x. x\<lparr>on_conn := cb\<rparr>) w"

definition set_message_handle ::
  "nat \<Rightarrow> 'cb option \<Rightarrow> ('cb, 'z) conn_world_scheme \<Rightarrow> ('cb, 'z) conn_world_scheme res" where
  "set_message_handle c cb w = modify c (\<lambda>x. x\<lparr>on_message := cb\<rparr>) w"

definition set_close_handle ::
  "nat \<Rightarrow> close_cb \<Rightarrow> ('cb, 'z) conn_world_scheme \<Rightarrow> ('cb, 'z) conn_world_scheme res" where
  "set_close_handle c cb w = modify c (\<lambda>x. x\<lparr>on_close := Some cb\<rparr>) w"

definition set_close_notice ::
  "nat \<Rightarrow> 'cb \<Rightarrow> ('cb, 'z) conn_world_scheme \<Rightarrow> ('cb, 'z) conn_world_scheme res" where
  "set_close_notice c cb w = modify c (\<lambda>x. x\<lparr>notice_on_close := Some cb\<rparr>) w"

definition set_nonblocking ::
  "env \<Rightarrow> nat \<Rightarrow> ('cb, 'z) conn_world_scheme \<Rightarrow> ('cb, 'z) conn_world_scheme res" where
  "set_nonblocking E c w =
     bindR (deref c w) (\<lambda>x.
       let (r, w1) = sysw E (Sys_fcntl_getfl (client_fd x)) w
       in Inr (snd (sysw E (Sys_fcntl_setfl (client_fd x) (ret r OR O_NONBLOCK)) w1)))"

definition handle_conn ::
  "env \<Rightarrow> ('cb, ('cb, 'z) conn_world_scheme) hooks \<Rightarrow> nat
   \<Rightarrow> ('cb, 'z) conn_world_scheme \<Rightarrow> ('cb, 'z) conn_world_scheme res" where
  "handle_conn E H c w =
     bindR (deref c w) (\<lambda>x. case on_conn x of
        Some cb \<Rightarrow> holding E c (run_cb H cb (Some c)) w
      | None \<Rightarrow> Inr w)"

definition handle_message ::
  "env \<Rightarrow> ('cb, ('cb, 'z) conn_world_scheme) hooks \<Rightarrow> nat
   \<Rightarrow> ('cb, 'z) conn_world_scheme \<Rightarrow> ('cb, 'z) conn_world_scheme res" where
  "handle_message E H c w =
     bindR (deref c w) (\<lambda>x. case on_message x of
        Some cb \<Rightarrow> holding E c (run_cb H cb (Some c)) w
      | None \<Rightarrow> Inr w)"

definition ConnectionEstablished ::
  "env \<Rightarrow> ('cb, ('cb, 'z) conn_world_scheme) hooks \<Rightarrow> nat
   \<Rightarrow> ('cb, 'z) conn_world_scheme \<Rightarrow> ('cb, 'z) conn_world_scheme res" where
  "ConnectionEstablished E H c w =
     bindR (with_channel c (\<lambda>ch w1. enableRead E (Chan_conn c) (set_tie c ch) w1) w) (\<lambda>w2.
     bindR (modify c (\<lambda>x. x\<lparr>c_state := CONNECTED\<rparr>) w2) (handle_conn E H c))"

text \<open>Despite its name the sources run this when a connection goes away.\<close>

definition ConnectionConstructor ::
  "env \<Rightarrow> nat \<Rightarrow> ('cb, 'z) conn_world_scheme \<Rightarrow> ('cb, 'z) conn_world_scheme res" where
  "ConnectionConstructor E c w =
     bindR (deref c w) (\<lambda>x.
     bindR (if c_state x = CONNECTED then
              with_channel c (disableAll E (Chan_conn c)) (put_conn c (x\<lparr>c_state := DISCONNECTED\<rparr>) w)
            else Inr w) (\<lambda>w1.
     bindR (deref c w1) (\<lambda>y. Inr (Epoll_delete_channel E (Chan_conn c) (c_channel y) w1))))"

definition handle_close ::
  "env \<Rightarrow> ('cb, ('cb, 'z) conn_world_scheme) hooks \<Rightarrow> nat
   \<Rightarrow> ('cb, 'z) conn_world_scheme \<Rightarrow> ('cb, 'z) conn_world_scheme res" where
  "handle_close E H c w =
     bindR (deref c w) (\<lambda>x.
       if c_state x \<noteq> DISCONNECTED then
         bindR (case on_close x of
                  Some cb \<Rightarrow> holding E c (run_close H cb c) w
                | None \<Rightarrow> Inr w) (\<lambda>w1.
         bindR (deref c w1) (\<lambda>y.
         bindR (case notice_on_close y of
                  Some cb \<Rightarrow> run_cb H cb None w1
                | None \<Rightarrow> Inr w1)
           (modify c (\<lambda>z. z\<lparr>c_state := DISCONNECTED\<rparr>))))
       else Inr w)"

definition force_close ::
  "env \<Rightarrow> ('cb, ('cb, 'z) conn_world_scheme) hooks \<Rightarrow> nat
   \<Rightarrow> ('cb, 'z) conn_world_scheme \<Rightarrow> ('cb, 'z) conn_world_scheme res" where
  "force_close E H c w =
     bindR (deref c w) (\<lambda>x.
       if c_state x = CONNECTED \<or> c_state x = DISCONNECTING then
         run_on_onwer_thread E (Task_handle_close c) (handle_close E H c)
           (put_conn c (x\<lparr>c_state := DISCONNECTING\<rparr>) w)
       else Inr w)"

definition notice_close ::
  "('cb, ('cb, 'z) conn_world_scheme) hooks \<Rightarrow> nat
   \<Rightarrow> ('cb, 'z) conn_world_scheme \<Rightarrow> ('cb, 'z) conn_world_scheme res" where
  "notice_close H c w =
     bindR (deref c w) (\<lambda>x. case notice_on_close x of Some cb \<Rightarrow> run_cb H cb None w | None \<Rightarrow> Inr w)"

text \<open>
  A task bound to a shared pointer holds a reference from \<^verbatim>\<open>std::bind\<close> until it has run, whether
  it runs here or from the loop's list.
\<close>

definition run_bound ::
  "env \<Rightarrow> nat \<Rightarrow> task \<Rightarrow> (('cb, 'z) conn_world_scheme \<Rightarrow> ('cb, 'z) conn_world_scheme res)
   \<Rightarrow> ('cb, 'z) conn_world_scheme \<Rightarrow> ('cb, 'z) conn_world_scheme res" where
  "run_bound E c t body w =
     bindR (shared_copy c w) (run_on_onwer_thread E t (\<lambda>v. bindR (body v) (shared_drop E c)))"

section \<open>Reading and writing\<close>

text \<open>The receive buffer of a call has 1024 bytes; \<open>data r\<close> is what the kernel put into it.\<close>

fun ReadNonBlocking ::
  "env \<Rightarrow> ('cb, ('cb, 'z) conn_world_scheme) hooks \<Rightarrow> nat \<Rightarrow> nat
   \<Rightarrow> ('cb, 'z) conn_world_scheme \<Rightarrow> ('cb, 'z) conn_world_scheme res" where
  "ReadNonBlocking E H 0 c w = Inl Fuel_Exhausted"
| "ReadNonBlocking E H (Suc n) c w =
     bindR (deref c w) (\<lambda>x.
       let (r, w1) = sysw E (Sys_read (client_fd x) 1024) w in
       if 0 < ret r then
         bindR (Append (data r) (of_int (ret r)) (input_buffer x)) (\<lambda>b.
           ReadNonBlocking E H n c (put_conn c (x\<lparr>input_buffer := b\<rparr>) w1))
       else if ret r < 0 then
         (if err r = EAGAIN then Inr w1
          else if err r = EINTR then ReadNonBlocking E H n c w1
          else handle_close E H c w1)
       else handle_close E H c w1)"

text \<open>Every iteration passes the whole of \<open>send_buf\<close> to \<^verbatim>\<open>write\<close>.\<close>

fun write_loop ::
  "env \<Rightarrow> ('cb, ('cb, 'z) conn_world_scheme) hooks \<Rightarrow> nat \<Rightarrow> nat \<Rightarrow> bytes \<Rightarrow> int
   \<Rightarrow> ('cb, 'z) conn_world_scheme \<Rightarrow> ('cb, 'z) conn_world_scheme res" where
  "write_loop E H 0 c send_buf send_left w = (if 0 < send_left then Inl Fuel_Exhausted else Inr w)"
| "write_loop E H (Suc n) c send_buf send_left w =
     (if 0 < send_left then
        bindR (deref c w) (\<lambda>x.
          let (r, w1) = sysw E (Sys_write (client_fd x) send_buf) w in
          if ret r < 0 then
            (if err r = EAGAIN then Inr w1
             else if err r = EINTR then write_loop E H n c send_buf send_left w1
             else handle_close E H c w1)
          else write_loop E H n c send_buf (send_left - ret r) w1)
      else Inr w)"

definition WriteNonBlocking ::
  "env \<Rightarrow> ('cb, ('cb, 'z) conn_world_scheme) hooks \<Rightarrow> nat
   \<Rightarrow> ('cb, 'z) conn_world_scheme \<Rightarrow> ('cb, 'z) conn_world_scheme res" where
  "WriteNonBlocking E H c w =
     bindR (deref c w) (\<lambda>x.
     bindR (RetrieveAllAsString (output_buffer x)) (\<lambda>(send_buf, b).
       write_loop E H (loop_fuel E) c send_buf (int (length send_buf))
         (put_conn c (x\<lparr>output_buffer := b\<rparr>) w)))"

definition Recv ::
  "nat \<Rightarrow> size_t \<Rightarrow> ('cb, 'z) conn_world_scheme \<Rightarrow> (bytes \<times> ('cb, 'z) conn_world_scheme) res" where
  "Recv c len w =
     bindR (deref c w) (\<lambda>x.
     bindR (RetrieveAsString len (input_buffer x)) (\<lambda>(m, b).
       Inr (m, put_conn c (x\<lparr>input_buffer := b\<rparr>) w)))"

definition Send ::
  "env \<Rightarrow> ('cb, ('cb, 'z) conn_world_scheme) hooks \<Rightarrow> nat \<Rightarrow> bytes
   \<Rightarrow> ('cb, 'z) conn_world_scheme \<Rightarrow> ('cb, 'z) conn_world_scheme res" where
  "Send E H c msg w =
     bindR (deref c w) (\<lambda>x.
     bindR (Append_str msg (output_buffer x)) (\<lambda>b.
       WriteNonBlocking E H c (put_conn c (x\<lparr>output_buffer := b\<rparr>) w)))"

text \<open>
  \<^verbatim>\<open>peer->Send(buf->RetrieveAllAsString())\<close> with \<open>peer\<close> held by the pointer the call goes through: what
  every forwarding closure does with the input buffer of its own connection.
\<close>

definition relay ::
  "env \<Rightarrow> ('cb, ('cb, 'z) conn_world_scheme) hooks \<Rightarrow> nat \<Rightarrow> nat
   \<Rightarrow> ('cb, 'z) conn_world_scheme \<Rightarrow> ('cb, 'z) conn_world_scheme res" where
  "relay E H peer c w =
     holding E peer (\<lambda>w1.
       bindR (deref c w1) (\<lambda>y.
       bindR (RetrieveAllAsString (input_buffer y)) (\<lambda>(bs, buf).
         Send E H peer bs (put_conn c (y\<lparr>input_buffer := buf\<rparr>) w1)))) w"

definition handle_data_in ::
  "env \<Rightarrow> ('cb, ('cb, 'z) conn_world_scheme) hooks \<Rightarrow> nat
   \<Rightarrow> ('cb, 'z) conn_world_scheme \<Rightarrow> ('cb, 'z) conn_world_scheme res" where
  "handle_data_in E H c w = bindR (ReadNonBlocking E H (loop_fuel E) c w) (handle_message E H c)"

definition handle_data_out ::
  "env \<Rightarrow> ('cb, ('cb, 'z) conn_world_scheme) hooks \<Rightarrow> nat
   \<Rightarrow> ('cb, 'z) conn_world_scheme \<Rightarrow> ('cb, 'z) conn_world_scheme res" where
  "handle_data_out E H c w = WriteNonBlocking E H c w"

section \<open>Events\<close>

definition conn_channel_cb ::
  "env \<Rightarrow> ('cb, ('cb, 'z) conn_world_scheme) hooks \<Rightarrow> nat \<Rightarrow> chan_cb
   \<Rightarrow> ('cb, 'z) conn_world_scheme \<Rightarrow> ('cb, 'z) conn_world_scheme res" where
  "conn_channel_cb E H c cb w =
     (case cb of
        Cb_handle_data_in \<Rightarrow> handle_data_in E H c w
      | Cb_handle_data_out \<Rightarrow> handle_data_out E H c w
      | _ \<Rightarrow> Inr w)"

text \<open>
  \<^verbatim>\<open>Channel::handle_event\<close> on the channel of a connection: the tie, when it is set and its object
  still lives, is locked for the whole dispatch.
\<close>

definition conn_handle_event ::
  "env \<Rightarrow> ('cb, ('cb, 'z) conn_world_scheme) hooks \<Rightarrow> nat
   \<Rightarrow> ('cb, 'z) conn_world_scheme \<Rightarrow> ('cb, 'z) conn_world_scheme res" where
  "conn_handle_event E H c w =
     bindR (deref c w) (\<lambda>x.
       let dispatch = handle_event_guard (\<lambda>v. bindR (deref c v) (\<lambda>y. Inr (c_channel y)))
                        (conn_channel_cb E H c)
       in case tie (c_channel x) of
            Some g \<Rightarrow> if expired g w then dispatch w else holding E g dispatch w
          | None \<Rightarrow> dispatch w)"


section \<open>Heap facts\<close>

lemma deref_Some [simp]: "conns w c = Some x \<Longrightarrow> deref c w = Inr x"
  by (simp add: deref_def)

lemma deref_None [simp]: "conns w c = None \<Longrightarrow> deref c w = Inl Undefined_Behaviour"
  by (simp add: deref_def)

lemma put_conn_simps [simp]:
  "conns (put_conn c x w) = (conns w)(c \<mapsto> x)"
  "hist (put_conn c x w) = hist w"
  "epoll_fd (put_conn c x w) = epoll_fd w"
  "wakeup_fd (put_conn c x w) = wakeup_fd w"
  "to_do_list (put_conn c x w) = to_do_list w"
  "next_ref (put_conn c x w) = next_ref w"
  "in_loop (put_conn c x w) = in_loop w"
  "put_conn c y (put_conn c x w) = put_conn c y w"
  "(put_conn c x w)\<lparr>hist := h\<rparr> = put_conn c x (w\<lparr>hist := h\<rparr>)"
  by (simp_all add: put_conn_def in_loop_def)

lemma put_conn_same [simp]: "conns w c = Some x \<Longrightarrow> put_conn c x w = w"
  by (simp add: put_conn_def fun_upd_idem)

lemma sysw_put_conn: "sysw E s (put_conn c x w) = map_prod id (put_conn c x) (sysw E s w)"
  by (simp add: sysw_simp)

lemma modify_Some [simp]: "conns w c = Some x \<Longrightarrow> modify c f w = Inr (put_conn c (f x) w)"
  by (simp add: modify_def)

lemma shared_copy_Some [simp]:
  "conns w c = Some x \<Longrightarrow> shared_copy c w = Inr (put_conn c (x\<lparr>use_count := use_count x + 1\<rparr>) w)"
  by (simp add: shared_copy_def)

lemma shared_drop_more [simp]:
  "conns w c = Some x \<Longrightarrow> 1 < use_count x \<Longrightarrow>
   shared_drop E c w = Inr (put_conn c (x\<lparr>use_count := use_count x - 1\<rparr>) w)"
  by (simp add: shared_drop_def)

lemma shared_drop_last:
  "conns w c = Some x \<Longrightarrow> use_count x \<le> 1 \<Longrightarrow>
   shared_drop E c w =
     Inr (let w1 = snd (sysw E (Sys_close (client_fd x)) w) in w1\<lparr>conns := (conns w1)(c := None)\<rparr>)"
  by (simp add: shared_drop_def Connection_destroy_def sysw_simp Let_def)

lemma holding_Some:
  assumes "conns w c = Some x" and "body (put_conn c (x\<lparr>use_count := use_count x + 1\<rparr>) w) = Inr v"
    and "conns v c = Some y" and "1 < use_count y"
  shows "holding E c body w = Inr (put_conn c (y\<lparr>use_count := use_count y - 1\<rparr>) v)"
  using assms by (simp add: holding_def)

lemma holding_last:
  assumes "conns w c = Some x" and "body (put_conn c (x\<lparr>use_count := use_count x + 1\<rparr>) w) = Inr v"
    and "conns v c = Some y" and "use_count y \<le> 1"
  shows "holding E c body w =
    Inr (v\<lparr>hist := (Sys_close (client_fd y), kern E (hist v) (Sys_close (client_fd y))) # hist v,
           conns := (conns v)(c := None)\<rparr>)"
  using assms by (simp add: holding_def shared_drop_last sysw_simp)

lemma run_bound_in_loop:
  assumes "in_loop w" and "conns w c = Some x"
    and "body (put_conn c (x\<lparr>use_count := use_count x + 1\<rparr>) w) = Inr v"
    and "conns v c = Some y" and "1 < use_count y"
  shows "run_bound E c t body w = Inr (put_conn c (y\<lparr>use_count := use_count y - 1\<rparr>) v)"
  using assms by (simp add: run_bound_def)

section \<open>Writing\<close>

text \<open>A kernel that takes every write on a descriptor whole.\<close>

definition accepts_all :: "env \<Rightarrow> int \<Rightarrow> bool" where
  "accepts_all E f \<longleftrightarrow> (\<forall>h bs. ret (kern E h (Sys_write f bs)) = int (length bs))"

definition wrote :: "env \<Rightarrow> int \<Rightarrow> bytes \<Rightarrow> history \<Rightarrow> history" where
  "wrote E f bs h = (if bs = [] then h else (Sys_write f bs, kern E h (Sys_write f bs)) # h)"

lemma sent_wrote:
  "accepts_all E f \<Longrightarrow> sent (wrote E f bs h) = (sent h)(f := sent h f @ bs)"
  by (auto simp: wrote_def accepts_all_def fun_eq_iff)

lemma wrote_frame [simp]:
  "closed (wrote E f bs h) = closed h" "interest (wrote E f bs h) = interest h"
  by (simp_all add: wrote_def fun_eq_iff)

lemma WriteNonBlocking_all:
  assumes x: "conns w c = Some x" and acc: "accepts_all E (client_fd x)"
    and ok: "buf_ok (output_buffer x)" and fuel: "0 < loop_fuel E"
  shows "WriteNonBlocking E H c w =
    Inr (put_conn c (x\<lparr>output_buffer := RetrieveAll (output_buffer x)\<rparr>)
      (w\<lparr>hist := wrote E (client_fd x) (contents (output_buffer x)) (hist w)\<rparr>))"
proof -
  obtain n where "loop_fuel E = Suc n" using fuel gr0_implies_Suc by blast
  then show ?thesis
    using x acc ok
    by (cases n)
       (auto simp: WriteNonBlocking_def RetrieveAllAsString_ok sysw_simp wrote_def accepts_all_def)
qed

lemma Send_all:
  assumes x: "conns w c = Some x" and acc: "accepts_all E (client_fd x)"
    and ok: "buf_ok (output_buffer x)" and room: "room (output_buffer x) (length m)"
    and fuel: "0 < loop_fuel E"
  obtains b where "Send E H c m w =
      Inr (put_conn c (x\<lparr>output_buffer := b\<rparr>)
        (w\<lparr>hist := wrote E (client_fd x) (contents (output_buffer x) @ m) (hist w)\<rparr>))"
    and "buf_ok b" and "contents b = []"
    and "unat (write_index b) \<le> unat (write_index (output_buffer x)) + length m"
    and "write_index b = kPrePendIndex"
proof -
  obtain b1 where b1: "Append_str m (output_buffer x) = Inr b1" "buf_ok b1"
      "contents b1 = contents (output_buffer x) @ m"
      "unat (write_index b1) \<le> unat (write_index (output_buffer x)) + length m"
    using Append_ok [OF ok room] .
  let ?w = "put_conn c (x\<lparr>output_buffer := b1\<rparr>) w"
  have "Send E H c m w = WriteNonBlocking E H c ?w" by (simp add: Send_def x b1)
  then show ?thesis
    using that [of "RetrieveAll b1"] WriteNonBlocking_all [of ?w c "x\<lparr>output_buffer := b1\<rparr>" E H]
      acc b1 fuel RetrieveAll_ok [of b1] by (simp add: RetrieveAll_def)
qed

lemma put_conn_shadow [simp]:
  "put_conn p a (put_conn c b (put_conn p d w)) = put_conn p a (put_conn c b w)"
  by (cases "c = p") (simp_all add: put_conn_def fun_upd_twist)

lemma relay_delivers:
  assumes c: "conns w c = Some x" and p: "conns w p = Some y" and ne: "c \<noteq> p" "1 \<le> use_count y"
    and ib: "buf_ok (input_buffer x)"
    and ob: "buf_ok (output_buffer y)" "contents (output_buffer y) = []"
      "room (output_buffer y) (length (contents (input_buffer x)))"
    and acc: "accepts_all E (client_fd y)" and fuel: "0 < loop_fuel E"
  obtains b where "relay E H p c w =
      Inr (put_conn p (y\<lparr>output_buffer := b\<rparr>)
        (put_conn c (x\<lparr>input_buffer := RetrieveAll (input_buffer x)\<rparr>)
          (w\<lparr>hist := wrote E (client_fd y) (contents (input_buffer x)) (hist w)\<rparr>)))"
    and "buf_ok b" and "contents b = []" and "write_index b = kPrePendIndex"
proof -
  let ?y1 = "y\<lparr>use_count := use_count y + 1\<rparr>"
  let ?x1 = "x\<lparr>input_buffer := RetrieveAll (input_buffer x)\<rparr>"
  let ?w1 = "put_conn c ?x1 (put_conn p ?y1 w)"
  let ?h = "wrote E (client_fd y) (contents (input_buffer x)) (hist w)"
  obtain b where b: "Send E H p (contents (input_buffer x)) ?w1 =
      Inr (put_conn p (?y1\<lparr>output_buffer := b\<rparr>) (?w1\<lparr>hist := ?h\<rparr>))"
      "buf_ok b" "contents b = []" "write_index b = kPrePendIndex"
    using Send_all [of ?w1 p ?y1 E "contents (input_buffer x)" H] ne ob acc fuel by auto
  let ?body = "\<lambda>w1. bindR (deref c w1) (\<lambda>z. bindR (RetrieveAllAsString (input_buffer z)) (\<lambda>(bs, buf).
      Send E H p bs (put_conn c (z\<lparr>input_buffer := buf\<rparr>) w1)))"
  have "?body (put_conn p ?y1 w) = Send E H p (contents (input_buffer x)) ?w1"
    using c ne ib by (simp add: RetrieveAllAsString_ok)
  then have "holding E p ?body w =
      Inr (put_conn p (?y1\<lparr>output_buffer := b, use_count := use_count y\<rparr>)
        (put_conn p (?y1\<lparr>output_buffer := b\<rparr>) (?w1\<lparr>hist := ?h\<rparr>)))"
    using holding_Some [of w p y ?body, OF p] ne b(1) by simp
  then have "relay E H p c w = Inr (put_conn p (y\<lparr>output_buffer := b\<rparr>) (put_conn c ?x1 (w\<lparr>hist := ?h\<rparr>)))"
    by (simp add: relay_def)
  with that b(2-4) show ?thesis by blast
qed

text \<open>What a partial write and a full socket buffer make of the same code.\<close>

lemma WriteNonBlocking_partial:
  assumes x: "conns w c = Some x" and ok: "buf_ok (output_buffer x)"
    and bs: "bs = contents (output_buffer x)"
    and r1: "kern E (hist w) (Sys_write (client_fd x) bs) = r1" "0 < ret r1" "ret r1 < int (length bs)"
    and r2: "kern E ((Sys_write (client_fd x) bs, r1) # hist w) (Sys_write (client_fd x) bs) = r2"
      "ret r2 = int (length bs) - ret r1"
    and fuel: "loop_fuel E = Suc (Suc n)"
  shows "\<exists>w'. WriteNonBlocking E H c w = Inr w' \<and>
    sent (hist w') (client_fd x) =
      sent (hist w) (client_fd x) @ take (nat (ret r1)) bs @ take (length bs - nat (ret r1)) bs"
proof -
  have "nat (int (length bs) - ret r1) = length bs - nat (ret r1)" using r1 by simp
  then show ?thesis
    using assms by (cases n) (auto simp: WriteNonBlocking_def RetrieveAllAsString_ok sysw_simp)
qed

lemma WriteNonBlocking_again:
  assumes x: "conns w c = Some x" and ok: "buf_ok (output_buffer x)"
    and bs: "bs = contents (output_buffer x)" "bs \<noteq> []"
    and r: "kern E (hist w) (Sys_write (client_fd x) bs) = r" "ret r = -1" "err r = EAGAIN"
    and fuel: "0 < loop_fuel E"
  shows "\<exists>w' x'. WriteNonBlocking E H c w = Inr w' \<and> conns w' c = Some x'
    \<and> contents (output_buffer x') = [] \<and> sent (hist w') = sent (hist w)"
proof -
  obtain n where "loop_fuel E = Suc n" using fuel gr0_implies_Suc by blast
  then show ?thesis
    using assms
    by (auto simp: WriteNonBlocking_def RetrieveAllAsString_ok sysw_simp RetrieveAll_ok fun_eq_iff)
qed

section \<open>Reading\<close>

text \<open>
  What the answers of the kernel to a run of reads amount to: the bytes, whether the run ended
  because nothing more is there or because the stream ended or failed, and the history after it.
\<close>

datatype read_end = Read_again | Read_closed

fun incoming :: "env \<Rightarrow> int \<Rightarrow> nat \<Rightarrow> history \<Rightarrow> (bytes \<times> read_end \<times> history) option" where
  "incoming E f 0 h = None"
| "incoming E f (Suc n) h =
     (let r = kern E h (Sys_read f 1024); h1 = (Sys_read f 1024, r) # h in
      if 0 < ret r then map_option (\<lambda>(d, e, h2). (data r @ d, e, h2)) (incoming E f n h1)
      else if ret r < 0 \<and> err r = EAGAIN then Some ([], Read_again, h1)
      else if ret r < 0 \<and> err r = EINTR then incoming E f n h1
      else Some ([], Read_closed, h1))"

text \<open>\<^verbatim>\<open>read(2)\<close> fills as many bytes as it returns, and no more than it was asked for.\<close>

definition reads_wf :: "env \<Rightarrow> int \<Rightarrow> bool" where
  "reads_wf E f \<longleftrightarrow> (\<forall>h n. let r = kern E h (Sys_read f n) in
     0 < ret r \<longrightarrow> length (data r) = nat (ret r) \<and> ret r \<le> int n)"

lemma reads_wfD:
  "reads_wf E f \<Longrightarrow> r = kern E h (Sys_read f n) \<Longrightarrow> 0 < ret r \<Longrightarrow>
   of_int (ret r) = (of_nat (length (data r)) :: size_t)"
proof -
  assume "reads_wf E f" and r: "r = kern E h (Sys_read f n)" and pos: "0 < ret r"
  then have "length (data r) = nat (ret r)" unfolding reads_wf_def by (simp add: Let_def)
  with pos show ?thesis by simp
qed

lemma incoming_mono: "incoming E f n h = Some y \<Longrightarrow> n \<le> m \<Longrightarrow> incoming E f m h = Some y"
proof (induction n arbitrary: m h y)
  case (Suc n)
  then obtain k where m: "m = Suc k" "n \<le> k" by (cases m) auto
  show ?case
    using Suc.prems(1) Suc.IH [OF _ m(2)] unfolding m(1)
    by (auto simp: Let_def split: if_splits)
qed simp

lemma incoming_frame:
  "incoming E f n h = Some (d, e, h') \<Longrightarrow>
   sent h' = sent h \<and> closed h' = closed h \<and> interest h' = interest h"
proof (induction n arbitrary: h d)
  case (Suc n)
  let ?h1 = "(Sys_read f 1024, kern E h (Sys_read f 1024)) # h"
  have "sent ?h1 = sent h" "closed ?h1 = closed h" "interest ?h1 = interest h"
    by (simp_all add: fun_eq_iff)
  then show ?case
    using Suc.prems Suc.IH [of ?h1] by (fastforce simp: Let_def split: if_splits)
qed simp

lemma ReadNonBlocking_incoming:
  assumes "incoming E f n (hist w) = Some (d, e, h')" and "conns w c = Some x" and "client_fd x = f"
    and "reads_wf E f" and "buf_ok (input_buffer x)" and "room (input_buffer x) (length d)"
  shows "\<exists>b. buf_ok b \<and> contents b = contents (input_buffer x) @ d
    \<and> unat (write_index b) \<le> unat (write_index (input_buffer x)) + length d
    \<and> ReadNonBlocking E H n c w =
        (let w' = put_conn c (x\<lparr>input_buffer := b\<rparr>) (w\<lparr>hist := h'\<rparr>)
         in if e = Read_again then Inr w' else handle_close E H c w')"
  using assms
proof (induction n arbitrary: w x d)
  case (Suc n)
  let ?r = "kern E (hist w) (Sys_read f 1024)"
  let ?w1 = "w\<lparr>hist := (Sys_read f 1024, ?r) # hist w\<rparr>"
  have sysw: "sysw E (Sys_read (client_fd x) 1024) w = (?r, ?w1)"
    using Suc.prems(3) by (simp add: sysw_simp)
  consider (got) "0 < ret ?r" | (intr) "ret ?r < 0" "err ?r = EINTR"
    | (finished) "\<not> 0 < ret ?r" "\<not> (ret ?r < 0 \<and> err ?r = EINTR)" by blast
  then show ?case
  proof cases
    case got
    from got Suc.prems(1) obtain d' where d': "incoming E f n (hist ?w1) = Some (d', e, h')"
        and d: "d = data ?r @ d'" by (auto simp: Let_def)
    obtain b1 where b1: "Append_str (data ?r) (input_buffer x) = Inr b1" "buf_ok b1"
        "contents b1 = contents (input_buffer x) @ data ?r"
        "unat (write_index b1) \<le> unat (write_index (input_buffer x)) + length (data ?r)"
      using Append_ok [OF Suc.prems(5), of "data ?r"] Suc.prems(6) d by (auto simp: room_def)
    have app: "Append (data ?r) (of_int (ret ?r)) (input_buffer x) = Inr b1"
      using b1(1) reads_wfD [OF Suc.prems(4) refl got] by (simp add: Append_str_def)
    let ?x1 = "x\<lparr>input_buffer := b1\<rparr>"
    have room: "room b1 (length d')" using Suc.prems(6) d b1(4) by (simp add: room_def)
    let ?w2 = "put_conn c ?x1 ?w1"
    have "\<exists>b. buf_ok b \<and> contents b = contents (input_buffer ?x1) @ d'
        \<and> unat (write_index b) \<le> unat (write_index (input_buffer ?x1)) + length d'
        \<and> ReadNonBlocking E H n c ?w2 =
          (let w' = put_conn c (?x1\<lparr>input_buffer := b\<rparr>) (?w2\<lparr>hist := h'\<rparr>)
           in if e = Read_again then Inr w' else handle_close E H c w')"
      by (rule Suc.IH) (use d' Suc.prems(3,4) b1(2) room in simp_all)
    then obtain b where b: "buf_ok b" "contents b = contents b1 @ d'"
        "unat (write_index b) \<le> unat (write_index b1) + length d'"
        "ReadNonBlocking E H n c ?w2 =
          (let w' = put_conn c (x\<lparr>input_buffer := b\<rparr>) (w\<lparr>hist := h'\<rparr>)
           in if e = Read_again then Inr w' else handle_close E H c w')"
      by auto
    have "ReadNonBlocking E H (Suc n) c w = ReadNonBlocking E H n c ?w2"
      using Suc.prems(2) got app by (simp add: sysw)
    then show ?thesis
      using b b1 d by (intro exI [of _ b]) simp
  next
    case intr
    then have "incoming E f n (hist ?w1) = Some (d, e, h')"
      using Suc.prems(1) by (auto simp: Let_def)
    from Suc.IH [OF this _ Suc.prems(3-)] Suc.prems(2) intr sysw show ?thesis by simp
  next
    case finished
    then show ?thesis
      using Suc.prems sysw by (intro exI [of _ "input_buffer x"]) (auto simp: Let_def split: if_splits)
  qed
qed simp

section \<open>Going away\<close>

text \<open>
  What a sequence of calls left behind, as far as peers and the kernel can tell: nothing was sent on
  a socket of interest, nothing closed, and one descriptor is no longer watched.
\<close>

definition quiet :: "int set \<Rightarrow> history \<Rightarrow> history \<Rightarrow> bool" where
  "quiet F h h' \<longleftrightarrow> closed h' = closed h \<and> (\<forall>f \<in> F. sent h' f = sent h f)"

lemma quiet_refl [simp, intro]: "quiet F h h"
  by (simp add: quiet_def)

lemma quiet_trans [trans]: "quiet F h h1 \<Longrightarrow> quiet F h1 h2 \<Longrightarrow> quiet F h h2"
  by (simp add: quiet_def)

lemma quiet_ctl [simp]: "quiet F h ((Sys_epoll_ctl e oper f ev p, r) # h)"
  by (simp add: quiet_def fun_eq_iff)

text \<open>Removing a channel: one or two \<^verbatim>\<open>epoll_ctl\<close> calls, the last of which deletes.\<close>

definition unwatch :: "env \<Rightarrow> nat \<Rightarrow> 'cb connection \<Rightarrow> int \<Rightarrow> history \<Rightarrow> history" where
  "unwatch E c x ep h =
     (let f = ch_fd (c_channel x); p = Chan_conn c;
          upd = Sys_epoll_ctl ep (if is_epolled (c_channel x) then EPOLL_CTL_MOD else EPOLL_CTL_ADD) f 0 p;
          h1 = (if c_state x = CONNECTED then (upd, kern E h upd) # h else h);
          del = Sys_epoll_ctl ep EPOLL_CTL_DEL f 0 p
      in (del, kern E h1 del) # h1)"

definition retired :: "'cb connection \<Rightarrow> 'cb connection" where
  "retired x =
     (if c_state x = CONNECTED
      then x\<lparr>c_state := DISCONNECTED,
             c_channel := (c_channel x)\<lparr>listen_events := 0, is_epolled := True\<rparr>\<rparr>
      else x)"

lemma epolled_idem: "is_epolled ch \<Longrightarrow> ch\<lparr>listen_events := 0, is_epolled := True\<rparr> = ch\<lparr>listen_events := 0\<rparr>"
  by (cases ch) simp

lemma ConnectionConstructor_Some:
  "conns w c = Some x \<Longrightarrow>
   ConnectionConstructor E c w =
     Inr (put_conn c (retired x) (w\<lparr>hist := unwatch E c x (epoll_fd w) (hist w)\<rparr>))"
  by (cases "is_epolled (c_channel x)"; cases "c_state x = CONNECTED")
     (simp_all add: ConnectionConstructor_def with_channel_def disableAll_def
      Epoll_update_channel_def Epoll_delete_channel_def sysw_simp unwatch_def retired_def Let_def
      epolled_idem)

lemma retired_simps [simp]:
  "use_count (retired x) = use_count x" "client_fd (retired x) = client_fd x"
  "conn_id (retired x) = conn_id x" "notice_on_close (retired x) = notice_on_close x"
  "on_message (retired x) = on_message x" "input_buffer (retired x) = input_buffer x"
  "output_buffer (retired x) = output_buffer x" "ch_fd (c_channel (retired x)) = ch_fd (c_channel x)"
  "c_state (retired x) = (if c_state x = CONNECTED then DISCONNECTED else c_state x)"
  "ready_events (c_channel (retired x)) = ready_events (c_channel x)"
  "on_close (retired x) = on_close x"
  by (simp_all add: retired_def)

lemma retired_use_count [simp]:
  "retired (x\<lparr>use_count := n\<rparr>) = (retired x)\<lparr>use_count := n\<rparr>"
  "(retired x)\<lparr>use_count := use_count x\<rparr> = retired x"
  by (simp_all add: retired_def)

lemma unwatch_use_count [simp]:
  "unwatch E c (x\<lparr>use_count := n\<rparr>) ep h = unwatch E c x ep h"
  by (simp add: unwatch_def)

lemma unwatch_frame [simp]:
  "quiet F h (unwatch E c x ep h)"
  "interest (unwatch E c x ep h) = (interest h)(ch_fd (c_channel x) := None)"
  by (auto simp: unwatch_def Let_def quiet_def fun_eq_iff split: if_splits)

section \<open>Coming up\<close>

lemma enableRead_mask [simp]:
  "ucast ((scast (0 :: u16) :: u32) OR (EPOLLIN OR EPOLLPRI)) = (3 :: u16)"
  "ucast ((scast (3 :: u16) :: u32) OR (EPOLLIN OR EPOLLPRI)) = (3 :: u16)"
  "ucast (EPOLLIN OR EPOLLPRI) = (3 :: u16)"
  "ucast ((3 :: u32) OR (EPOLLIN OR EPOLLPRI)) = (3 :: u16)"
  "scast (3 :: u16) = (3 :: u32)"
  by (simp_all add: EPOLLIN_def EPOLLPRI_def)

text \<open>A connection as its constructor leaves it.\<close>

definition blank_conn :: "int \<Rightarrow> 'cb connection \<Rightarrow> bool" where
  "blank_conn f x \<longleftrightarrow>
     client_fd x = f \<and> c_state x = CONNECTING \<and> use_count x = 1
     \<and> on_conn x = None \<and> on_message x = None \<and> on_close x = None \<and> notice_on_close x = None
     \<and> input_buffer x = Buffer_new \<and> output_buffer x = Buffer_new
     \<and> ch_fd (c_channel x) = f \<and> is_epolled (c_channel x) \<and> listen_events (c_channel x) = 3
     \<and> read_callback (c_channel x) = Some Cb_handle_data_in
     \<and> write_callback (c_channel x) = Some Cb_handle_data_out"

definition watched :: "int \<Rightarrow> channel_ptr \<Rightarrow> history \<Rightarrow> history \<Rightarrow> bool" where
  "watched f p h h' \<longleftrightarrow> quiet UNIV h h' \<and>
     (interest h f \<in> {None, Some (3, p)} \<longrightarrow> interest h' = (interest h)(f \<mapsto> (3, p)))"

lemma watched_trans [trans]: "watched f p h h1 \<Longrightarrow> watched f p h1 h2 \<Longrightarrow> watched f p h h2"
  by (auto simp: watched_def quiet_def)

lemma Connection_new_blank:
  obtains x h where
    "Connection_new E f l q w =
       (next_ref w, put_conn (next_ref w) x (w\<lparr>next_ref := Suc (next_ref w), hist := h\<rparr>))"
    and "blank_conn f x" and "watched f (Chan_conn (next_ref w)) (hist w) h"
    and "conn_id x = ret (kern E (hist w) Sys_random)"
proof -
  let ?r = "kern E (hist w) Sys_random"
  let ?add = "Sys_epoll_ctl (epoll_fd w) EPOLL_CTL_ADD f 3 (Chan_conn (next_ref w))"
  let ?h1 = "(Sys_random, ?r) # hist w"
  let ?h = "(?add, kern E ?h1 ?add) # ?h1"
  let ?x = "snd (Connection_new E f l q w)"
  have "watched f (Chan_conn (next_ref w)) (hist w) ?h"
    by (auto simp: watched_def quiet_def fun_eq_iff)
  then show ?thesis
    by (intro that [of "the (conns ?x (next_ref w))" ?h])
       (simp_all add: Connection_new_def blank_conn_def set_read_callback_def enableRead_def
         Epoll_update_channel_def Channel_new_def sysw_simp set_write_callback_def Let_def put_conn_def)
qed

lemma set_nonblocking_Some:
  assumes "conns w c = Some x"
  obtains h where "set_nonblocking E c w = Inr (w\<lparr>hist := h\<rparr>)" and "quiet UNIV (hist w) h"
    and "interest h = interest (hist w)"
proof -
  let ?g = "Sys_fcntl_getfl (client_fd x)"
  let ?h1 = "(?g, kern E (hist w) ?g) # hist w"
  let ?s = "Sys_fcntl_setfl (client_fd x) (ret (kern E (hist w) ?g) OR O_NONBLOCK)"
  show ?thesis
    by (rule that [of "(?s, kern E ?h1 ?s) # ?h1"])
       (use assms in \<open>auto simp: set_nonblocking_def sysw_simp quiet_def fun_eq_iff\<close>)
qed

lemma ConnectionEstablished_Some:
  assumes "conns w c = Some x" and "is_epolled (c_channel x)" and "listen_events (c_channel x) = 3"
    and "ch_fd (c_channel x) = f"
  obtains h where
    "ConnectionEstablished E H c w =
       handle_conn E H c (put_conn c (x\<lparr>c_channel := (c_channel x)\<lparr>tie := Some c\<rparr>, c_state := CONNECTED\<rparr>)
         (w\<lparr>hist := h\<rparr>))"
    and "quiet UNIV (hist w) h"
    and "interest (hist w) f = Some (3, Chan_conn c) \<Longrightarrow> interest h = interest (hist w)"
proof -
  let ?m = "Sys_epoll_ctl (epoll_fd w) EPOLL_CTL_MOD f 3 (Chan_conn c)"
  have tie: "(c_channel x)\<lparr>tie := Some c, listen_events := 3\<rparr> = (c_channel x)\<lparr>tie := Some c\<rparr>"
    using assms(3) by (cases "c_channel x") simp
  show ?thesis
    by (rule that [of "(?m, kern E (hist w) ?m) # hist w"])
       (use assms in \<open>auto simp: tie ConnectionEstablished_def with_channel_def set_tie_def
          enableRead_def Epoll_update_channel_def sysw_simp quiet_def fun_eq_iff Let_def\<close>)
qed

section \<open>Dispatch\<close>

text \<open>What the last poll reported for a channel.\<close>

definition got_in :: "channel \<Rightarrow> bool" where
  "got_in ch \<longleftrightarrow> (scast (ready_events ch) :: u32) AND EPOLLIN \<noteq> 0"

definition got_out :: "channel \<Rightarrow> bool" where
  "got_out ch \<longleftrightarrow> (scast (ready_events ch) :: u32) AND EPOLLOUT \<noteq> 0"

lemma conn_handle_event_in:
  assumes "conns w c = Some x" and "tie (c_channel x) = Some c" and "got_in (c_channel x)"
    and "read_callback (c_channel x) = Some Cb_handle_data_in"
    and "handle_data_in E H c (put_conn c (x\<lparr>use_count := use_count x + 1\<rparr>) w) = Inr v"
    and "conns v c = Some y" and "\<not> got_out (c_channel y)"
  shows "conn_handle_event E H c w = shared_drop E c v"
  using assms
  by (simp add: conn_handle_event_def expired_def holding_def handle_event_guard_def
      conn_channel_cb_def got_in_def got_out_def)

end
