(* ===== verification/Server.thy ===== *)
theory Server
  imports Conn "HOL-Library.AList"
begin

text \<open>
  \<^verbatim>\<open>Acceptor\<close> and \<^verbatim>\<open>Server\<close> (\<^verbatim>\<open>network/acceptor.cpp\<close>, \<^verbatim>\<open>network/server.cpp\<close>): a listening socket on a
  channel of the loop, and the table of the connections it has accepted, keyed by their random id.
  The table is an association list with at most one entry per key.
\<close>

section \<open>State\<close>

record 'cb server =
  sock :: TcpSocket
  accept_channel :: channel
  new_connection_callback :: bool
  connections :: "(int \<times> nat) list"
  s_on_connect :: "'cb option"
  s_on_message :: "'cb option"
  s_on_disconnect :: "'cb option"

record 'cb srv_world = "'cb conn_world" +
  servers :: "nat \<Rightarrow> 'cb server option"
  next_server :: nat

definition the_server :: "nat \<Rightarrow> ('cb, 'z) srv_world_scheme \<Rightarrow> 'cb server res" where
  "the_server s w = (case servers w s of None \<Rightarrow> Inl Undefined_Behaviour | Some x \<Rightarrow> Inr x)"

definition put_server ::
  "nat \<Rightarrow> 'cb server \<Rightarrow> ('cb, 'z) srv_world_scheme \<Rightarrow> ('cb, 'z) srv_world_scheme" where
  "put_server s x w = w\<lparr>servers := (servers w)(s \<mapsto> x)\<rparr>"

definition modify_server ::
  "nat \<Rightarrow> ('cb server \<Rightarrow> 'cb server) \<Rightarrow> ('cb, 'z) srv_world_scheme
   \<Rightarrow> ('cb, 'z) srv_world_scheme res" where
  "modify_server s f w = bindR (the_server s w) (\<lambda>x. Inr (put_server s (f x) w))"

section \<open>Acceptor and Server construction\<close>

definition Acceptor_new ::
  "env \<Rightarrow> nat \<Rightarrow> sockaddr_in \<Rightarrow> int \<Rightarrow> ('cb, 'z) srv_world_scheme
   \<Rightarrow> (TcpSocket \<times> channel \<times> ('cb, 'z) srv_world_scheme) res" where
  "Acceptor_new E s addr backlog w =
     bindR (TcpSocket_new E False (hist w)) (\<lambda>(sk, h1).
     bindR (TcpSocket_bind E sk addr h1) (\<lambda>h2.
     bindR (TcpSocket_listen E sk backlog h2) (\<lambda>h3.
       let (ch1, w1) = set_read_callback E (Chan_acceptor s) Cb_acceptNewConnection
                         (Channel_new (fd sk)) (w\<lparr>hist := h3\<rparr>);
           (ch2, w2) = enableRead E (Chan_acceptor s) ch1 w1;
           (ch3, w3) = set_et E (Chan_acceptor s) ch2 w2
       in Inr (sk, ch3, w3))))"

text \<open>The other constructor makes the address first and then does the same.\<close>

definition Acceptor_new_ip ::
  "env \<Rightarrow> nat \<Rightarrow> bytes \<Rightarrow> u16 \<Rightarrow> int \<Rightarrow> ('cb, 'z) srv_world_scheme
   \<Rightarrow> (TcpSocket \<times> channel \<times> ('cb, 'z) srv_world_scheme) res" where
  "Acceptor_new_ip E s ip port backlog w = Acceptor_new E s (InetAddress E ip port) backlog w"

definition set_new_connection_callback :: "'cb server \<Rightarrow> 'cb server" where
  "set_new_connection_callback x = x\<lparr>new_connection_callback := True\<rparr>"

definition Server_new ::
  "env \<Rightarrow> sockaddr_in \<Rightarrow> int \<Rightarrow> ('cb, 'z) srv_world_scheme
   \<Rightarrow> (nat \<times> ('cb, 'z) srv_world_scheme) res" where
  "Server_new E addr backlog w =
     (let s = next_server w in
      bindR (Acceptor_new E s addr backlog w) (\<lambda>(sk, ch, w1).
        let x = \<lparr>sock = sk, accept_channel = ch, new_connection_callback = False, connections = [],
                 s_on_connect = None, s_on_message = None, s_on_disconnect = None\<rparr>
        in Inr (s, (put_server s (set_new_connection_callback x) w1)\<lparr>next_server := Suc s\<rparr>)))"

definition Server_new_ip ::
  "env \<Rightarrow> bytes \<Rightarrow> u16 \<Rightarrow> int \<Rightarrow> ('cb, 'z) srv_world_scheme
   \<Rightarrow> (nat \<times> ('cb, 'z) srv_world_scheme) res" where
  "Server_new_ip E ip port backlog w =
     (let s = next_server w in
      bindR (Acceptor_new_ip E s ip port backlog w) (\<lambda>(sk, ch, w1).
        let x = \<lparr>sock = sk, accept_channel = ch, new_connection_callback = False, connections = [],
                 s_on_connect = None, s_on_message = None, s_on_disconnect = None\<rparr>
        in Inr (s, (put_server s (set_new_connection_callback x) w1)\<lparr>next_server := Suc s\<rparr>)))"

text \<open>
  Destruction drops the table, then the acceptor with its socket. The accept channel is a raw
  pointer nobody deletes.
\<close>

definition Server_destroy ::
  "env \<Rightarrow> nat \<Rightarrow> ('cb, 'z) srv_world_scheme \<Rightarrow> ('cb, 'z) srv_world_scheme res" where
  "Server_destroy E s w =
     bindR (the_server s w) (\<lambda>x.
     bindR (foldR (\<lambda>(_, c). shared_drop E c) (connections x) w) (\<lambda>w1.
       Inr (w1\<lparr>hist := TcpSocket_destroy E (sock x) (hist w1), servers := (servers w1)(s := None)\<rparr>)))"

definition bind_on_connect ::
  "nat \<Rightarrow> 'cb \<Rightarrow> ('cb, 'z) srv_world_scheme \<Rightarrow> ('cb, 'z) srv_world_scheme res" where
  "bind_on_connect s cb w = modify_server s (\<lambda>x. x\<lparr>s_on_connect := Some cb\<rparr>) w"

definition bind_on_message ::
  "nat \<Rightarrow> 'cb \<Rightarrow> ('cb, 'z) srv_world_scheme \<Rightarrow> ('cb, 'z) srv_world_scheme res" where
  "bind_on_message s cb w = modify_server s (\<lambda>x. x\<lparr>s_on_message := Some cb\<rparr>) w"

definition bind_on_disconnect ::
  "nat \<Rightarrow> 'cb \<Rightarrow> ('cb, 'z) srv_world_scheme \<Rightarrow> ('cb, 'z) srv_world_scheme res" where
  "bind_on_disconnect s cb w = modify_server s (\<lambda>x. x\<lparr>s_on_disconnect := Some cb\<rparr>) w"

definition update_on_message ::
  "nat \<Rightarrow> 'cb \<Rightarrow> ('cb, 'z) srv_world_scheme \<Rightarrow> ('cb, 'z) srv_world_scheme res" where
  "update_on_message c cb w = set_message_handle c (Some cb) w"

section \<open>Connections of a server\<close>

definition getConnection :: "nat \<Rightarrow> int \<Rightarrow> ('cb, 'z) srv_world_scheme \<Rightarrow> nat option res" where
  "getConnection s i w = bindR (the_server s w) (\<lambda>x. Inr (map_of (connections x) i))"

text \<open>
  \<^verbatim>\<open>connections[id] = std::move(conn)\<close>: the pointer an equal key held before is released.
\<close>

definition table_insert ::
  "env \<Rightarrow> nat \<Rightarrow> int \<Rightarrow> nat \<Rightarrow> ('cb, 'z) srv_world_scheme \<Rightarrow> ('cb, 'z) srv_world_scheme res" where
  "table_insert E s i c w =
     bindR (the_server s w) (\<lambda>x.
       let w1 = put_server s (x\<lparr>connections := AList.update i c (connections x)\<rparr>) w in
       case map_of (connections x) i of None \<Rightarrow> Inr w1 | Some c' \<Rightarrow> shared_drop E c' w1)"

definition table_erase ::
  "env \<Rightarrow> nat \<Rightarrow> int \<Rightarrow> ('cb, 'z) srv_world_scheme \<Rightarrow> ('cb, 'z) srv_world_scheme res" where
  "table_erase E s i w =
     bindR (the_server s w) (\<lambda>x.
       case map_of (connections x) i of
         None \<Rightarrow> Inr w
       | Some c' \<Rightarrow>
           shared_drop E c' (put_server s (x\<lparr>connections := AList.delete i (connections x)\<rparr>) w))"

definition newConnectionHandle ::
  "env \<Rightarrow> ('cb, ('cb, 'z) srv_world_scheme) hooks \<Rightarrow> nat \<Rightarrow> int
   \<Rightarrow> ('cb, 'z) srv_world_scheme \<Rightarrow> ('cb, 'z) srv_world_scheme res" where
  "newConnectionHandle E H s f w =
     (let (localAddr, h1) = getLocalAddr E f (hist w);
          (peerAddr, h2) = getPeerAddr E f h1;
          (c, w1) = Connection_new E f localAddr peerAddr (w\<lparr>hist := h2\<rparr>)
      in bindR (set_nonblocking E c w1) (\<lambda>w2.
         bindR (the_server s w2) (\<lambda>x.
         bindR (set_conn_handle c (s_on_connect x) w2) (\<lambda>w3.
         bindR (set_message_handle c (s_on_message x) w3) (\<lambda>w4.
         bindR (set_close_handle c (Cb_disconnectHandle s) w4) (\<lambda>w5.
         bindR (ConnectionEstablished E H c w5) (\<lambda>w6.
         bindR (deref c w6) (\<lambda>y. table_insert E s (conn_id y) c w6))))))))"

definition acceptNewConnection ::
  "env \<Rightarrow> ('cb, ('cb, 'z) srv_world_scheme) hooks \<Rightarrow> nat
   \<Rightarrow> ('cb, 'z) srv_world_scheme \<Rightarrow> ('cb, 'z) srv_world_scheme res" where
  "acceptNewConnection E H s w =
     bindR (the_server s w) (\<lambda>x.
       if new_connection_callback x then
         (let (f, _, h1) = TcpSocket_accept E (sock x) (hist w)
          in newConnectionHandle E H s f (w\<lparr>hist := h1\<rparr>))
       else Inr w)"

definition disconnectHandleInLoop ::
  "env \<Rightarrow> nat \<Rightarrow> nat \<Rightarrow> ('cb, 'z) srv_world_scheme \<Rightarrow> ('cb, 'z) srv_world_scheme res" where
  "disconnectHandleInLoop E s c w =
     bindR (deref c w) (\<lambda>x.
     bindR (table_erase E s (conn_id x) w)
       (run_bound E c (Task_ConnectionConstructor c) (ConnectionConstructor E c)))"

definition disconnectHandle ::
  "env \<Rightarrow> nat \<Rightarrow> nat \<Rightarrow> ('cb, 'z) srv_world_scheme \<Rightarrow> ('cb, 'z) srv_world_scheme res" where
  "disconnectHandle E s c w =
     bindR (run_bound E c (Task_disconnectHandleInLoop s c) (disconnectHandleInLoop E s c) w)
       (\<lambda>w1. Inr (wakeup_loop E w1))"

section \<open>Events and tasks of a process with servers\<close>

definition srv_run_close ::
  "env \<Rightarrow> close_cb \<Rightarrow> nat \<Rightarrow> ('cb, 'z) srv_world_scheme \<Rightarrow> ('cb, 'z) srv_world_scheme res" where
  "srv_run_close E cb c w =
     (case cb of Cb_disconnectHandle s \<Rightarrow> disconnectHandle E s c w | _ \<Rightarrow> Inl Undefined_Behaviour)"

definition srv_set_revs ::
  "channel_ptr \<Rightarrow> u32 \<Rightarrow> ('cb, 'z) srv_world_scheme \<Rightarrow> ('cb, 'z) srv_world_scheme res" where
  "srv_set_revs p ev w =
     (case p of
        Chan_conn c \<Rightarrow> modify c (\<lambda>x. x\<lparr>c_channel := setRevs ev (c_channel x)\<rparr>) w
      | Chan_acceptor s \<Rightarrow> modify_server s (\<lambda>x. x\<lparr>accept_channel := setRevs ev (accept_channel x)\<rparr>) w
      | Chan_wakeup \<Rightarrow> Inr (w\<lparr>wakeup_channel := setRevs ev (wakeup_channel w)\<rparr>)
      | Chan_connector _ \<Rightarrow> Inl Undefined_Behaviour)"

definition srv_handle_event ::
  "env \<Rightarrow> ('cb, ('cb, 'z) srv_world_scheme) hooks \<Rightarrow> channel_ptr
   \<Rightarrow> ('cb, 'z) srv_world_scheme \<Rightarrow> ('cb, 'z) srv_world_scheme res" where
  "srv_handle_event E H p w =
     (case p of
        Chan_conn c \<Rightarrow> conn_handle_event E H c w
      | Chan_acceptor s \<Rightarrow>
          handle_event_guard (\<lambda>v. bindR (the_server s v) (\<lambda>x. Inr (accept_channel x)))
            (\<lambda>cb v. if cb = Cb_acceptNewConnection then acceptNewConnection E H s v else Inr v) w
      | Chan_wakeup \<Rightarrow>
          handle_event_guard (\<lambda>v. Inr (wakeup_channel v))
            (\<lambda>cb v. if cb = Cb_wakeup_callback then Inr (wakeup_callback E v) else Inr v) w
      | Chan_connector _ \<Rightarrow> Inl Undefined_Behaviour)"

definition srv_run_task ::
  "env \<Rightarrow> ('cb, ('cb, 'z) srv_world_scheme) hooks \<Rightarrow> task
   \<Rightarrow> ('cb, 'z) srv_world_scheme \<Rightarrow> ('cb, 'z) srv_world_scheme res" where
  "srv_run_task E H t w =
     (case t of
        Task_handle_close c \<Rightarrow> handle_close E H c w
      | Task_ConnectionConstructor c \<Rightarrow> bindR (ConnectionConstructor E c w) (shared_drop E c)
      | Task_disconnectHandleInLoop s c \<Rightarrow>
          bindR (disconnectHandleInLoop E s c w) (shared_drop E c)
      | _ \<Rightarrow> Inl Undefined_Behaviour)"

definition srv_loop_turn ::
  "env \<Rightarrow> ('cb, ('cb, 'z) srv_world_scheme) hooks \<Rightarrow> ('cb, 'z) srv_world_scheme \<Rightarrow> ('cb, 'z) srv_world_scheme res" where
  "srv_loop_turn E H = loop_turn E srv_set_revs (srv_handle_event E H) (srv_run_task E H)"

definition Server_start ::
  "env \<Rightarrow> ('cb, ('cb, 'z) srv_world_scheme) hooks \<Rightarrow> nat
   \<Rightarrow> ('cb, 'z) srv_world_scheme \<Rightarrow> ('cb, 'z) srv_world_scheme option res" where
  "Server_start E H n w = EventLoop_run E (srv_loop_turn E H) n w"

section \<open>Facts\<close>

lemma the_server_Some [simp]: "servers w s = Some x \<Longrightarrow> the_server s w = Inr x"
  by (simp add: the_server_def)

lemma put_server_simps [simp]:
  "servers (put_server s y w) = (servers w)(s \<mapsto> y)"
  "conns (put_server s y w) = conns w" "hist (put_server s y w) = hist w"
  "epoll_fd (put_server s y w) = epoll_fd w" "wakeup_fd (put_server s y w) = wakeup_fd w"
  "to_do_list (put_server s y w) = to_do_list w" "next_ref (put_server s y w) = next_ref w"
  "in_loop (put_server s y w) = in_loop w" "next_server (put_server s y w) = next_server w"
  "put_server s y (put_server s z w) = put_server s y w"
  "put_conn c x (put_server s y w) = put_server s y (put_conn c x w)"
  "(put_server s y w)\<lparr>hist := h\<rparr> = put_server s y (w\<lparr>hist := h\<rparr>)"
  "(put_server s y w)\<lparr>conns := g\<rparr> = put_server s y (w\<lparr>conns := g\<rparr>)"
  by (simp_all add: put_server_def put_conn_def in_loop_def)

lemma servers_put_conn [simp]:
  "servers (put_conn c x w) = servers w" "next_server (put_conn c x w) = next_server w"
  by (simp_all add: put_conn_def)

lemma put_server_same [simp]: "servers w s = Some y \<Longrightarrow> put_server s y w = w"
  by (simp add: put_server_def fun_upd_idem)

definition woke :: "env \<Rightarrow> int \<Rightarrow> history \<Rightarrow> history" where
  "woke E f h = (let c = Sys_write f (CHR 0x01 # replicate 7 (CHR 0x00)) in (c, kern E h c) # h)"

lemma wakeup_loop_woke: "wakeup_loop E w = w\<lparr>hist := woke E (wakeup_fd w) (hist w)\<rparr>"
  by (simp add: wakeup_loop_def woke_def sysw_simp Let_def)

lemma woke_frame [simp]:
  "f \<notin> F \<Longrightarrow> quiet F h (woke E f h)" "interest (woke E f h) = interest h"
  "closed (woke E f h) = closed h"
  by (auto simp: woke_def quiet_def Let_def fun_eq_iff)

text \<open>What is left of a connection after its server has let it go.\<close>

definition gone :: "env \<Rightarrow> nat \<Rightarrow> 'cb connection \<Rightarrow> int \<Rightarrow> int \<Rightarrow> history \<Rightarrow> history" where
  "gone E c x ep wk h = woke E wk (unwatch E c x ep h)"

lemma gone_frame [simp]:
  "wk \<notin> F \<Longrightarrow> quiet F h (gone E c x ep wk h)"
  "interest (gone E c x ep wk h) = (interest h)(ch_fd (c_channel x) := None)"
  "gone E c (x\<lparr>use_count := n\<rparr>) ep wk h = gone E c x ep wk h"
  using quiet_trans [OF unwatch_frame(1) woke_frame(1)] by (simp_all add: gone_def)

lemma table_erase_Some:
  assumes "servers w s = Some sv" and "map_of (connections sv) i = Some c"
    and "conns w c = Some x" and "1 < use_count x"
  shows "table_erase E s i w =
    Inr (put_server s (sv\<lparr>connections := AList.delete i (connections sv)\<rparr>)
          (put_conn c (x\<lparr>use_count := use_count x - 1\<rparr>) w))"
  using assms by (simp add: table_erase_def)

lemma disconnectHandleInLoop_in_loop:
  assumes "in_loop w" and x: "conns w c = Some x" and "servers w s = Some sv"
    and "map_of (connections sv) (conn_id x) = Some c" and "2 \<le> use_count x"
  shows "disconnectHandleInLoop E s c w =
    Inr (put_server s (sv\<lparr>connections := AList.delete (conn_id x) (connections sv)\<rparr>)
          (put_conn c ((retired x)\<lparr>use_count := use_count x - 1\<rparr>)
            (w\<lparr>hist := unwatch E c x (epoll_fd w) (hist w)\<rparr>)))"
proof -
  let ?sv = "sv\<lparr>connections := AList.delete (conn_id x) (connections sv)\<rparr>"
  let ?w1 = "put_server s ?sv (put_conn c (x\<lparr>use_count := use_count x - 1\<rparr>) w)"
  let ?v = "put_server s ?sv (put_conn c (retired x)
             (w\<lparr>hist := unwatch E c x (epoll_fd w) (hist w)\<rparr>))"
  have "table_erase E s (conn_id x) w = Inr ?w1"
    using table_erase_Some [OF assms(3,4) x] assms(5) by simp
  moreover have "run_bound E c (Task_ConnectionConstructor c) (ConnectionConstructor E c) ?w1
      = Inr (put_conn c ((retired x)\<lparr>use_count := use_count x - 1\<rparr>) ?v)"
    by (subst run_bound_in_loop [where v = ?v and x = "x\<lparr>use_count := use_count x - 1\<rparr>"
          and y = "retired x"])
       (use assms in \<open>simp_all add: ConnectionConstructor_Some\<close>)
  ultimately show ?thesis
    using x by (simp add: disconnectHandleInLoop_def)
qed

lemma disconnectHandle_in_loop:
  assumes "in_loop w" and x: "conns w c = Some x" and "servers w s = Some sv"
    and "map_of (connections sv) (conn_id x) = Some c" and "2 \<le> use_count x"
  shows "disconnectHandle E s c w =
    Inr (put_server s (sv\<lparr>connections := AList.delete (conn_id x) (connections sv)\<rparr>)
          (put_conn c ((retired x)\<lparr>use_count := use_count x - 1\<rparr>)
            (w\<lparr>hist := gone E c x (epoll_fd w) (wakeup_fd w) (hist w)\<rparr>)))"
proof -
  let ?sv = "sv\<lparr>connections := AList.delete (conn_id x) (connections sv)\<rparr>"
  let ?v = "put_server s ?sv (put_conn c (retired x)
             (w\<lparr>hist := unwatch E c x (epoll_fd w) (hist w)\<rparr>))"
  have "disconnectHandleInLoop E s c (put_conn c (x\<lparr>use_count := use_count x + 1\<rparr>) w) = Inr ?v"
    by (subst disconnectHandleInLoop_in_loop [where x = "x\<lparr>use_count := use_count x + 1\<rparr>"])
       (use assms in simp_all)
  from run_bound_in_loop [OF assms(1,2), of "disconnectHandleInLoop E s c", OF this, of "retired x"]
  show ?thesis
    using assms(5) by (simp add: disconnectHandle_def wakeup_loop_woke gone_def)
qed

section \<open>Accepting\<close>

text \<open>A connection as \<^verbatim>\<open>newConnectionHandle\<close> hands it to the connect callback.\<close>

definition fresh_conn :: "nat \<Rightarrow> 'cb server \<Rightarrow> int \<Rightarrow> nat \<Rightarrow> 'cb connection \<Rightarrow> bool" where
  "fresh_conn s sv f c x \<longleftrightarrow>
     client_fd x = f \<and> c_state x = CONNECTED \<and> use_count x = 1
     \<and> on_conn x = s_on_connect sv \<and> on_message x = s_on_message sv
     \<and> on_close x = Some (Cb_disconnectHandle s) \<and> notice_on_close x = None
     \<and> input_buffer x = Buffer_new \<and> output_buffer x = Buffer_new
     \<and> ch_fd (c_channel x) = f \<and> is_epolled (c_channel x) \<and> tie (c_channel x) = Some c
     \<and> listen_events (c_channel x) = 3
     \<and> read_callback (c_channel x) = Some Cb_handle_data_in
     \<and> write_callback (c_channel x) = Some Cb_handle_data_out"

lemma addr_calls:
  obtains l h where "getLocalAddr E f h0 = (l, h)" and "quiet UNIV h0 h" and "interest h = interest h0"
  by (rule that [of "fst (getLocalAddr E f h0)" "snd (getLocalAddr E f h0)"])
     (auto simp: getLocalAddr_def sys_def Let_def quiet_def fun_eq_iff)

lemma peer_calls:
  obtains l h where "getPeerAddr E f h0 = (l, h)" and "quiet UNIV h0 h" and "interest h = interest h0"
  by (rule that [of "fst (getPeerAddr E f h0)" "snd (getPeerAddr E f h0)"])
     (auto simp: getPeerAddr_def sys_def Let_def quiet_def fun_eq_iff)

lemma newConnectionHandle_fresh:
  assumes sv: "servers w s = Some sv" and c: "c = next_ref w"
  obtains x h where
    "newConnectionHandle E H s f w =
       bindR (handle_conn E H c (put_conn c x (w\<lparr>next_ref := Suc c, hist := h\<rparr>)))
         (\<lambda>w6. bindR (deref c w6) (\<lambda>y. table_insert E s (conn_id y) c w6))"
    and "fresh_conn s sv f c x" and "watched f (Chan_conn c) (hist w) h"
    and "\<exists>h0. conn_id x = ret (kern E h0 Sys_random)"
proof -
  obtain l h1 where l: "getLocalAddr E f (hist w) = (l, h1)" "quiet UNIV (hist w) h1"
    "interest h1 = interest (hist w)" by (rule addr_calls)
  obtain q h2 where q: "getPeerAddr E f h1 = (q, h2)" "quiet UNIV h1 h2" "interest h2 = interest h1"
    by (rule peer_calls)
  obtain x3 h3 where x3: "Connection_new E f l q (w\<lparr>hist := h2\<rparr>) =
      (c, put_conn c x3 (w\<lparr>next_ref := Suc c, hist := h3\<rparr>))"
      "blank_conn f x3" "watched f (Chan_conn c) h2 h3" "conn_id x3 = ret (kern E h2 Sys_random)"
    using Connection_new_blank [of E f l q "w\<lparr>hist := h2\<rparr>"] c by auto
  let ?w3 = "put_conn c x3 (w\<lparr>next_ref := Suc c, hist := h3\<rparr>)"
  obtain h4 where h4: "set_nonblocking E c ?w3 = Inr (?w3\<lparr>hist := h4\<rparr>)" "quiet UNIV h3 h4"
    "interest h4 = interest h3" using set_nonblocking_Some [of ?w3 c x3 E] by auto
  let ?x5 = "x3\<lparr>on_conn := s_on_connect sv, on_message := s_on_message sv,
      on_close := Some (Cb_disconnectHandle s)\<rparr>"
  let ?w5 = "put_conn c ?x5 (w\<lparr>next_ref := Suc c, hist := h4\<rparr>)"
  obtain h6 where h6: "ConnectionEstablished E H c ?w5 =
      handle_conn E H c (put_conn c (?x5\<lparr>c_channel := (c_channel ?x5)\<lparr>tie := Some c\<rparr>, c_state := CONNECTED\<rparr>)
        (?w5\<lparr>hist := h6\<rparr>))" "quiet UNIV h4 h6"
      "interest h4 f = Some (3, Chan_conn c) \<Longrightarrow> interest h6 = interest h4"
    using ConnectionEstablished_Some [of ?w5 c ?x5 f E H] x3(2) by (auto simp: blank_conn_def)
  show ?thesis
  proof (rule that)
    show "fresh_conn s sv f c (?x5\<lparr>c_channel := (c_channel ?x5)\<lparr>tie := Some c\<rparr>, c_state := CONNECTED\<rparr>)"
      using x3(2) by (simp add: blank_conn_def fresh_conn_def)
    show "\<exists>h0. conn_id (?x5\<lparr>c_channel := (c_channel ?x5)\<lparr>tie := Some c\<rparr>, c_state := CONNECTED\<rparr>)
        = ret (kern E h0 Sys_random)"
      using x3(4) by auto
    show "watched f (Chan_conn c) (hist w) h6"
      using l q x3(3) h4 h6(2,3) by (auto simp: watched_def quiet_def)
    show "newConnectionHandle E H s f w =
       bindR (handle_conn E H c (put_conn c (?x5\<lparr>c_channel := (c_channel ?x5)\<lparr>tie := Some c\<rparr>,
           c_state := CONNECTED\<rparr>) (w\<lparr>next_ref := Suc c, hist := h6\<rparr>)))
         (\<lambda>w6. bindR (deref c w6) (\<lambda>y. table_insert E s (conn_id y) c w6))"
      using sv by (simp add: newConnectionHandle_def l(1) q(1) x3(1) h4(1) set_conn_handle_def
          set_message_handle_def set_close_handle_def h6(1))
  qed
qed

section \<open>Closing\<close>

text \<open>The state in which the close notice of a connection runs.\<close>

definition let_go ::
  "env \<Rightarrow> nat \<Rightarrow> 'cb server \<Rightarrow> nat \<Rightarrow> 'cb connection
   \<Rightarrow> ('cb, 'z) srv_world_scheme \<Rightarrow> ('cb, 'z) srv_world_scheme" where
  "let_go E s sv c x w =
     put_server s (sv\<lparr>connections := AList.delete (conn_id x) (connections sv)\<rparr>)
       (put_conn c ((retired x)\<lparr>use_count := use_count x - 1\<rparr>)
         (w\<lparr>hist := gone E c x (epoll_fd w) (wakeup_fd w) (hist w)\<rparr>))"

lemma handle_close_server:
  assumes "in_loop w" and x: "conns w c = Some x" and st: "c_state x \<noteq> DISCONNECTED"
    and cl: "on_close x = Some (Cb_disconnectHandle s)" "run_close H = srv_run_close E"
    and sv: "servers w s = Some sv" "map_of (connections sv) (conn_id x) = Some c"
    and uc: "2 \<le> use_count x"
  shows "handle_close E H c w =
    bindR (case notice_on_close x of
             Some cb \<Rightarrow> run_cb H cb None (let_go E s sv c x w)
           | None \<Rightarrow> Inr (let_go E s sv c x w))
      (modify c (\<lambda>z. z\<lparr>c_state := DISCONNECTED\<rparr>))"
proof -
  let ?x1 = "x\<lparr>use_count := use_count x + 1\<rparr>"
  let ?w1 = "put_conn c ?x1 w"
  have "disconnectHandle E s c ?w1 = Inr (let_go E s sv c ?x1 ?w1)"
    by (subst disconnectHandle_in_loop [where x = ?x1]) (use assms in \<open>simp_all add: let_go_def\<close>)
  then have "holding E c (srv_run_close E (Cb_disconnectHandle s) c) w =
      Inr (put_conn c ((retired x)\<lparr>use_count := use_count x - 1\<rparr>) (let_go E s sv c ?x1 ?w1))"
    by (subst holding_Some [OF x, of _ "let_go E s sv c ?x1 ?w1" "retired x"])
       (use uc in \<open>simp_all add: srv_run_close_def let_go_def\<close>)
  also have "\<dots> = Inr (let_go E s sv c x w)" by (simp add: let_go_def)
  finally have h: "holding E c (srv_run_close E (Cb_disconnectHandle s) c) w = Inr (let_go E s sv c x w)" .
  have "conns (let_go E s sv c x w) c = Some ((retired x)\<lparr>use_count := use_count x - 1\<rparr>)"
    by (simp add: let_go_def)
  then show ?thesis
    using x st cl h by (simp add: handle_close_def)
qed

lemma let_go_simps [simp]:
  "conns (let_go E s sv c x w) = (conns w)(c \<mapsto> (retired x)\<lparr>use_count := use_count x - 1\<rparr>)"
  "servers (let_go E s sv c x w) =
     (servers w)(s \<mapsto> sv\<lparr>connections := AList.delete (conn_id x) (connections sv)\<rparr>)"
  "hist (let_go E s sv c x w) = gone E c x (epoll_fd w) (wakeup_fd w) (hist w)"
  "in_loop (let_go E s sv c x w) = in_loop w"
  "epoll_fd (let_go E s sv c x w) = epoll_fd w" "wakeup_fd (let_go E s sv c x w) = wakeup_fd w"
  by (simp_all add: let_go_def)

section \<open>Listening\<close>

text \<open>A kernel on which binding and listening succeed.\<close>

definition can_listen :: "env \<Rightarrow> bool" where
  "can_listen E \<longleftrightarrow> (\<forall>h f a n. ret (kern E h (Sys_bind f a)) = 0 \<and> ret (kern E h (Sys_listen f n)) = 0)"

lemma listen_masks [simp]:
  "(ucast (EPOLLET OR 3) :: u16) = 3" "(ucast (3 OR EPOLLET) :: u16) = 3"
  by (simp_all add: EPOLLET_def)

lemma Acceptor_new_ok:
  assumes ok: "can_listen E"
  obtains sk ch h where "Acceptor_new E s addr n w = Inr (sk, ch, w\<lparr>hist := h\<rparr>)"
    and "quiet UNIV (hist w) h" and "Sys_bind (fd sk) addr \<in> fst ` set h"
    and "Sys_listen (fd sk) n \<in> fst ` set h"
    and "interest (hist w) (fd sk) = None \<Longrightarrow>
         interest h = (interest (hist w))(fd sk \<mapsto> (3, Chan_acceptor s))"
    and "ch_fd ch = fd sk" and "read_callback ch = Some Cb_acceptNewConnection"
proof -
  let ?r = "kern E (hist w) (Sys_socket False)"
  let ?f = "ret ?r" and ?h0 = "(Sys_socket False, ?r) # hist w"
  let ?b = "Sys_bind ?f addr" and ?l = "Sys_listen ?f n"
  let ?h1 = "(?b, kern E ?h0 ?b) # ?h0"
  let ?h2 = "(?l, kern E ?h1 ?l) # ?h1"
  let ?add = "Sys_epoll_ctl (epoll_fd w) EPOLL_CTL_ADD ?f 3 (Chan_acceptor s)"
  let ?upd = "Sys_epoll_ctl (epoll_fd w) EPOLL_CTL_MOD ?f 3 (Chan_acceptor s)"
  let ?h3 = "(?add, kern E ?h2 ?add) # ?h2"
  let ?h4 = "(?upd, kern E ?h3 ?upd) # ?h3"
  let ?h5 = "(?upd, kern E ?h4 ?upd) # ?h4"
  let ?ch = "(Channel_new ?f)\<lparr>read_callback := Some Cb_acceptNewConnection, listen_events := 3, is_epolled := True\<rparr>"
  have "Acceptor_new E s addr n w = Inr (\<lparr>fd = ?f, is_nonblock = Some False\<rparr>, ?ch, w\<lparr>hist := ?h5\<rparr>)"
    using ok
    by (simp add: can_listen_def Acceptor_new_def TcpSocket_new_def TcpSocket_bind_def
        TcpSocket_listen_def errif_def sys_def Let_def set_read_callback_def enableRead_def
        set_et_def Epoll_update_channel_def Channel_new_def sysw_simp)
  then show ?thesis
    by (rule that) (auto simp: quiet_def fun_eq_iff Channel_new_def)
qed

lemma Server_new_ok:
  assumes "can_listen E"
  obtains x h where "Server_new E addr n w =
      Inr (next_server w, put_server (next_server w) x (w\<lparr>next_server := Suc (next_server w), hist := h\<rparr>))"
    and "quiet UNIV (hist w) h" and "Sys_bind (fd (sock x)) addr \<in> fst ` set h"
    and "Sys_listen (fd (sock x)) n \<in> fst ` set h"
    and "interest (hist w) (fd (sock x)) = None \<Longrightarrow>
         interest h = (interest (hist w))(fd (sock x) \<mapsto> (3, Chan_acceptor (next_server w)))"
    and "new_connection_callback x" and "connections x = []"
    and "s_on_connect x = None" and "s_on_message x = None"
proof -
  let ?s = "next_server w"
  obtain sk ch h where a: "Acceptor_new E ?s addr n w = Inr (sk, ch, w\<lparr>hist := h\<rparr>)"
    "quiet UNIV (hist w) h" "Sys_bind (fd sk) addr \<in> fst ` set h" "Sys_listen (fd sk) n \<in> fst ` set h"
    "interest (hist w) (fd sk) = None \<Longrightarrow>
         interest h = (interest (hist w))(fd sk \<mapsto> (3, Chan_acceptor ?s))"
    by (rule Acceptor_new_ok [OF assms, of ?s addr n w]) (rule that)
  let ?x = "\<lparr>sock = sk, accept_channel = ch, new_connection_callback = True, connections = [],
      s_on_connect = None, s_on_message = None, s_on_disconnect = None\<rparr>"
  have "Server_new E addr n w =
      Inr (?s, put_server ?s ?x (w\<lparr>next_server := Suc ?s, hist := h\<rparr>))"
    by (simp add: Server_new_def a(1) set_new_connection_callback_def put_server_def Let_def)
  then show ?thesis
    by (rule that) (use a in simp_all)
qed

lemma Server_new_bind_fails:
  assumes "kern E (hist w) (Sys_socket False) = r"
    and "ret (kern E ((Sys_socket False, r) # hist w) (Sys_bind (ret r) addr)) \<noteq> 0"
  shows "Server_new E addr n w = Inl (Exit_Failure ''tcp bind error'')"
  using assms
  by (simp add: Server_new_def Acceptor_new_def TcpSocket_new_def TcpSocket_bind_def errif_def
      sys_def Let_def)

end
