(* ===== verification/Protocol.thy ===== *)
theory Protocol
  imports Framing Reactor
begin

text \<open>
  The tunnel protocol on the wire, shared by server and client: each message as the senders
  serialize and frame it, and what a receiver that has the frame at the front of its buffer reads
  back. The generator of nonces and ids is here too.
\<close>

section \<open>Framed messages\<close>

text \<open>\<^verbatim>\<open>SerializeAsString\<close> and \<^verbatim>\<open>HeaderInstaller\<close>, as every sender applies them.\<close>

definition framed_Hello :: "wire_lib \<Rightarrow> Hello \<Rightarrow> bytes" where
  "framed_Hello W h =
     headerInstaller W (SerializeAsString W (Hello_ByteSizeLong W h) (Hello_InternalSerialize W h))"

definition framed_ControlChannelCmd :: "wire_lib \<Rightarrow> ControlChannelCmd \<Rightarrow> bytes" where
  "framed_ControlChannelCmd W m =
     headerInstaller W
       (SerializeAsString W (ControlChannelCmd_ByteSizeLong W m) (ControlChannelCmd_InternalSerialize W m))"

definition framed_DataChannelCmd :: "wire_lib \<Rightarrow> DataChannelCmd \<Rightarrow> bytes" where
  "framed_DataChannelCmd W m =
     headerInstaller W
       (SerializeAsString W (DataChannelCmd_ByteSizeLong W m) (DataChannelCmd_InternalSerialize W m))"

text \<open>\<^verbatim>\<open>UUID::GenerateUUIDAsString\<close>: what the Boost generator answers.\<close>

definition GenerateUUIDAsString :: "env \<Rightarrow> 'z reactor_scheme \<Rightarrow> bytes \<times> 'z reactor_scheme" where
  "GenerateUUIDAsString E w = (let (r, w1) = sysw E Sys_uuid w in (data r, w1))"

text \<open>The messages of the sources, as they are built there.\<close>

definition control_reply :: "bytes \<Rightarrow> Hello" where
  "control_reply nonce = set_digest nonce (set_hello_type CONTROL_CHANNEL_HELLO Hello_new)"

definition data_hello :: "bytes \<Rightarrow> Hello" where
  "data_hello nonce = set_digest nonce (set_hello_type DATA_CHANNEL_HELLO Hello_new)"

definition control_hello :: "bytes \<Rightarrow> u16 \<Rightarrow> Hello" where
  "control_hello name port =
     mutable_hello_content (\<lambda>c. set_proxy_port (ucast port) (set_service_name name c))
       (set_hello_type CONTROL_CHANNEL_HELLO Hello_new)"

section \<open>Reading back\<close>

lemma digest_hello_fields:
  "hello_type (control_reply s) = CONTROL_CHANNEL_HELLO" "digest (control_reply s) = s"
  "hello_type (data_hello s) = DATA_CHANNEL_HELLO" "digest (data_hello s) = s"
  by (simp_all add: control_reply_def data_hello_def set_digest_def set_hello_type_def Hello_new_def)

context protobuf_runtime
begin

lemma digest_hello_canonical:
  assumes "valid_utf8 W s" and "length s < 2 ^ 31"
  shows "Hello_canonical W (control_reply s)" and "Hello_canonical W (data_hello s)"
  using assms
  by (simp_all add: control_reply_def data_hello_def set_digest_def set_hello_type_def Hello_new_def
      Hello_canonical_def)

text \<open>Any \<^verbatim>\<open>Hello\<close> within the size limit, sent by one side, is what the other side's handler parses.\<close>

lemma hello_frame:
  assumes "Hello_canonical W h" and "0 < Hello_ByteSizeLong W h" and "Hello_ByteSizeLong W h < 2 ^ 31"
    and "buf_ok b" and "contents b = framed_Hello W h @ rest"
  obtains m b' where "take_message W b = Inr (Some m, b')" and "parse_Hello W m = (True, h)"
    and "buf_ok b'" and "contents b' = rest" and "unat (write_index b') \<le> unat (write_index b)"
proof -
  let ?m = "Hello_InternalSerialize W h"
  have m: "?m \<noteq> []" "length ?m < 2 ^ 32" using assms(2,3) hello_size [of h] by auto
  have "contents b = headerInstaller W ?m @ rest"
    using assms(3,5) by (simp add: framed_Hello_def serialize_body)
  from take_message_complete [OF assms(4) m this] that parse_hello [OF assms(1)]
  show ?thesis by metis
qed

lemma digest_hello_size:
  assumes "length s < 2 ^ 30"
  shows "0 < Hello_ByteSizeLong W (control_reply s)" "Hello_ByteSizeLong W (control_reply s) < 2 ^ 31"
    and "0 < Hello_ByteSizeLong W (data_hello s)" "Hello_ByteSizeLong W (data_hello s) < 2 ^ 31"
  using assms string_size_bound [of s] enum_size_bound [of CONTROL_CHANNEL_HELLO]
    enum_size_bound [of DATA_CHANNEL_HELLO]
  by (simp_all add: control_reply_def data_hello_def set_digest_def set_hello_type_def Hello_new_def
      Hello_ByteSizeLong_def)

text \<open>The first message of a control channel, with the service name and the port to expose.\<close>

lemma control_hello_canonical:
  assumes "valid_utf8 W name" and "valid_utf8 W []" and "length name < 2 ^ 30"
  shows "Hello_canonical W (control_hello name port)"
  using assms
  by (simp add: control_hello_def mutable_hello_content_def set_service_name_def set_proxy_port_def
      set_hello_type_def Hello_new_def Hello_Content_new_def Hello_canonical_def
      Hello_Content_canonical_def)

lemma control_hello_size:
  assumes "length name < 2 ^ 30"
  shows "0 < Hello_ByteSizeLong W (control_hello name port)"
    and "Hello_ByteSizeLong W (control_hello name port) < 2 ^ 31"
proof -
  let ?c = "set_proxy_port (ucast port) (set_service_name name Hello_Content_new)"
  have "Hello_Content_ByteSizeLong W ?c \<le> length name + 22"
    using string_size_bound [of name] int32_size_bound [of "ucast port"] assms
    by (simp add: Hello_Content_ByteSizeLong_def set_proxy_port_def set_service_name_def
        Hello_Content_new_def)
  then have "MessageSize W (Hello_Content_ByteSizeLong W ?c) \<le> length name + 32"
    using message_size_bound [of "Hello_Content_ByteSizeLong W ?c"] assms by simp
  then show "0 < Hello_ByteSizeLong W (control_hello name port)"
    and "Hello_ByteSizeLong W (control_hello name port) < 2 ^ 31"
    using assms enum_size_bound [of CONTROL_CHANNEL_HELLO]
    by (simp_all add: control_hello_def mutable_hello_content_def set_hello_type_def Hello_new_def
        Hello_ByteSizeLong_def control_channel_hello_content_def)
qed

lemma cmd_body: "WriteEnumToArray W 1 v \<noteq> []" "length (WriteEnumToArray W 1 v) < 2 ^ 32"
  using enum_length [of 1 v] enum_size_bound [of v] by auto

lemma control_cmd_frame:
  assumes "buf_ok b"
    and "contents b = framed_ControlChannelCmd W (set_control_channel_cmd v ControlChannelCmd_new) @ rest"
  obtains m b' where "take_message W b = Inr (Some m, b')"
    and "control_channel_cmd (snd (parse_ControlChannelCmd W m)) = v"
    and "buf_ok b'" and "contents b' = rest" and "unat (write_index b') \<le> unat (write_index b)"
proof -
  have "contents b = headerInstaller W (WriteEnumToArray W 1 v) @ rest"
    using assms(2) enum_size_bound [of v]
    by (simp add: framed_ControlChannelCmd_def set_control_channel_cmd_def ControlChannelCmd_new_def
        ControlChannelCmd_ByteSizeLong_def ControlChannelCmd_InternalSerialize_def serialize_body)
  from take_message_complete [OF assms(1) cmd_body this] that parse_control_cmd [of v]
  show ?thesis by (metis ControlChannelCmd.select_convs(2) snd_conv)
qed

lemma data_cmd_frame:
  assumes "buf_ok b"
    and "contents b = framed_DataChannelCmd W (set_data_channel_cmd v DataChannelCmd_new) @ rest"
  obtains m b' where "take_message W b = Inr (Some m, b')"
    and "data_channel_cmd (snd (parse_DataChannelCmd W m)) = v"
    and "buf_ok b'" and "contents b' = rest" and "unat (write_index b') \<le> unat (write_index b)"
proof -
  have "contents b = headerInstaller W (WriteEnumToArray W 1 v) @ rest"
    using assms(2) enum_size_bound [of v]
    by (simp add: framed_DataChannelCmd_def set_data_channel_cmd_def DataChannelCmd_new_def
        DataChannelCmd_ByteSizeLong_def DataChannelCmd_InternalSerialize_def serialize_body)
  from take_message_complete [OF assms(1) cmd_body this] that parse_data_cmd [of v]
  show ?thesis by (metis DataChannelCmd.select_convs(2) snd_conv)
qed

end

lemma ucast_u32_u16: "ucast (ucast (p :: u16) :: u32) = p"
  by (rule bit_word_eqI) (auto simp: bit_simps)

lemma control_hello_fields:
  "hello_type (control_hello name port) = CONTROL_CHANNEL_HELLO"
  "service_name (control_channel_hello_content (control_hello name port)) = name"
  "ucast (proxy_port (control_channel_hello_content (control_hello name port))) = port"
  by (simp_all add: control_hello_def mutable_hello_content_def set_service_name_def
      set_proxy_port_def set_hello_type_def Hello_new_def Hello_Content_new_def
      control_channel_hello_content_def ucast_u32_u16)

end
