(* ===== verification/NcxServer.thy ===== *)
theory NcxServer
  imports Server Protocol
begin

text \<open>
  The tunnel server \<^verbatim>\<open>ncxs\<close> (\<^verbatim>\<open>ncx_server/\<close>): \<^verbatim>\<open>NServer\<close> accepts control and data channels on one port,
  \<^verbatim>\<open>SControlChannel\<close> accepts the visitors of one tunnel on its proxy port and queues them until a
  data channel arrives, and a \<^verbatim>\<open>BridgeCloser\<close> ties the two ends of a bridge together so that the
  end of one closes the other.

  The closures the server installs are the values of \<open>srv_cb\<close>; \<open>srv_run_cb\<close> is the code they run. A
  callback can run another one (a write that fails closes a connection, which cuts a bridge, which
  closes its other end), so \<open>srv_run_cb\<close> takes the nesting depth it may use.
\<close>

section \<open>State\<close>

datatype srv_cb =
    Cb_handle_new_connection
  | Cb_handle_new_outside nat
  | Cb_forward nat
  | Cb_cut_bridge nat

record BridgeCloser =
  bridge_id :: bytes
  bridge_inside :: nat
  bridge_outside :: nat
  delete_bridge :: "nat option"
  bc_count :: nat

record SControlChannel =
  ncx_client_conn :: nat
  proxy_server :: nat
  wait_handle_visitors :: "nat list"
  bridge_closers :: "(bytes \<times> nat) list"

record NServer = "srv_cb srv_world" +
  server_addr :: sockaddr_in
  args_backlog :: int
  ncx_acceptor :: nat
  sc_map :: "(bytes \<times> nat) list"
  scs :: "nat \<Rightarrow> SControlChannel option"
  next_sc :: nat
  bridges :: "nat \<Rightarrow> BridgeCloser option"
  next_bridge :: nat

type_synonym srv_hooks = "(srv_cb, NServer) hooks"

definition the_sc :: "nat \<Rightarrow> NServer \<Rightarrow> SControlChannel res" where
  "the_sc k w = (case scs w k of None \<Rightarrow> Inl Undefined_Behaviour | Some x \<Rightarrow> Inr x)"

definition put_sc :: "nat \<Rightarrow> SControlChannel \<Rightarrow> NServer \<Rightarrow> NServer" where
  "put_sc k x w = w\<lparr>scs := (scs w)(k \<mapsto> x)\<rparr>"

definition the_bridge :: "nat \<Rightarrow> NServer \<Rightarrow> BridgeCloser res" where
  "the_bridge b w = (case bridges w b of None \<Rightarrow> Inl Undefined_Behaviour | Some x \<Rightarrow> Inr x)"

definition put_bridge :: "nat \<Rightarrow> BridgeCloser \<Rightarrow> NServer \<Rightarrow> NServer" where
  "put_bridge b x w = w\<lparr>bridges := (bridges w)(b \<mapsto> x)\<rparr>"

section \<open>BridgeCloser\<close>

definition BridgeCloser_new :: "env \<Rightarrow> nat \<Rightarrow> nat \<Rightarrow> NServer \<Rightarrow> nat \<times> NServer" where
  "BridgeCloser_new E inside outside w =
     (let b = next_bridge w; (i, w1) = GenerateUUIDAsString E w;
          x = \<lparr>bridge_id = i, bridge_inside = inside, bridge_outside = outside,
               delete_bridge = None, bc_count = 1\<rparr>
      in (b, (put_bridge b x w1)\<lparr>next_bridge := Suc b\<rparr>))"

text \<open>\<^verbatim>\<open>if (auto p = weak.lock()) p->force_close();\<close>\<close>

definition lock_force_close :: "env \<Rightarrow> srv_hooks \<Rightarrow> nat \<Rightarrow> NServer \<Rightarrow> NServer res" where
  "lock_force_close E H c w = (if expired c w then Inr w else holding E c (force_close E H c) w)"

text \<open>The count has reached zero when the destructor runs: no weak pointer locks any more.\<close>

definition BridgeCloser_destroy :: "env \<Rightarrow> srv_hooks \<Rightarrow> nat \<Rightarrow> NServer \<Rightarrow> NServer res" where
  "BridgeCloser_destroy E H b w =
     bindR (the_bridge b w) (\<lambda>x.
     bindR (lock_force_close E H (bridge_inside x) (w\<lparr>bridges := (bridges w)(b := None)\<rparr>))
       (lock_force_close E H (bridge_outside x)))"

definition bridge_drop :: "env \<Rightarrow> srv_hooks \<Rightarrow> nat \<Rightarrow> NServer \<Rightarrow> NServer res" where
  "bridge_drop E H b w =
     bindR (the_bridge b w) (\<lambda>x.
       if bc_count x \<le> 1 then BridgeCloser_destroy E H b w
       else Inr (put_bridge b (x\<lparr>bc_count := bc_count x - 1\<rparr>) w))"

section \<open>SControlChannel\<close>

definition SControlChannel_new ::
  "env \<Rightarrow> nat \<Rightarrow> sockaddr_in \<Rightarrow> int \<Rightarrow> NServer \<Rightarrow> (nat \<times> NServer) res" where
  "SControlChannel_new E c proxy_addr backlog w =
     (let k = next_sc w in
      bindR (shared_copy c w) (\<lambda>w1.
      bindR (Server_new E proxy_addr backlog w1) (\<lambda>(s, w2).
      bindR (bind_on_connect s (Cb_handle_new_outside k) w2) (\<lambda>w3.
        Inr (k, (put_sc k \<lparr>ncx_client_conn = c, proxy_server = s, wait_handle_visitors = [],
                           bridge_closers = []\<rparr> w3)\<lparr>next_sc := Suc k\<rparr>)))))"

text \<open>Members go in reverse order of their declaration.\<close>

definition SControlChannel_destroy :: "env \<Rightarrow> srv_hooks \<Rightarrow> nat \<Rightarrow> NServer \<Rightarrow> NServer res" where
  "SControlChannel_destroy E H k w =
     bindR (the_sc k w) (\<lambda>x.
     bindR (foldR (\<lambda>(_, b). bridge_drop E H b) (bridge_closers x) w) (\<lambda>w1.
     bindR (foldR (shared_drop E) (wait_handle_visitors x) w1) (\<lambda>w2.
     bindR (Server_destroy E (proxy_server x) w2) (\<lambda>w3.
     bindR (shared_drop E (ncx_client_conn x) w3) (\<lambda>w4.
       Inr (w4\<lparr>scs := (scs w4)(k := None)\<rparr>))))))"

definition handle_new_outside_connection ::
  "env \<Rightarrow> srv_hooks \<Rightarrow> nat \<Rightarrow> nat \<Rightarrow> NServer \<Rightarrow> NServer res" where
  "handle_new_outside_connection E H k outside_conn w =
     bindR (the_sc k w) (\<lambda>x.
     bindR (shared_copy outside_conn w) (\<lambda>w1.
       let w2 = put_sc k (x\<lparr>wait_handle_visitors := wait_handle_visitors x @ [outside_conn]\<rparr>) w1;
           send_cmd = set_control_channel_cmd CREATE_DATA_CHANNEL ControlChannelCmd_new
       in Send E H (ncx_client_conn x) (framed_ControlChannelCmd (wire E) send_cmd) w2))"

text \<open>The reference the queue held becomes the caller's. \<^verbatim>\<open>front()\<close> of an empty queue is undefined.\<close>

definition pop_visitor :: "nat \<Rightarrow> NServer \<Rightarrow> (nat \<times> NServer) res" where
  "pop_visitor k w =
     bindR (the_sc k w) (\<lambda>x. case wait_handle_visitors x of
        [] \<Rightarrow> Inl Undefined_Behaviour
      | v # vs \<Rightarrow> Inr (v, put_sc k (x\<lparr>wait_handle_visitors := vs\<rparr>) w))"

definition send_cmd :: "env \<Rightarrow> srv_hooks \<Rightarrow> nat \<Rightarrow> bytes \<Rightarrow> NServer \<Rightarrow> NServer res" where
  "send_cmd E H k cmd w = bindR (the_sc k w) (\<lambda>x. Send E H (ncx_client_conn x) cmd w)"

definition register_bridge_closer :: "nat \<Rightarrow> bytes \<Rightarrow> nat \<Rightarrow> NServer \<Rightarrow> NServer res" where
  "register_bridge_closer k i b w =
     bindR (the_sc k w) (\<lambda>x. bindR (the_bridge b w) (\<lambda>y.
       if map_of (bridge_closers x) i = None then
         Inr (put_bridge b (y\<lparr>bc_count := bc_count y + 1\<rparr>)
               (put_sc k (x\<lparr>bridge_closers := (i, b) # bridge_closers x\<rparr>) w))
       else Inr w))"

definition erase_bridge_closer :: "env \<Rightarrow> srv_hooks \<Rightarrow> nat \<Rightarrow> bytes \<Rightarrow> NServer \<Rightarrow> NServer res" where
  "erase_bridge_closer E H k i w =
     bindR (the_sc k w) (\<lambda>x. case map_of (bridge_closers x) i of
        None \<Rightarrow> Inr w
      | Some b \<Rightarrow>
          bridge_drop E H b (put_sc k (x\<lparr>bridge_closers := AList.delete i (bridge_closers x)\<rparr>) w))"

definition cut_off_bridge :: "env \<Rightarrow> srv_hooks \<Rightarrow> nat \<Rightarrow> NServer \<Rightarrow> NServer res" where
  "cut_off_bridge E H b w =
     bindR (the_bridge b w) (\<lambda>x. case delete_bridge x of
        None \<Rightarrow> Inl (Thrown ''bad_function_call'')
      | Some k \<Rightarrow> erase_bridge_closer E H k (bridge_id x) w)"

section \<open>NServer\<close>

definition handle_control_channel_hello ::
  "env \<Rightarrow> srv_hooks \<Rightarrow> nat \<Rightarrow> bytes \<Rightarrow> u16 \<Rightarrow> NServer \<Rightarrow> NServer res" where
  "handle_control_channel_hello E H origin_conn name port w =
     (let (nonce, w1) = GenerateUUIDAsString E w;
          control_hello = set_digest nonce (set_hello_type CONTROL_CHANNEL_HELLO Hello_new)
      in bindR (Send E H origin_conn (framed_Hello (wire E) control_hello) w1) (\<lambda>w2.
         bindR (SControlChannel_new E origin_conn (InetAddress E (get_ip E (server_addr w2)) port) 256 w2)
           (\<lambda>(k, w3).
              if map_of (sc_map w3) nonce = None then Inr (w3\<lparr>sc_map := (nonce, k) # sc_map w3\<rparr>)
              else SControlChannel_destroy E H k w3)))"

text \<open>Locals are released at the end in reverse order: the bridge closer, then the visitor.\<close>

definition handle_data_channel_hello ::
  "env \<Rightarrow> srv_hooks \<Rightarrow> nat \<Rightarrow> bytes \<Rightarrow> NServer \<Rightarrow> NServer res" where
  "handle_data_channel_hello E H origin_conn nonce w =
     (case map_of (sc_map w) nonce of
        None \<Rightarrow> Inl Out_Of_Range
      | Some k \<Rightarrow>
          bindR (pop_visitor k w) (\<lambda>(visitor, w1).
          bindR (set_message_handle visitor (Some (Cb_forward origin_conn)) w1) (\<lambda>w2.
          bindR (set_message_handle origin_conn (Some (Cb_forward visitor)) w2) (\<lambda>w3.
          let (b, w4) = BridgeCloser_new E visitor origin_conn w3 in
          bindR (the_bridge b w4) (\<lambda>x.
          let w5 = put_bridge b (x\<lparr>delete_bridge := Some k\<rparr>) w4 in
          bindR (set_close_notice visitor (Cb_cut_bridge b) w5) (\<lambda>w6.
          bindR (set_close_notice origin_conn (Cb_cut_bridge b) w6) (\<lambda>w7.
          bindR (register_bridge_closer k (bridge_id x) b w7) (\<lambda>w8.
          let data_cmd = set_data_channel_cmd START_FORWARD_TCP DataChannelCmd_new in
          bindR (Send E H origin_conn (framed_DataChannelCmd (wire E) data_cmd) w8) (\<lambda>w9.
          bindR (deref visitor w9) (\<lambda>v.
          bindR (if 0 < readAbleBytes (input_buffer v) then handle_message E H visitor w9 else Inr w9)
            (\<lambda>w10.
          bindR (bridge_drop E H b w10) (shared_drop E visitor))))))))))))"

definition handle_new_connection ::
  "env \<Rightarrow> srv_hooks \<Rightarrow> nat \<Rightarrow> NServer \<Rightarrow> NServer res" where
  "handle_new_connection E H origin_conn w =
     bindR (deref origin_conn w) (\<lambda>x.
     bindR (take_message (wire E) (input_buffer x)) (\<lambda>(msg, buf).
       let w1 = put_conn origin_conn (x\<lparr>input_buffer := buf\<rparr>) w in
       case msg of
         None \<Rightarrow> Inr w1
       | Some recv_msg \<Rightarrow>
           (let hello = snd (parse_Hello (wire E) recv_msg) in
            if hello_type hello = CONTROL_CHANNEL_HELLO then
              handle_control_channel_hello E H origin_conn
                (service_name (control_channel_hello_content hello))
                (ucast (proxy_port (control_channel_hello_content hello))) w1
            else if hello_type hello = DATA_CHANNEL_HELLO then
              handle_data_channel_hello E H origin_conn (digest hello) w1
            else Inr w1)))"

section \<open>Closures\<close>

definition forward_cb :: "env \<Rightarrow> srv_hooks \<Rightarrow> nat \<Rightarrow> nat \<Rightarrow> NServer \<Rightarrow> NServer res" where
  "forward_cb E H peer conn w =
     bindR (deref conn w) (\<lambda>x.
       if 0 < readAbleBytes (input_buffer x) then
         (if expired peer w then Inr w
          else relay E H peer conn w)
       else Inr w)"

definition cut_bridge_cb :: "env \<Rightarrow> srv_hooks \<Rightarrow> nat \<Rightarrow> NServer \<Rightarrow> NServer res" where
  "cut_bridge_cb E H b w =
     (case bridges w b of
        None \<Rightarrow> Inr w
      | Some x \<Rightarrow>
          bindR (cut_off_bridge E H b (put_bridge b (x\<lparr>bc_count := bc_count x + 1\<rparr>) w))
            (bridge_drop E H b))"

primrec srv_run_cb :: "env \<Rightarrow> nat \<Rightarrow> srv_cb \<Rightarrow> nat option \<Rightarrow> NServer \<Rightarrow> NServer res" where
  "srv_run_cb E 0 = (\<lambda>cb a w. Inl Fuel_Exhausted)"
| "srv_run_cb E (Suc n) = (\<lambda>cb a w.
     let H = \<lparr>run_cb = srv_run_cb E n, run_close = srv_run_close E\<rparr> in
     case cb of
       Cb_handle_new_connection \<Rightarrow>
         (case a of Some c \<Rightarrow> handle_new_connection E H c w | None \<Rightarrow> Inl Undefined_Behaviour)
     | Cb_handle_new_outside k \<Rightarrow>
         (case a of Some c \<Rightarrow> handle_new_outside_connection E H k c w | None \<Rightarrow> Inl Undefined_Behaviour)
     | Cb_forward peer \<Rightarrow>
         (case a of Some c \<Rightarrow> forward_cb E H peer c w | None \<Rightarrow> Inl Undefined_Behaviour)
     | Cb_cut_bridge b \<Rightarrow> cut_bridge_cb E H b w)"

definition srv_hooks :: "env \<Rightarrow> nat \<Rightarrow> srv_hooks" where
  "srv_hooks E n = \<lparr>run_cb = srv_run_cb E n, run_close = srv_run_close E\<rparr>"

section \<open>The process\<close>

definition NServer_new :: "env \<Rightarrow> sockaddr_in \<Rightarrow> int \<Rightarrow> NServer \<Rightarrow> NServer res" where
  "NServer_new E addr backlog w =
     bindR (EventLoop_new E (w\<lparr>server_addr := addr, args_backlog := backlog\<rparr>)) (\<lambda>w1.
     bindR (Server_new E (server_addr w1) (args_backlog w1) w1) (\<lambda>(s, w2).
       bind_on_message s Cb_handle_new_connection (w2\<lparr>ncx_acceptor := s, sc_map := []\<rparr>)))"

definition srv_turn :: "env \<Rightarrow> nat \<Rightarrow> NServer \<Rightarrow> NServer res" where
  "srv_turn E n w =
     loop_turn E srv_set_revs (srv_handle_event E (srv_hooks E n)) (srv_run_task E (srv_hooks E n)) w"

definition run_server :: "env \<Rightarrow> nat \<Rightarrow> nat \<Rightarrow> NServer \<Rightarrow> NServer option res" where
  "run_server E depth n w = EventLoop_run E (srv_turn E depth) n w"

section \<open>Facts\<close>

lemma the_sc_Some [simp]: "scs w k = Some x \<Longrightarrow> the_sc k w = Inr x"
  by (simp add: the_sc_def)

lemma the_bridge_Some [simp]: "bridges w b = Some x \<Longrightarrow> the_bridge b w = Inr x"
  by (simp add: the_bridge_def)

lemma put_sc_simps [simp]:
  "scs (put_sc k x w) = (scs w)(k \<mapsto> x)" "bridges (put_sc k x w) = bridges w"
  "conns (put_sc k x w) = conns w" "hist (put_sc k x w) = hist w" "servers (put_sc k x w) = servers w"
  "in_loop (put_sc k x w) = in_loop w" "sc_map (put_sc k x w) = sc_map w"
  "epoll_fd (put_sc k x w) = epoll_fd w" "wakeup_fd (put_sc k x w) = wakeup_fd w"
  by (simp_all add: put_sc_def in_loop_def)

lemma put_bridge_simps [simp]:
  "bridges (put_bridge b x w) = (bridges w)(b \<mapsto> x)" "scs (put_bridge b x w) = scs w"
  "conns (put_bridge b x w) = conns w" "hist (put_bridge b x w) = hist w"
  "servers (put_bridge b x w) = servers w" "in_loop (put_bridge b x w) = in_loop w"
  "sc_map (put_bridge b x w) = sc_map w"
  "epoll_fd (put_bridge b x w) = epoll_fd w" "wakeup_fd (put_bridge b x w) = wakeup_fd w"
  by (simp_all add: put_bridge_def in_loop_def)

lemma NServer_put_conn [simp]:
  "scs (put_conn c x w) = scs w" "bridges (put_conn c x w) = bridges w"
  "sc_map (put_conn c x w) = sc_map w" "server_addr (put_conn c x w) = server_addr w"
  "next_sc (put_conn c x w) = next_sc w" "next_bridge (put_conn c x w) = next_bridge w"
  by (simp_all add: put_conn_def)

lemma NServer_put_server [simp]:
  "scs (put_server s x w) = scs w" "bridges (put_server s x w) = bridges w"
  "sc_map (put_server s x w) = sc_map w" "server_addr (put_server s x w) = server_addr w"
  by (simp_all add: put_server_def)

section \<open>Forwarding\<close>

lemma forward_cb_delivers:
  assumes c: "conns w c = Some x" and p: "conns w p = Some y" and ne: "c \<noteq> p" "1 \<le> use_count y"
    and ib: "buf_ok (input_buffer x)" "contents (input_buffer x) \<noteq> []"
    and ob: "buf_ok (output_buffer y)" "contents (output_buffer y) = []"
      "room (output_buffer y) (length (contents (input_buffer x)))"
    and acc: "accepts_all E (client_fd y)" and fuel: "0 < loop_fuel E"
  obtains b where "forward_cb E H p c w =
      Inr (put_conn p (y\<lparr>output_buffer := b\<rparr>)
        (put_conn c (x\<lparr>input_buffer := RetrieveAll (input_buffer x)\<rparr>)
          (w\<lparr>hist := wrote E (client_fd y) (contents (input_buffer x)) (hist w)\<rparr>)))"
    and "buf_ok b" and "contents b = []"
proof (rule relay_delivers [OF c p ne ib(1) ob acc fuel, of H])
  fix b
  assume b: "relay E H p c w =
      Inr (put_conn p (y\<lparr>output_buffer := b\<rparr>)
        (put_conn c (x\<lparr>input_buffer := RetrieveAll (input_buffer x)\<rparr>)
          (w\<lparr>hist := wrote E (client_fd y) (contents (input_buffer x)) (hist w)\<rparr>)))"
    "buf_ok b" "contents b = []"
  have "forward_cb E H p c w = relay E H p c w"
    using c p ib by (simp add: forward_cb_def readable_iff expired_def)
  with b that show ?thesis by metis
qed

lemma forward_cb_expired:
  "conns w c = Some x \<Longrightarrow> conns w p = None \<Longrightarrow> forward_cb E H p c w = Inr w"
  by (simp add: forward_cb_def expired_def)

lemma forward_cb_nothing:
  "conns w c = Some x \<Longrightarrow> buf_ok (input_buffer x) \<Longrightarrow> contents (input_buffer x) = [] \<Longrightarrow>
   forward_cb E H p c w = Inr w"
  by (simp add: forward_cb_def readable_iff)

section \<open>Taking a bridge down\<close>

lemma NServer_let_go [simp]:
  "scs (let_go E s sv c x w) = scs w" "bridges (let_go E s sv c x w) = bridges w"
  "sc_map (let_go E s sv c x w) = sc_map w"
  by (simp_all add: let_go_def)

lemma srv_hooks_simps [simp]:
  "run_cb (srv_hooks E n) = srv_run_cb E n" "run_close (srv_hooks E n) = srv_run_close E"
  by (simp_all add: srv_hooks_def)

lemma srv_run_cb_cut:
  "srv_run_cb E (Suc n) (Cb_cut_bridge b) a w = cut_bridge_cb E (srv_hooks E n) b w"
  by (simp add: srv_hooks_def)

lemma cut_bridge_cb_gone: "bridges w b = None \<Longrightarrow> cut_bridge_cb E H b w = Inr w"
  by (simp add: cut_bridge_cb_def)

text \<open>The far end of a bridge: released by its server, unwatched, closed and destroyed.\<close>

definition far_end_hist :: "env \<Rightarrow> nat \<Rightarrow> srv_cb connection \<Rightarrow> int \<Rightarrow> int \<Rightarrow> history \<Rightarrow> history" where
  "far_end_hist E d y ep wk h =
     (let h1 = gone E d (y\<lparr>c_state := DISCONNECTING\<rparr>) ep wk h
      in (Sys_close (client_fd y), kern E h1 (Sys_close (client_fd y))) # h1)"

definition far_end_closed ::
  "env \<Rightarrow> nat \<Rightarrow> srv_cb server \<Rightarrow> nat \<Rightarrow> srv_cb connection \<Rightarrow> NServer \<Rightarrow> NServer" where
  "far_end_closed E s sv d y w =
     put_server s (sv\<lparr>connections := AList.delete (conn_id y) (connections sv)\<rparr>)
       (w\<lparr>hist := far_end_hist E d y (epoll_fd w) (wakeup_fd w) (hist w),
          conns := (conns w)(d := None)\<rparr>)"

lemma force_close_live:
  assumes "in_loop w" and "conns w d = Some y" and "c_state y = CONNECTED" and "use_count y = 2"
    and "on_close y = Some (Cb_disconnectHandle s)" and "notice_on_close y = Some (Cb_cut_bridge b)"
    and "bridges w b = None"
    and "servers w s = Some sv" and "map_of (connections sv) (conn_id y) = Some d"
  shows "force_close E (srv_hooks E (Suc n)) d w =
    Inr (put_conn d (y\<lparr>use_count := 1, c_state := DISCONNECTED\<rparr>)
      (let_go E s sv d (y\<lparr>c_state := DISCONNECTING\<rparr>) (put_conn d (y\<lparr>c_state := DISCONNECTING\<rparr>) w)))"
proof -
  let ?y = "y\<lparr>c_state := DISCONNECTING\<rparr>"
  let ?w = "put_conn d ?y w"
  have "handle_close E (srv_hooks E (Suc n)) d ?w =
      modify d (\<lambda>z. z\<lparr>c_state := DISCONNECTED\<rparr>) (let_go E s sv d ?y ?w)"
    by (subst handle_close_server [where x = ?y])
       (use assms in \<open>simp_all add: srv_run_cb_cut cut_bridge_cb_gone del: srv_run_cb.simps\<close>)
  also have "\<dots> = Inr (put_conn d (y\<lparr>use_count := 1, c_state := DISCONNECTED\<rparr>) (let_go E s sv d ?y ?w))"
    using assms(4) by (simp add: retired_def)
  finally show ?thesis
    using assms(1-3) by (simp add: force_close_def)
qed

lemma lock_force_close_live:
  assumes "in_loop w" and d: "conns w d = Some y" and "c_state y = CONNECTED" and uc: "use_count y = 1"
    and "on_close y = Some (Cb_disconnectHandle s)" and "notice_on_close y = Some (Cb_cut_bridge b)"
    and "bridges w b = None"
    and "servers w s = Some sv" and "map_of (connections sv) (conn_id y) = Some d"
  shows "lock_force_close E (srv_hooks E (Suc n)) d w = Inr (far_end_closed E s sv d y w)"
proof -
  let ?y1 = "y\<lparr>use_count := use_count y + 1\<rparr>"
  let ?z = "?y1\<lparr>use_count := 1, c_state := DISCONNECTED\<rparr>"
  let ?y2 = "?y1\<lparr>c_state := DISCONNECTING\<rparr>"
  let ?v = "put_conn d ?z (let_go E s sv d ?y2 (put_conn d ?y2 (put_conn d ?y1 w)))"
  have fc: "force_close E (srv_hooks E (Suc n)) d (put_conn d ?y1 w) = Inr ?v"
    by (rule force_close_live) (use assms in simp_all)
  have g: "gone E d (y\<lparr>use_count := m, c_state := DISCONNECTING\<rparr>) ep wk h =
      gone E d (y\<lparr>c_state := DISCONNECTING\<rparr>) ep wk h" for m ep wk h
    by (simp add: gone_def unwatch_def)
  have "holding E d (force_close E (srv_hooks E (Suc n)) d) w =
    Inr (?v\<lparr>hist := (Sys_close (client_fd y), kern E (hist ?v) (Sys_close (client_fd y))) # hist ?v,
           conns := (conns ?v)(d := None)\<rparr>)"
    using holding_last [of w d y "force_close E (srv_hooks E (Suc n)) d", OF d fc, of ?z] by simp
  also have "\<dots> = Inr (far_end_closed E s sv d y w)"
    by (simp add: far_end_closed_def far_end_hist_def let_go_def Let_def g put_conn_def put_server_def)
  finally show ?thesis using d by (simp add: lock_force_close_def expired_def)
qed

lemma lock_force_close_done:
  assumes c: "conns w c = Some x" and "c_state x = DISCONNECTED" and uc: "1 \<le> use_count x"
  shows "lock_force_close E H c w = Inr w"
proof -
  let ?x1 = "x\<lparr>use_count := use_count x + 1\<rparr>"
  have "force_close E H c (put_conn c ?x1 w) = Inr (put_conn c ?x1 w)"
    using assms by (simp add: force_close_def)
  then have "holding E c (force_close E H c) w =
      Inr (put_conn c (?x1\<lparr>use_count := use_count ?x1 - 1\<rparr>) (put_conn c ?x1 w))"
    by (intro holding_Some [OF c]) (use uc in simp_all)
  also have "\<dots> = Inr (put_conn c x w)" by simp
  also have "\<dots> = Inr w" by (simp only: put_conn_same [OF c])
  finally show ?thesis using c by (simp add: lock_force_close_def expired_def)
qed

lemma far_end_closed_simps [simp]:
  "conns (far_end_closed E s sv d y w) = (conns w)(d := None)"
  "bridges (far_end_closed E s sv d y w) = bridges w" "scs (far_end_closed E s sv d y w) = scs w"
  "servers (far_end_closed E s sv d y w) =
     (servers w)(s \<mapsto> sv\<lparr>connections := AList.delete (conn_id y) (connections sv)\<rparr>)"
  "hist (far_end_closed E s sv d y w) = far_end_hist E d y (epoll_fd w) (wakeup_fd w) (hist w)"
  "in_loop (far_end_closed E s sv d y w) = in_loop w"
  by (simp_all add: far_end_closed_def put_server_def in_loop_def)

text \<open>A live end of bridge \<open>b\<close>: connected, in the table of its server \<open>s\<close>, held by that table alone.\<close>

definition live_end ::
  "NServer \<Rightarrow> nat \<Rightarrow> srv_cb connection \<Rightarrow> nat \<Rightarrow> srv_cb server \<Rightarrow> nat \<Rightarrow> bool" where
  "live_end w c x s sv b \<longleftrightarrow>
     conns w c = Some x \<and> c_state x = CONNECTED \<and> use_count x = 1
     \<and> on_close x = Some (Cb_disconnectHandle s) \<and> notice_on_close x = Some (Cb_cut_bridge b)
     \<and> servers w s = Some sv \<and> map_of (connections sv) (conn_id x) = Some c"

definition ends :: "BridgeCloser \<Rightarrow> nat \<Rightarrow> nat \<Rightarrow> bool" where
  "ends B c d \<longleftrightarrow> (bridge_inside B = c \<and> bridge_outside B = d) \<or> (bridge_inside B = d \<and> bridge_outside B = c)"

lemma BridgeCloser_destroy_far:
  assumes B: "bridges w b = Some B" "ends B c d" and cd: "c \<noteq> d" and loop: "in_loop w"
    and c: "conns w c = Some x" "c_state x = DISCONNECTED" "1 \<le> use_count x"
    and d: "live_end w d y s sv b"
  shows "BridgeCloser_destroy E (srv_hooks E (Suc n)) b w =
    Inr (far_end_closed E s sv d y (w\<lparr>bridges := (bridges w)(b := None)\<rparr>))"
proof -
  let ?H = "srv_hooks E (Suc n)"
  let ?w = "w\<lparr>bridges := (bridges w)(b := None)\<rparr>"
  have far: "lock_force_close E ?H d ?w = Inr (far_end_closed E s sv d y ?w)"
    by (rule lock_force_close_live [where b = b]) (use d loop in \<open>simp_all add: live_end_def in_loop_def\<close>)
  have near: "lock_force_close E ?H c ?w = Inr ?w"
    by (rule lock_force_close_done) (use c in simp_all)
  have near': "lock_force_close E ?H c (far_end_closed E s sv d y ?w) = Inr (far_end_closed E s sv d y ?w)"
    by (rule lock_force_close_done) (use c cd in simp_all)
  show ?thesis
    using B(2) unfolding ends_def
    by (elim disjE conjE) (simp_all add: BridgeCloser_destroy_def B(1) far near near')
qed

definition bridge_erased :: "nat \<Rightarrow> SControlChannel \<Rightarrow> nat \<Rightarrow> BridgeCloser \<Rightarrow> NServer \<Rightarrow> NServer" where
  "bridge_erased k sc b B w =
     (put_sc k (sc\<lparr>bridge_closers := AList.delete (bridge_id B) (bridge_closers sc)\<rparr>) w)
       \<lparr>bridges := (bridges w)(b := None)\<rparr>"

lemma bridge_erased_simps [simp]:
  "conns (bridge_erased k sc b B w) = conns w" "hist (bridge_erased k sc b B w) = hist w"
  "servers (bridge_erased k sc b B w) = servers w" "in_loop (bridge_erased k sc b B w) = in_loop w"
  "bridges (bridge_erased k sc b B w) = (bridges w)(b := None)"
  "scs (bridge_erased k sc b B w) =
     (scs w)(k \<mapsto> sc\<lparr>bridge_closers := AList.delete (bridge_id B) (bridge_closers sc)\<rparr>)"
  "epoll_fd (bridge_erased k sc b B w) = epoll_fd w"
  "wakeup_fd (bridge_erased k sc b B w) = wakeup_fd w"
  by (simp_all add: bridge_erased_def put_sc_def in_loop_def)

text \<open>A registered bridge between \<open>c\<close> and \<open>d\<close>, held by its control channel alone.\<close>

definition bridge_up ::
  "NServer \<Rightarrow> nat \<Rightarrow> SControlChannel \<Rightarrow> nat \<Rightarrow> BridgeCloser \<Rightarrow> nat \<Rightarrow> nat \<Rightarrow> bool" where
  "bridge_up w k sc b B c d \<longleftrightarrow>
     bridges w b = Some B \<and> ends B c d \<and> bc_count B = 1 \<and> delete_bridge B = Some k
     \<and> scs w k = Some sc \<and> map_of (bridge_closers sc) (bridge_id B) = Some b \<and> c \<noteq> d"

lemma cut_bridge_cb_up:
  assumes B: "bridge_up w k sc b B c d" and loop: "in_loop w"
    and c: "conns w c = Some x" "c_state x = DISCONNECTED" "1 \<le> use_count x"
    and d: "live_end w d y s sv b"
  shows "cut_bridge_cb E (srv_hooks E (Suc n)) b w =
    Inr (far_end_closed E s sv d y (bridge_erased k sc b B w))"
proof -
  let ?H = "srv_hooks E (Suc n)"
  let ?B2 = "B\<lparr>bc_count := 2\<rparr>" and ?B1 = "B\<lparr>bc_count := 1\<rparr>"
  let ?sc = "sc\<lparr>bridge_closers := AList.delete (bridge_id B) (bridge_closers sc)\<rparr>"
  let ?w1 = "put_bridge b ?B1 (put_sc k ?sc (put_bridge b ?B2 w))"
  have "cut_off_bridge E ?H b (put_bridge b ?B2 w) = Inr ?w1"
    using B by (simp add: bridge_up_def cut_off_bridge_def erase_bridge_closer_def bridge_drop_def)
  moreover have "BridgeCloser_destroy E ?H b ?w1 =
      Inr (far_end_closed E s sv d y (?w1\<lparr>bridges := (bridges ?w1)(b := None)\<rparr>))"
    by (rule BridgeCloser_destroy_far [of _ _ ?B1 c])
       (use B loop c d in \<open>simp_all add: bridge_up_def ends_def live_end_def\<close>)
  moreover have "?w1\<lparr>bridges := (bridges ?w1)(b := None)\<rparr> = bridge_erased k sc b B w"
    by (simp add: bridge_erased_def put_bridge_def put_sc_def)
  ultimately show ?thesis
    using B by (simp add: bridge_up_def cut_bridge_cb_def bridge_drop_def numeral_2_eq_2)
qed

lemma handle_close_near:
  assumes B: "bridge_up w k sc b B c d" and loop: "in_loop w"
    and x: "conns w c = Some x" "c_state x = CONNECTED" "2 \<le> use_count x"
      "on_close x = Some (Cb_disconnectHandle s1)" "notice_on_close x = Some (Cb_cut_bridge b)"
      "servers w s1 = Some sv1" "map_of (connections sv1) (conn_id x) = Some c"
    and d: "live_end w d y s2 sv2 b" and s: "s1 \<noteq> s2"
  shows "handle_close E (srv_hooks E (Suc (Suc n))) c w =
    Inr (put_conn c ((retired x)\<lparr>use_count := use_count x - 1\<rparr>)
      (far_end_closed E s2 sv2 d y (bridge_erased k sc b B (let_go E s1 sv1 c x w))))"
proof -
  let ?x' = "(retired x)\<lparr>use_count := use_count x - 1\<rparr>"
  let ?w1 = "let_go E s1 sv1 c x w"
  have cd: "c \<noteq> d" using B by (simp add: bridge_up_def)
  have "cut_bridge_cb E (srv_hooks E (Suc n)) b ?w1 =
      Inr (far_end_closed E s2 sv2 d y (bridge_erased k sc b B ?w1))"
    by (rule cut_bridge_cb_up [of _ _ _ _ _ c d ?x'])
       (use B loop x d s cd in \<open>auto simp: bridge_up_def live_end_def\<close>)
  moreover have "?x'\<lparr>c_state := DISCONNECTED\<rparr> = ?x'" using x(2) by (simp add: retired_def)
  ultimately show ?thesis
    using x cd
    by (subst handle_close_server [OF loop x(1) _ x(4) _ x(6,7,3)])
       (simp_all add: srv_run_cb_cut del: srv_run_cb.simps)
qed

lemma far_end_hist_frame:
  "closed (far_end_hist E d y ep wk h) = (closed h)(client_fd y := closed h (client_fd y) + 1)"
  "f \<noteq> wk \<Longrightarrow> sent (far_end_hist E d y ep wk h) f = sent h f"
  "ch_fd (c_channel y) = client_fd y \<Longrightarrow>
   interest (far_end_hist E d y ep wk h) = (interest h)(client_fd y := None)"
  using gone_frame(1) [of wk "{f}" h E d "y\<lparr>c_state := DISCONNECTING\<rparr>" ep]
    gone_frame(1) [of wk "{}" h E d "y\<lparr>c_state := DISCONNECTING\<rparr>" ep]
  by (auto simp: far_end_hist_def Let_def quiet_def fun_eq_iff)

lemma gone_frame':
  "closed (gone E c x ep wk h) = closed h" "f \<noteq> wk \<Longrightarrow> sent (gone E c x ep wk h) f = sent h f"
  using gone_frame(1) [of wk "{f}" h E c x ep] gone_frame(1) [of wk "{}" h E c x ep]
  by (auto simp: quiet_def)

lemma srv_run_cb_forward:
  "srv_run_cb E (Suc n) (Cb_forward p) (Some c) w = forward_cb E (srv_hooks E n) p c w"
  by (simp add: srv_hooks_def)

lemma handle_message_orphan:
  assumes "conns w c = Some x" and "on_message x = Some (Cb_forward p)" and "conns w p = None"
    and "1 \<le> use_count x"
  shows "handle_message E (srv_hooks E (Suc n)) c w = Inr w"
proof -
  let ?x1 = "x\<lparr>use_count := use_count x + 1\<rparr>"
  have "p \<noteq> c" using assms(1,3) by auto
  then have "srv_run_cb E (Suc n) (Cb_forward p) (Some c) (put_conn c ?x1 w) = Inr (put_conn c ?x1 w)"
    unfolding srv_run_cb_forward by (intro forward_cb_expired [of _ _ ?x1]) (use assms(3) in simp_all)
  then have "holding E c (srv_run_cb E (Suc n) (Cb_forward p) (Some c)) w =
      Inr (put_conn c (?x1\<lparr>use_count := use_count ?x1 - 1\<rparr>) (put_conn c ?x1 w))"
    by (intro holding_Some [OF assms(1)]) (use assms(4) in simp_all)
  also have "\<dots> = Inr (put_conn c x w)" by simp
  also have "\<dots> = Inr w" by (simp only: put_conn_same [OF assms(1)])
  finally show ?thesis using assms(1,2) by (simp add: handle_message_def del: srv_run_cb.simps)
qed

text \<open>One event: \<open>c\<close> reaches the end of its stream after delivering \<open>bs\<close>.\<close>

lemma handle_data_in_end:
  assumes B: "bridge_up w k sc b B c d" and loop: "in_loop w"
    and c: "conns w c = Some x" "c_state x = CONNECTED" "use_count x = 2"
      "on_close x = Some (Cb_disconnectHandle s1)" "notice_on_close x = Some (Cb_cut_bridge b)"
      "servers w s1 = Some sv1" "map_of (connections sv1) (conn_id x) = Some c"
    and m: "on_message x = Some (Cb_forward d)"
    and d: "live_end w d y s2 sv2 b" and s: "s1 \<noteq> s2"
    and rd: "incoming E (client_fd x) (loop_fuel E) (hist w) = Some (bs, Read_closed, h')"
      "reads_wf E (client_fd x)" "buf_ok (input_buffer x)" "room (input_buffer x) (length bs)"
  obtains ib where
    "handle_data_in E (srv_hooks E (Suc (Suc n))) c w =
      Inr (put_conn c ((retired (x\<lparr>input_buffer := ib\<rparr>))\<lparr>use_count := 1\<rparr>)
        (far_end_closed E s2 sv2 d y (bridge_erased k sc b B
          (let_go E s1 sv1 c (x\<lparr>input_buffer := ib\<rparr>)
            (put_conn c (x\<lparr>input_buffer := ib\<rparr>) (w\<lparr>hist := h'\<rparr>))))))"
    and "contents ib = contents (input_buffer x) @ bs"
proof -
  let ?H = "srv_hooks E (Suc (Suc n))"
  obtain ib where ib: "contents ib = contents (input_buffer x) @ bs"
      "ReadNonBlocking E ?H (loop_fuel E) c w =
        handle_close E ?H c (put_conn c (x\<lparr>input_buffer := ib\<rparr>) (w\<lparr>hist := h'\<rparr>))"
    using ReadNonBlocking_incoming [OF rd(1) c(1) refl rd(2-), of ?H] by auto
  let ?x = "x\<lparr>input_buffer := ib\<rparr>"
  let ?w = "put_conn c ?x (w\<lparr>hist := h'\<rparr>)"
  let ?z = "(retired ?x)\<lparr>use_count := 1\<rparr>"
  let ?v = "put_conn c ?z (far_end_closed E s2 sv2 d y (bridge_erased k sc b B (let_go E s1 sv1 c ?x ?w)))"
  have cd: "c \<noteq> d" using B by (simp add: bridge_up_def)
  have "handle_close E ?H c ?w =
      Inr (put_conn c ((retired ?x)\<lparr>use_count := use_count ?x - 1\<rparr>)
        (far_end_closed E s2 sv2 d y (bridge_erased k sc b B (let_go E s1 sv1 c ?x ?w))))"
    by (rule handle_close_near)
       (use B loop c d s cd in \<open>auto simp: bridge_up_def live_end_def\<close>)
  also have "\<dots> = Inr ?v" using c(3) by simp
  finally have hc: "handle_close E ?H c ?w = Inr ?v" .
  have "handle_message E ?H c ?v = Inr ?v"
    by (rule handle_message_orphan [of _ _ ?z d]) (use m cd in simp_all)
  then have "handle_data_in E ?H c w = Inr ?v"
    by (simp add: handle_data_in_def ib(2) hc)
  with that ib(1) show ?thesis by blast
qed

text \<open>A connection whose channel has been told of input, as a poll leaves it.\<close>

definition input_event :: "nat \<Rightarrow> 'cb connection \<Rightarrow> bool" where
  "input_event c x \<longleftrightarrow>
     tie (c_channel x) = Some c \<and> got_in (c_channel x) \<and> \<not> got_out (c_channel x)
     \<and> read_callback (c_channel x) = Some Cb_handle_data_in \<and> ch_fd (c_channel x) = client_fd x"

lemma bridge_end_of_stream:
  assumes B: "bridge_up w k sc b B c d" and loop: "in_loop w"
    and c: "live_end w c x s1 sv1 b" "input_event c x" "on_message x = Some (Cb_forward d)"
    and d: "live_end w d y s2 sv2 b" "ch_fd (c_channel y) = client_fd y" and s: "s1 \<noteq> s2"
    and rd: "incoming E (client_fd x) (loop_fuel E) (hist w) = Some (bs, Read_closed, h')"
      "reads_wf E (client_fd x)" "buf_ok (input_buffer x)" "room (input_buffer x) (length bs)"
  shows "\<exists>w'. conn_handle_event E (srv_hooks E (Suc (Suc n))) c w = Inr w'
    \<and> conns w' = (conns w)(c := None, d := None)
    \<and> bridges w' = (bridges w)(b := None)
    \<and> scs w' = (scs w)(k \<mapsto> sc\<lparr>bridge_closers := AList.delete (bridge_id B) (bridge_closers sc)\<rparr>)
    \<and> servers w' = (servers w)
        (s1 \<mapsto> sv1\<lparr>connections := AList.delete (conn_id x) (connections sv1)\<rparr>,
         s2 \<mapsto> sv2\<lparr>connections := AList.delete (conn_id y) (connections sv2)\<rparr>)
    \<and> (\<forall>f. closed (hist w') f = closed (hist w) f
            + (if f = client_fd x then 1 else 0) + (if f = client_fd y then 1 else 0))
    \<and> interest (hist w') = (interest (hist w))(client_fd x := None, client_fd y := None)
    \<and> (\<forall>f. f \<noteq> wakeup_fd w \<longrightarrow> sent (hist w') f = sent (hist w) f)"
proof -
  let ?x1 = "x\<lparr>use_count := use_count x + 1\<rparr>"
  let ?w1 = "put_conn c ?x1 w"
  have cd: "c \<noteq> d" using B by (simp add: bridge_up_def)
  obtain ib where hd: "handle_data_in E (srv_hooks E (Suc (Suc n))) c ?w1 =
      Inr (put_conn c ((retired (?x1\<lparr>input_buffer := ib\<rparr>))\<lparr>use_count := 1\<rparr>)
        (far_end_closed E s2 sv2 d y (bridge_erased k sc b B
          (let_go E s1 sv1 c (?x1\<lparr>input_buffer := ib\<rparr>)
            (put_conn c (?x1\<lparr>input_buffer := ib\<rparr>) (?w1\<lparr>hist := h'\<rparr>))))))"
    by (rule handle_data_in_end [of ?w1 k sc b B c d ?x1 s1 sv1 y s2 sv2 E bs h' n])
       (use B loop c d s cd rd in \<open>simp_all add: bridge_up_def live_end_def\<close>)
  let ?x2 = "?x1\<lparr>input_buffer := ib\<rparr>"
  let ?z = "(retired ?x2)\<lparr>use_count := 1\<rparr>"
  let ?g = "gone E c ?x2 (epoll_fd w) (wakeup_fd w) h'"
  let ?v = "put_conn c ?z (far_end_closed E s2 sv2 d y (bridge_erased k sc b B
          (let_go E s1 sv1 c ?x2 (put_conn c ?x2 (?w1\<lparr>hist := h'\<rparr>)))))"
  have v: "conns ?v c = Some ?z" "use_count ?z \<le> 1" "client_fd ?z = client_fd x" by simp_all
  have "conn_handle_event E (srv_hooks E (Suc (Suc n))) c w = shared_drop E c ?v"
    by (rule conn_handle_event_in [OF _ _ _ _ hd v(1)])
       (use c in \<open>simp_all add: live_end_def input_event_def got_out_def\<close>)
  also have "\<dots> = Inr (?v\<lparr>hist := (Sys_close (client_fd x), kern E (hist ?v) (Sys_close (client_fd x))) # hist ?v,
      conns := (conns ?v)(c := None)\<rparr>)"
    unfolding shared_drop_last [OF v(1,2)] sysw_simp v(3) by simp
  finally have ev: "conn_handle_event E (srv_hooks E (Suc (Suc n))) c w = \<dots>" .
  have hv: "hist ?v = far_end_hist E d y (epoll_fd w) (wakeup_fd w) ?g" by simp
  have fr: "closed h' = closed (hist w)" "interest h' = interest (hist w)" "sent h' = sent (hist w)"
    using incoming_frame [OF rd(1)] by simp_all
  have fx: "ch_fd (c_channel ?x2) = client_fd x" using c(2) by (simp add: input_event_def)
  show ?thesis
    unfolding ev hv
    by (intro exI conjI allI impI, rule refl)
       (use cd d(2) fx in \<open>auto simp: far_end_hist_frame gone_frame' fr fun_eq_iff\<close>)
qed

end
