(* ===== verification/NcxServerBridge.thy ===== *)
theory NcxServerBridge
  imports NcxServer
begin

text \<open>
  How a bridge comes up in \<^verbatim>\<open>NServer::handle_data_channel_hello\<close>: what is sent on the data channel,
  in which order, and in which state both ends are left.
\<close>

section \<open>Flushing what the visitor sent early\<close>

lemma handle_message_forward:
  assumes c: "conns w c = Some x" and p: "conns w p = Some y" and ne: "c \<noteq> p" "1 \<le> use_count x" "1 \<le> use_count y"
    and m: "on_message x = Some (Cb_forward p)"
    and ib: "buf_ok (input_buffer x)" "contents (input_buffer x) \<noteq> []"
    and ob: "buf_ok (output_buffer y)" "contents (output_buffer y) = []"
      "room (output_buffer y) (length (contents (input_buffer x)))"
    and acc: "accepts_all E (client_fd y)" and fuel: "0 < loop_fuel E"
  obtains ob where "handle_message E (srv_hooks E (Suc n)) c w =
      Inr (put_conn c (x\<lparr>input_buffer := RetrieveAll (input_buffer x)\<rparr>)
        (put_conn p (y\<lparr>output_buffer := ob\<rparr>)
          (w\<lparr>hist := wrote E (client_fd y) (contents (input_buffer x)) (hist w)\<rparr>)))"
    and "buf_ok ob" and "contents ob = []"
proof -
  let ?x1 = "x\<lparr>use_count := use_count x + 1\<rparr>"
  let ?w1 = "put_conn c ?x1 w"
  let ?h = "wrote E (client_fd y) (contents (input_buffer x)) (hist w)"
  let ?z = "?x1\<lparr>input_buffer := RetrieveAll (input_buffer x)\<rparr>"
  obtain ob where ob': "forward_cb E (srv_hooks E n) p c ?w1 =
      Inr (put_conn p (y\<lparr>output_buffer := ob\<rparr>) (put_conn c ?z (?w1\<lparr>hist := ?h\<rparr>)))"
      "buf_ok ob" "contents ob = []"
    by (rule forward_cb_delivers [of ?w1 c ?x1 p y E "srv_hooks E n"])
       (use p ne ib ob acc fuel in simp_all)
  let ?v = "put_conn p (y\<lparr>output_buffer := ob\<rparr>) (put_conn c ?z (?w1\<lparr>hist := ?h\<rparr>))"
  have "holding E c (srv_run_cb E (Suc n) (Cb_forward p) (Some c)) w =
      Inr (put_conn c (?z\<lparr>use_count := use_count ?z - 1\<rparr>) ?v)"
    by (rule holding_Some [OF c]) (use ob'(1) ne in \<open>simp_all add: srv_run_cb_forward del: srv_run_cb.simps\<close>)
  also have "\<dots> = Inr (put_conn c (x\<lparr>input_buffer := RetrieveAll (input_buffer x)\<rparr>)
        (put_conn p (y\<lparr>output_buffer := ob\<rparr>) (w\<lparr>hist := ?h\<rparr>)))"
    by simp
  finally have "handle_message E (srv_hooks E (Suc n)) c w = \<dots>"
    using c m by (simp add: handle_message_def del: srv_run_cb.simps)
  with that ob'(2,3) show ?thesis by blast
qed

section \<open>Wiring\<close>

definition start_forward :: "wire_lib \<Rightarrow> bytes" where
  "start_forward W = framed_DataChannelCmd W (set_data_channel_cmd START_FORWARD_TCP DataChannelCmd_new)"

text \<open>What is left to do once the callbacks and the bridge closer are in place.\<close>

definition start_and_flush :: "env \<Rightarrow> srv_hooks \<Rightarrow> nat \<Rightarrow> nat \<Rightarrow> nat \<Rightarrow> NServer \<Rightarrow> NServer res" where
  "start_and_flush E H b v d w =
     bindR (Send E H d (start_forward (wire E)) w) (\<lambda>w9.
     bindR (deref v w9) (\<lambda>u.
     bindR (if 0 < readAbleBytes (input_buffer u) then handle_message E H v w9 else Inr w9) (\<lambda>w10.
     bindR (bridge_drop E H b w10) (shared_drop E v))))"

definition wired :: "'a \<Rightarrow> 'a \<Rightarrow> 'a connection \<Rightarrow> 'a connection" where
  "wired m n x = x\<lparr>on_message := Some m, notice_on_close := Some n\<rparr>"

lemma wired_simps [simp]:
  "on_message (wired m n x) = Some m" "notice_on_close (wired m n x) = Some n"
  "input_buffer (wired m n x) = input_buffer x" "output_buffer (wired m n x) = output_buffer x"
  "client_fd (wired m n x) = client_fd x" "use_count (wired m n x) = use_count x"
  "c_state (wired m n x) = c_state x" "on_close (wired m n x) = on_close x"
  "conn_id (wired m n x) = conn_id x" "c_channel (wired m n x) = c_channel x"
  by (simp_all add: wired_def)

lemma data_channel_wired:
  assumes map: "map_of (sc_map w) nonce = Some k" "scs w k = Some sc"
      "wait_handle_visitors sc = v # vs"
    and conns: "conns w v = Some x" "conns w d = Some y" "v \<noteq> d"
    and fresh: "map_of (bridge_closers sc) (data (kern E (hist w) Sys_uuid)) = None"
  obtains W where
    "handle_data_channel_hello E H d nonce w = start_and_flush E H (next_bridge w) v d W"
    and "conns W = (conns w)
      (v \<mapsto> wired (Cb_forward d) (Cb_cut_bridge (next_bridge w)) x,
       d \<mapsto> wired (Cb_forward v) (Cb_cut_bridge (next_bridge w)) y)"
    and "bridges W = (bridges w)(next_bridge w \<mapsto>
      \<lparr>bridge_id = data (kern E (hist w) Sys_uuid), bridge_inside = v, bridge_outside = d,
       delete_bridge = Some k, bc_count = 2\<rparr>)"
    and "scs W = (scs w)(k \<mapsto> sc\<lparr>wait_handle_visitors := vs,
      bridge_closers := (data (kern E (hist w) Sys_uuid), next_bridge w) # bridge_closers sc\<rparr>)"
    and "hist W = (Sys_uuid, kern E (hist w) Sys_uuid) # hist w"
    and "servers W = servers w" and "in_loop W = in_loop w"
proof -
  define b where "b = next_bridge w"
  define i where "i = data (kern E (hist w) Sys_uuid)"
  define h where "h = (Sys_uuid, kern E (hist w) Sys_uuid) # hist w"
  let ?sc = "sc\<lparr>wait_handle_visitors := vs\<rparr>"
  let ?x1 = "x\<lparr>on_message := Some (Cb_forward d)\<rparr>" and ?y1 = "y\<lparr>on_message := Some (Cb_forward v)\<rparr>"
  let ?w3 = "put_conn d ?y1 (put_conn v ?x1 (put_sc k ?sc w))"
  let ?B = "\<lparr>bridge_id = i, bridge_inside = v, bridge_outside = d, delete_bridge = None, bc_count = 1\<rparr>"
  let ?w4 = "(put_bridge b ?B (?w3\<lparr>hist := h\<rparr>))\<lparr>next_bridge := Suc b\<rparr>"
  let ?w5 = "put_bridge b (?B\<lparr>delete_bridge := Some k\<rparr>) ?w4"
  let ?w7 = "put_conn d (wired (Cb_forward v) (Cb_cut_bridge b) y)
      (put_conn v (wired (Cb_forward d) (Cb_cut_bridge b) x) ?w5)"
  let ?w8 = "put_bridge b (?B\<lparr>delete_bridge := Some k, bc_count := 2\<rparr>)
      (put_sc k (?sc\<lparr>bridge_closers := (i, b) # bridge_closers sc\<rparr>) ?w7)"
  have pop: "pop_visitor k w = Inr (v, put_sc k ?sc w)"
    using map by (simp add: pop_visitor_def)
  have new: "BridgeCloser_new E v d ?w3 = (b, ?w4)"
    by (simp add: BridgeCloser_new_def GenerateUUIDAsString_def sysw_simp b_def i_def h_def put_sc_def
        put_conn_def Let_def)
  have n1: "set_close_notice v (Cb_cut_bridge b) ?w5 =
      Inr (put_conn v (wired (Cb_forward d) (Cb_cut_bridge b) x) ?w5)"
    using conns by (simp add: set_close_notice_def wired_def)
  have n2: "set_close_notice d (Cb_cut_bridge b) (put_conn v (wired (Cb_forward d) (Cb_cut_bridge b) x) ?w5)
      = Inr ?w7"
    using conns by (simp add: set_close_notice_def wired_def)
  have reg: "register_bridge_closer k i b ?w7 = Inr ?w8"
    using fresh by (simp add: register_bridge_closer_def i_def numeral_2_eq_2)
  have "handle_data_channel_hello E H d nonce w = start_and_flush E H b v d ?w8"
    using map(1) conns new n1 n2 reg
    by (simp add: handle_data_channel_hello_def pop set_message_handle_def start_and_flush_def
        start_forward_def Let_def)
  then show ?thesis
    using that [of ?w8] conns(3)
    by (simp add: b_def i_def h_def put_sc_def put_bridge_def put_conn_def in_loop_def fun_upd_twist)
qed

section \<open>Start and flush\<close>

lemma flush_visitor:
  assumes c: "conns w v = Some x" and p: "conns w d = Some y" and ne: "v \<noteq> d" "1 \<le> use_count x" "1 \<le> use_count y"
    and m: "on_message x = Some (Cb_forward d)" and ib: "buf_ok (input_buffer x)"
    and ob: "buf_ok (output_buffer y)" "contents (output_buffer y) = []"
      "room (output_buffer y) (length (contents (input_buffer x)))"
    and acc: "accepts_all E (client_fd y)" and fuel: "0 < loop_fuel E"
  obtains ib ob where
    "(if 0 < readAbleBytes (input_buffer x) then handle_message E (srv_hooks E (Suc n)) v w else Inr w) =
      Inr (put_conn v (x\<lparr>input_buffer := ib\<rparr>) (put_conn d (y\<lparr>output_buffer := ob\<rparr>)
          (w\<lparr>hist := wrote E (client_fd y) (contents (input_buffer x)) (hist w)\<rparr>)))"
    and "buf_ok ib" "contents ib = []" and "buf_ok ob" and "contents ob = []"
proof (cases "contents (input_buffer x) = []")
  case True
  have "put_conn v (x\<lparr>input_buffer := input_buffer x\<rparr>) (put_conn d (y\<lparr>output_buffer := output_buffer y\<rparr>)
        (w\<lparr>hist := wrote E (client_fd y) [] (hist w)\<rparr>)) = w"
    using c p by (simp add: wrote_def)
  then show ?thesis
    using that [of "input_buffer x" "output_buffer y"] True ib ob by (simp add: readable_iff)
next
  case False
  obtain ob' where "handle_message E (srv_hooks E (Suc n)) v w =
      Inr (put_conn v (x\<lparr>input_buffer := RetrieveAll (input_buffer x)\<rparr>)
        (put_conn d (y\<lparr>output_buffer := ob'\<rparr>)
          (w\<lparr>hist := wrote E (client_fd y) (contents (input_buffer x)) (hist w)\<rparr>)))"
      "buf_ok ob'" "contents ob' = []"
    using handle_message_forward [OF c p ne m ib False ob acc fuel] .
  then show ?thesis
    using that [of "RetrieveAll (input_buffer x)" ob'] False ib RetrieveAll_ok(1,2)
    by (simp add: readable_iff)
qed

lemma start_and_flush_ok:
  assumes c: "conns w v = Some x" and p: "conns w d = Some y" and ne: "v \<noteq> d" "2 \<le> use_count x" "1 \<le> use_count y"
    and m: "on_message x = Some (Cb_forward d)" and ib: "buf_ok (input_buffer x)"
    and ob: "buf_ok (output_buffer y)" "contents (output_buffer y) = []"
      "room (output_buffer y) (length (start_forward (wire E)) + length (contents (input_buffer x)))"
    and acc: "accepts_all E (client_fd y)" and fuel: "0 < loop_fuel E"
    and B: "bridges w b = Some B" "bc_count B = 2"
  obtains w' ib ob where "start_and_flush E (srv_hooks E (Suc n)) b v d w = Inr w'"
    and "conns w' = (conns w)(v \<mapsto> x\<lparr>input_buffer := ib, use_count := use_count x - 1\<rparr>,
           d \<mapsto> y\<lparr>output_buffer := ob\<rparr>)"
    and "buf_ok ib" "contents ib = []" "buf_ok ob" "contents ob = []"
    and "hist w' = wrote E (client_fd y) (contents (input_buffer x))
           (wrote E (client_fd y) (start_forward (wire E)) (hist w))"
    and "bridges w' = (bridges w)(b \<mapsto> B\<lparr>bc_count := 1\<rparr>)" and "scs w' = scs w" and "servers w' = servers w"
    and "in_loop w' = in_loop w"
proof -
  let ?H = "srv_hooks E (Suc n)" and ?m = "start_forward (wire E)"
  obtain o1 where o1: "Send E ?H d ?m w = Inr (put_conn d (y\<lparr>output_buffer := o1\<rparr>)
        (w\<lparr>hist := wrote E (client_fd y) (contents (output_buffer y) @ ?m) (hist w)\<rparr>))"
      "buf_ok o1" "contents o1 = []" "unat (write_index o1) \<le> unat (write_index (output_buffer y)) + length ?m"
  proof -
    have "room (output_buffer y) (length ?m)" using ob(3) by (simp add: room_def)
    then show thesis using Send_all [OF p acc ob(1) _ fuel, of ?m ?H] that by metis
  qed
  let ?y1 = "y\<lparr>output_buffer := o1\<rparr>" and ?h1 = "wrote E (client_fd y) ?m (hist w)"
  let ?w1 = "put_conn d ?y1 (w\<lparr>hist := ?h1\<rparr>)"
  obtain ib o2 where fl: "(if 0 < readAbleBytes (input_buffer x) then handle_message E ?H v ?w1 else Inr ?w1) =
      Inr (put_conn v (x\<lparr>input_buffer := ib\<rparr>) (put_conn d (?y1\<lparr>output_buffer := o2\<rparr>)
          (?w1\<lparr>hist := wrote E (client_fd y) (contents (input_buffer x)) ?h1\<rparr>)))"
      and bufs: "buf_ok ib" "contents ib = []" "buf_ok o2" "contents o2 = []"
    by (rule flush_visitor [of ?w1 v x d ?y1 E])
       (use c ne m ib o1 ob(3) acc fuel in \<open>simp_all add: room_def\<close>)
  let ?h2 = "wrote E (client_fd y) (contents (input_buffer x)) ?h1"
  let ?w2 = "put_conn v (x\<lparr>input_buffer := ib\<rparr>) (put_conn d (y\<lparr>output_buffer := o2\<rparr>) (w\<lparr>hist := ?h2\<rparr>))"
  let ?w3 = "put_bridge b (B\<lparr>bc_count := 1\<rparr>) ?w2"
  have "start_and_flush E ?H b v d w = bindR (bridge_drop E ?H b ?w2) (shared_drop E v)"
    using c ne o1(1) ob(2) fl by (simp add: start_and_flush_def)
  also have "\<dots> = shared_drop E v ?w3"
    using B by (simp add: bridge_drop_def)
  also have "\<dots> = Inr (put_conn v (x\<lparr>input_buffer := ib, use_count := use_count x - 1\<rparr>) ?w3)"
    by (subst shared_drop_more [of _ _ "x\<lparr>input_buffer := ib\<rparr>"]) (use ne in simp_all)
  finally show ?thesis
    by (rule that [OF _ _ bufs]) (use ne(1) in \<open>simp_all add: fun_upd_twist\<close>)
qed

section \<open>A data channel becomes a bridge\<close>

text \<open>The state of an end of a bridge right after \<^verbatim>\<open>handle_data_channel_hello\<close>.\<close>

definition bridged_end :: "NServer \<Rightarrow> nat \<Rightarrow> nat \<Rightarrow> nat \<Rightarrow> bool" where
  "bridged_end w c peer b \<longleftrightarrow>
     (\<exists>x. conns w c = Some x \<and> on_message x = Some (Cb_forward peer)
        \<and> notice_on_close x = Some (Cb_cut_bridge b) \<and> buf_ok (input_buffer x) \<and> buf_ok (output_buffer x))"

lemma data_channel_hello_bridges:
  assumes map: "map_of (sc_map w) nonce = Some k" "scs w k = Some sc"
      "wait_handle_visitors sc = v # vs"
    and ends: "conns w v = Some x" "conns w d = Some y" "v \<noteq> d" "2 \<le> use_count x" "1 \<le> use_count y"
    and fresh: "map_of (bridge_closers sc) (data (kern E (hist w) Sys_uuid)) = None"
    and bufs: "buf_ok (input_buffer x)" "buf_ok (output_buffer x)"
      "buf_ok (input_buffer y)" "buf_ok (output_buffer y)" "contents (output_buffer y) = []"
      "room (output_buffer y) (length (start_forward (wire E)) + length (contents (input_buffer x)))"
    and acc: "accepts_all E (client_fd y)" and fuel: "0 < loop_fuel E"
  shows "\<exists>w' sc' B. handle_data_channel_hello E (srv_hooks E (Suc n)) d nonce w = Inr w'
    \<and> bridge_up w' k sc' (next_bridge w) B v d \<and> wait_handle_visitors sc' = vs
    \<and> bridged_end w' v d (next_bridge w) \<and> bridged_end w' d v (next_bridge w)
    \<and> sent (hist w') = (sent (hist w))(client_fd y :=
        sent (hist w) (client_fd y) @ start_forward (wire E) @ contents (input_buffer x))"
proof -
  let ?b = "next_bridge w" and ?i = "data (kern E (hist w) Sys_uuid)"
  let ?x = "wired (Cb_forward d) (Cb_cut_bridge ?b) x" and ?y = "wired (Cb_forward v) (Cb_cut_bridge ?b) y"
  let ?sc = "sc\<lparr>wait_handle_visitors := vs, bridge_closers := (?i, ?b) # bridge_closers sc\<rparr>"
  let ?B = "\<lparr>bridge_id = ?i, bridge_inside = v, bridge_outside = d, delete_bridge = Some k, bc_count = 2\<rparr>"
  obtain W where W: "handle_data_channel_hello E (srv_hooks E (Suc n)) d nonce w =
        start_and_flush E (srv_hooks E (Suc n)) ?b v d W"
      "conns W = (conns w)(v \<mapsto> ?x, d \<mapsto> ?y)" "bridges W = (bridges w)(?b \<mapsto> ?B)"
      "scs W = (scs w)(k \<mapsto> ?sc)" "hist W = (Sys_uuid, kern E (hist w) Sys_uuid) # hist w"
    using data_channel_wired [OF map ends(1-3) fresh] .
  obtain w' ib ob where w': "start_and_flush E (srv_hooks E (Suc n)) ?b v d W = Inr w'"
      "conns w' = (conns W)(v \<mapsto> ?x\<lparr>input_buffer := ib, use_count := use_count ?x - 1\<rparr>,
           d \<mapsto> ?y\<lparr>output_buffer := ob\<rparr>)"
      "buf_ok ib" "contents ib = []" "buf_ok ob" "contents ob = []"
      "hist w' = wrote E (client_fd ?y) (contents (input_buffer ?x))
           (wrote E (client_fd ?y) (start_forward (wire E)) (hist W))"
      "bridges w' = (bridges W)(?b \<mapsto> ?B\<lparr>bc_count := 1\<rparr>)" "scs w' = scs W"
    by (rule start_and_flush_ok [of W v ?x d ?y E ?b ?B n])
       (use W ends bufs acc fuel in simp_all)
  have "bridge_up w' k ?sc ?b (?B\<lparr>bc_count := 1\<rparr>) v d"
    using w' W ends(3) by (simp add: bridge_up_def ends_def)
  moreover have "bridged_end w' v d ?b" "bridged_end w' d v ?b"
    using w' ends(3) bufs by (simp_all add: bridged_end_def)
  moreover have "sent (hist W) = sent (hist w)" using W(5) by (simp add: fun_eq_iff)
  then have "sent (hist w') = (sent (hist w))(client_fd y :=
        sent (hist w) (client_fd y) @ start_forward (wire E) @ contents (input_buffer x))"
    using w'(7) acc by (simp add: sent_wrote)
  ultimately show ?thesis using W(1) w'(1)
    by (intro exI [of _ w'] exI [of _ ?sc] exI [of _ "?B\<lparr>bc_count := 1\<rparr>"]) simp
qed

section \<open>First message of a connection\<close>

text \<open>\<^verbatim>\<open>NServer::handle_new_connection\<close> on a connection whose buffer starts with a whole \<^verbatim>\<open>Hello\<close>.\<close>

lemma handle_new_connection_hello:
  assumes rt: "protobuf_runtime (wire E)" and c: "conns w c = Some x" and ib: "buf_ok (input_buffer x)"
    and h: "Hello_canonical (wire E) h" "0 < Hello_ByteSizeLong (wire E) h"
      "Hello_ByteSizeLong (wire E) h < 2 ^ 31"
    and buf: "contents (input_buffer x) = framed_Hello (wire E) h @ rest"
  obtains b where "buf_ok b" and "contents b = rest"
    and "handle_new_connection E H c w =
      (let w1 = put_conn c (x\<lparr>input_buffer := b\<rparr>) w in
       if hello_type h = CONTROL_CHANNEL_HELLO then
         handle_control_channel_hello E H c (service_name (control_channel_hello_content h))
           (ucast (proxy_port (control_channel_hello_content h))) w1
       else if hello_type h = DATA_CHANNEL_HELLO then handle_data_channel_hello E H c (digest h) w1
       else Inr w1)"
proof -
  obtain m b where "take_message (wire E) (input_buffer x) = Inr (Some m, b)"
      "parse_Hello (wire E) m = (True, h)" "buf_ok b" "contents b = rest"
    using protobuf_runtime.hello_frame [OF rt h ib buf] by metis
  then show ?thesis
    using that [of b] c by (simp add: handle_new_connection_def Let_def)
qed

lemma handle_new_connection_partial:
  assumes rt: "protobuf_runtime (wire E)" and c: "conns w c = Some x" and ib: "buf_ok (input_buffer x)"
    and h: "0 < Hello_ByteSizeLong (wire E) h" "Hello_ByteSizeLong (wire E) h < 2 ^ 31"
    and buf: "framed_Hello (wire E) h = contents (input_buffer x) @ q" "q \<noteq> []"
  shows "handle_new_connection E H c w = Inr w"
proof -
  let ?m = "Hello_InternalSerialize (wire E) h"
  have m: "?m \<noteq> []" "length ?m < 2 ^ 32"
    using h protobuf_runtime.hello_size [OF rt, of h] by auto
  have "headerInstaller (wire E) ?m = contents (input_buffer x) @ q"
    using buf(1) h(2) by (simp add: framed_Hello_def protobuf_runtime.serialize_body [OF rt])
  from protobuf_runtime.take_message_incomplete [OF rt ib m this buf(2)] c
  show ?thesis by (simp add: handle_new_connection_def)
qed

section \<open>Visitors wait in order\<close>

definition create_cmd :: "wire_lib \<Rightarrow> bytes" where
  "create_cmd W = framed_ControlChannelCmd W (set_control_channel_cmd CREATE_DATA_CHANNEL ControlChannelCmd_new)"

text \<open>A control connection that can carry another command.\<close>

definition can_command :: "env \<Rightarrow> NServer \<Rightarrow> nat \<Rightarrow> int \<Rightarrow> bool" where
  "can_command E w c f \<longleftrightarrow>
     (\<exists>y. conns w c = Some y \<and> client_fd y = f \<and> buf_ok (output_buffer y)
        \<and> contents (output_buffer y) = [] \<and> room (output_buffer y) (length (create_cmd (wire E))))"

lemma outside_connection_queued:
  assumes sc: "scs w k = Some sc" "ncx_client_conn sc = c" and ctl: "can_command E w c f"
    and v: "conns w v = Some x" "v \<noteq> c" and acc: "accepts_all E f" and fuel: "0 < loop_fuel E"
  obtains w' where "handle_new_outside_connection E H k v w = Inr w'"
    and "scs w' = (scs w)(k \<mapsto> sc\<lparr>wait_handle_visitors := wait_handle_visitors sc @ [v]\<rparr>)"
    and "can_command E w' c f" and "dom (conns w') = dom (conns w)"
    and "conns w' v = Some (x\<lparr>use_count := use_count x + 1\<rparr>)"
    and "sent (hist w') = (sent (hist w))(f := sent (hist w) f @ create_cmd (wire E))"
proof -
  obtain y where y: "conns w c = Some y" "client_fd y = f" "buf_ok (output_buffer y)"
      "contents (output_buffer y) = []" "room (output_buffer y) (length (create_cmd (wire E)))"
    using ctl unfolding can_command_def by blast
  let ?sc = "sc\<lparr>wait_handle_visitors := wait_handle_visitors sc @ [v]\<rparr>"
  let ?w = "put_sc k ?sc (put_conn v (x\<lparr>use_count := use_count x + 1\<rparr>) w)"
  have yw: "conns ?w c = Some y" using y v by simp
  obtain b where b: "Send E H c (create_cmd (wire E)) ?w =
      Inr (put_conn c (y\<lparr>output_buffer := b\<rparr>) (?w\<lparr>hist := wrote E (client_fd y)
        (contents (output_buffer y) @ create_cmd (wire E)) (hist ?w)\<rparr>))"
      "buf_ok b" "contents b = []" "write_index b = kPrePendIndex"
    using Send_all [OF yw _ y(3,5) fuel] acc y(2) by metis
  let ?w' = "put_conn c (y\<lparr>output_buffer := b\<rparr>)
      (?w\<lparr>hist := wrote E f (create_cmd (wire E)) (hist w)\<rparr>)"
  have "handle_new_outside_connection E H k v w = Inr ?w'"
    using sc v b(1) y(2,4) by (simp add: handle_new_outside_connection_def create_cmd_def Let_def)
  moreover have "can_command E ?w' c f"
    using b y buf_okD [OF y(3)] by (simp add: can_command_def room_def kPrePendIndex_def)
  moreover have "dom (conns ?w') = dom (conns w)" using v y(1) by auto
  moreover have "sent (hist ?w') = (sent (hist w))(f := sent (hist w) f @ create_cmd (wire E))"
    using acc by (simp add: sent_wrote)
  moreover have "conns ?w' v = Some (x\<lparr>use_count := use_count x + 1\<rparr>)" using v by simp
  moreover have "scs ?w' = (scs w)(k \<mapsto> ?sc)" by simp
  ultimately show ?thesis using that by blast
qed

lemma visitors_wait_in_order:
  assumes "scs w k = Some sc" and "ncx_client_conn sc = c" and "can_command E w c f"
    and "set vs \<subseteq> dom (conns w)" and "c \<notin> set vs" and "accepts_all E f" and "0 < loop_fuel E"
  shows "\<exists>w' sc'. foldR (handle_new_outside_connection E H k) vs w = Inr w' \<and> scs w' k = Some sc'
    \<and> wait_handle_visitors sc' = wait_handle_visitors sc @ vs
    \<and> sent (hist w') = (sent (hist w))(f :=
        sent (hist w) f @ concat (replicate (length vs) (create_cmd (wire E))))"
  using assms
proof (induction vs arbitrary: w sc)
  case (Cons v vs)
  then obtain x where "conns w v = Some x" "v \<noteq> c" by auto
  with Cons.prems obtain w1 where w1: "handle_new_outside_connection E H k v w = Inr w1"
      "scs w1 = (scs w)(k \<mapsto> sc\<lparr>wait_handle_visitors := wait_handle_visitors sc @ [v]\<rparr>)"
      "can_command E w1 c f" "dom (conns w1) = dom (conns w)"
      "sent (hist w1) = (sent (hist w))(f := sent (hist w) f @ create_cmd (wire E))"
    by (metis outside_connection_queued)
  from Cons.IH [of w1 "sc\<lparr>wait_handle_visitors := wait_handle_visitors sc @ [v]\<rparr>"] w1 Cons.prems
  show ?case by (auto simp: fun_eq_iff)
qed simp

section \<open>A control channel comes up\<close>

lemma NServer_put_server' [simp]:
  "next_sc (put_server s x w) = next_sc w" "next_bridge (put_server s x w) = next_bridge w"
  by (simp_all add: put_server_def)

lemma control_channel_opened:
  assumes ok: "can_listen E" and c: "conns w c = Some y"
    and ob: "buf_ok (output_buffer y)" "contents (output_buffer y) = []"
    and nonce: "nonce = data (kern E (hist w) Sys_uuid)" "map_of (sc_map w) nonce = None"
    and room: "room (output_buffer y) (length (framed_Hello (wire E) (control_reply nonce)))"
    and acc: "accepts_all E (client_fd y)" and fuel: "0 < loop_fuel E"
  shows "\<exists>w' sc sv y'. handle_control_channel_hello E H c name port w = Inr w'
    \<and> map_of (sc_map w') nonce = Some (next_sc w) \<and> scs w' (next_sc w) = Some sc
    \<and> ncx_client_conn sc = c \<and> wait_handle_visitors sc = [] \<and> bridge_closers sc = []
    \<and> servers w' (proxy_server sc) = Some sv
    \<and> s_on_connect sv = Some (Cb_handle_new_outside (next_sc w)) \<and> connections sv = []
    \<and> Sys_bind (fd (sock sv)) (InetAddress E (get_ip E (server_addr w)) port) \<in> fst ` set (hist w')
    \<and> conns w' c = Some y' \<and> use_count y' = use_count y + 1
    \<and> sent (hist w') = (sent (hist w))(client_fd y :=
        sent (hist w) (client_fd y) @ framed_Hello (wire E) (control_reply nonce))"
proof -
  let ?m = "framed_Hello (wire E) (control_reply nonce)" and ?k = "next_sc w" and ?s = "next_server w"
  let ?h0 = "(Sys_uuid, kern E (hist w) Sys_uuid) # hist w"
  let ?w0 = "w\<lparr>hist := ?h0\<rparr>"
  have c0: "conns ?w0 c = Some y" using c by simp
  obtain b where b: "Send E H c ?m ?w0 = Inr (put_conn c (y\<lparr>output_buffer := b\<rparr>)
      (?w0\<lparr>hist := wrote E (client_fd y) (contents (output_buffer y) @ ?m) (hist ?w0)\<rparr>))"
    using Send_all [OF c0 acc ob(1) room fuel] by metis
  let ?h1 = "wrote E (client_fd y) ?m ?h0"
  let ?y1 = "y\<lparr>output_buffer := b, use_count := use_count y + 1\<rparr>"
  let ?w1 = "put_conn c ?y1 (w\<lparr>hist := ?h1\<rparr>)"
  let ?addr = "InetAddress E (get_ip E (server_addr w)) port"
  obtain x h where x: "Server_new E ?addr 256 ?w1 =
      Inr (next_server ?w1, put_server (next_server ?w1) x
            (?w1\<lparr>next_server := Suc (next_server ?w1), hist := h\<rparr>))"
      "quiet UNIV (hist ?w1) h" "Sys_bind (fd (sock x)) ?addr \<in> fst ` set h" "connections x = []"
    using Server_new_ok [OF ok, of ?addr 256 ?w1] by metis
  let ?sc = "\<lparr>ncx_client_conn = c, proxy_server = ?s, wait_handle_visitors = [], bridge_closers = []\<rparr>"
  let ?sv = "x\<lparr>s_on_connect := Some (Cb_handle_new_outside ?k)\<rparr>"
  let ?w2 = "put_server ?s ?sv (?w1\<lparr>next_server := Suc ?s, hist := h\<rparr>)"
  let ?w3 = "(put_sc ?k ?sc ?w2)\<lparr>next_sc := Suc ?k\<rparr>"
  let ?w4 = "?w3\<lparr>sc_map := (nonce, ?k) # sc_map ?w3\<rparr>"
  have "SControlChannel_new E c ?addr 256 (put_conn c (y\<lparr>output_buffer := b\<rparr>) (w\<lparr>hist := ?h1\<rparr>)) =
      Inr (?k, ?w3)"
    using x(1)
    by (simp add: SControlChannel_new_def bind_on_connect_def modify_server_def Let_def)
  then have "handle_control_channel_hello E H c name port w = Inr ?w4"
    using b nonce ob(2)
    by (simp add: handle_control_channel_hello_def GenerateUUIDAsString_def sysw_simp control_reply_def
        Let_def put_sc_def)
  moreover have "sent h = (sent (hist w))(client_fd y := sent (hist w) (client_fd y) @ ?m)"
  proof -
    have "sent h = sent ?h1" using x(2) by (simp add: quiet_def fun_eq_iff)
    moreover have "sent ?h0 = sent (hist w)" by (simp add: fun_eq_iff)
    ultimately show ?thesis using acc by (simp add: sent_wrote)
  qed
  ultimately show ?thesis
    using x(3,4)
    by (intro exI [of _ ?w4] exI [of _ ?sc] exI [of _ ?sv] exI [of _ ?y1])
       (simp add: put_sc_def put_conn_def put_server_def)
qed

text \<open>A peer that asks for a port the server cannot bind ends the process.\<close>

lemma control_channel_port_taken:
  assumes c: "conns w c = Some y" and acc: "accepts_all E (client_fd y)" and fuel: "0 < loop_fuel E"
    and ob: "buf_ok (output_buffer y)"
    and room: "room (output_buffer y) (length (framed_Hello (wire E) (control_reply (data (kern E (hist w) Sys_uuid)))))"
    and taken: "\<And>h f. ret (kern E h (Sys_bind f (InetAddress E (get_ip E (server_addr w)) port))) = -1"
  shows "handle_control_channel_hello E H c name port w = Inl (Exit_Failure ''tcp bind error'')"
proof -
  let ?m = "framed_Hello (wire E) (control_reply (data (kern E (hist w) Sys_uuid)))"
  let ?h0 = "(Sys_uuid, kern E (hist w) Sys_uuid) # hist w"
  have c0: "conns (w\<lparr>hist := ?h0\<rparr>) c = Some y" using c by simp
  obtain b h where b: "Send E H c ?m (w\<lparr>hist := ?h0\<rparr>) = Inr (put_conn c (y\<lparr>output_buffer := b\<rparr>) (w\<lparr>hist := h\<rparr>))"
    by (rule Send_all [OF c0 acc ob room fuel, of H]) (rule that, simp)
  show ?thesis
    using b taken
    by (simp add: handle_control_channel_hello_def GenerateUUIDAsString_def sysw_simp control_reply_def
        SControlChannel_new_def Server_new_bind_fails Let_def)
qed

text \<open>The whole reception of a control \<^verbatim>\<open>Hello\<close>.\<close>

lemma control_hello_handled:
  assumes "protobuf_runtime (wire E)" and "can_listen E" and "conns w c = Some y"
    and "buf_ok (input_buffer y)" and "contents (input_buffer y) = framed_Hello (wire E) (control_hello name port) @ rest"
    and "valid_utf8 (wire E) name" and "valid_utf8 (wire E) []" and "length name < 2 ^ 30"
    and "buf_ok (output_buffer y)" and "contents (output_buffer y) = []"
    and "nonce = data (kern E (hist w) Sys_uuid)" and "map_of (sc_map w) nonce = None"
    and "room (output_buffer y) (length (framed_Hello (wire E) (control_reply nonce)))"
    and "accepts_all E (client_fd y)" and "0 < loop_fuel E"
  shows "\<exists>w' sc sv y'. handle_new_connection E H c w = Inr w'
    \<and> map_of (sc_map w') nonce = Some (next_sc w) \<and> scs w' (next_sc w) = Some sc
    \<and> ncx_client_conn sc = c \<and> wait_handle_visitors sc = [] \<and> bridge_closers sc = []
    \<and> servers w' (proxy_server sc) = Some sv
    \<and> s_on_connect sv = Some (Cb_handle_new_outside (next_sc w)) \<and> connections sv = []
    \<and> Sys_bind (fd (sock sv)) (InetAddress E (get_ip E (server_addr w)) port) \<in> fst ` set (hist w')
    \<and> conns w' c = Some y' \<and> use_count y' = use_count y + 1
    \<and> sent (hist w') = (sent (hist w))(client_fd y :=
        sent (hist w) (client_fd y) @ framed_Hello (wire E) (control_reply nonce))"
proof -
  let ?h = "control_hello name port"
  obtain b where b: "handle_new_connection E H c w =
      (let w1 = put_conn c (y\<lparr>input_buffer := b\<rparr>) w in
       if hello_type ?h = CONTROL_CHANNEL_HELLO then
         handle_control_channel_hello E H c (service_name (control_channel_hello_content ?h))
           (ucast (proxy_port (control_channel_hello_content ?h))) w1
       else if hello_type ?h = DATA_CHANNEL_HELLO
       then handle_data_channel_hello E H c (digest ?h) w1 else Inr w1)"
    by (rule handle_new_connection_hello [OF assms(1,3,4)
          protobuf_runtime.control_hello_canonical [OF assms(1,6,7,8)]
          protobuf_runtime.control_hello_size [OF assms(1,8)] assms(5), of H])
  let ?w1 = "put_conn c (y\<lparr>input_buffer := b\<rparr>) w"
  have "handle_new_connection E H c w = handle_control_channel_hello E H c name port ?w1"
    using b by (simp add: control_hello_fields Let_def)
  moreover have "\<exists>w' sc sv y'. handle_control_channel_hello E H c name port ?w1 = Inr w'
    \<and> map_of (sc_map w') nonce = Some (next_sc ?w1) \<and> scs w' (next_sc ?w1) = Some sc
    \<and> ncx_client_conn sc = c \<and> wait_handle_visitors sc = [] \<and> bridge_closers sc = []
    \<and> servers w' (proxy_server sc) = Some sv
    \<and> s_on_connect sv = Some (Cb_handle_new_outside (next_sc ?w1)) \<and> connections sv = []
    \<and> Sys_bind (fd (sock sv)) (InetAddress E (get_ip E (server_addr ?w1)) port) \<in> fst ` set (hist w')
    \<and> conns w' c = Some y' \<and> use_count y' = use_count (y\<lparr>input_buffer := b\<rparr>) + 1
    \<and> sent (hist w') = (sent (hist ?w1))(client_fd (y\<lparr>input_buffer := b\<rparr>) :=
        sent (hist ?w1) (client_fd (y\<lparr>input_buffer := b\<rparr>)) @ framed_Hello (wire E) (control_reply nonce))"
    by (rule control_channel_opened [OF assms(2)]) (use assms(9-) in simp_all)
  ultimately show ?thesis by simp
qed

end
