(* ===== verification/Client.thy ===== *)
theory Client
  imports Conn
begin

text \<open>
  \<^verbatim>\<open>Connector\<close> and \<^verbatim>\<open>Client\<close> (\<^verbatim>\<open>network/connector.cpp\<close>, \<^verbatim>\<open>network/client.cpp\<close>, \<^verbatim>\<open>network/client.h\<close>): opening one
  TCP connection from the loop's thread, and what happens to it when the peer closes it or when the
  client object is destroyed. Clients are addressed by number; a number that is no longer in the
  table is a dangling pointer.
\<close>

section \<open>State\<close>

datatype connector_state = kDisconnected | kConnecting | kConnected

text \<open>No code assigns \<^verbatim>\<open>channel_\<close>: it stays the null pointer.\<close>

record connector =
  cn_server_addr :: sockaddr_in
  connect_flag :: bool
  cn_socket :: TcpSocket
  cn_channel :: "channel option"
  cn_state :: connector_state

record 'cb client =
  cl_connector :: connector
  cl_on_connect :: "'cb option"
  cl_on_message :: "'cb option"
  cl_on_disconnect :: "'cb option"
  connected :: bool
  cl_conn :: "nat option"
  next_conn_id :: int

record 'cb cli_world = "'cb conn_world" +
  clients :: "nat \<Rightarrow> 'cb client option"
  next_client :: nat

definition the_client :: "nat \<Rightarrow> ('cb, 'z) cli_world_scheme \<Rightarrow> 'cb client res" where
  "the_client k w = (case clients w k of None \<Rightarrow> Inl Undefined_Behaviour | Some x \<Rightarrow> Inr x)"

definition put_client ::
  "nat \<Rightarrow> 'cb client \<Rightarrow> ('cb, 'z) cli_world_scheme \<Rightarrow> ('cb, 'z) cli_world_scheme" where
  "put_client k x w = w\<lparr>clients := (clients w)(k \<mapsto> x)\<rparr>"

definition modify_client ::
  "nat \<Rightarrow> ('cb client \<Rightarrow> 'cb client) \<Rightarrow> ('cb, 'z) cli_world_scheme
   \<Rightarrow> ('cb, 'z) cli_world_scheme res" where
  "modify_client k f w = bindR (the_client k w) (\<lambda>x. Inr (put_client k (f x) w))"

section \<open>Connector\<close>

definition Connector_new :: "env \<Rightarrow> sockaddr_in \<Rightarrow> history \<Rightarrow> (connector \<times> history) res" where
  "Connector_new E addr h =
     bindR (TcpSocket_new E True h) (\<lambda>(sk, h1).
       Inr (\<lparr>cn_server_addr = addr, connect_flag = False, cn_socket = sk, cn_channel = None,
             cn_state = kDisconnected\<rparr>, h1))"

definition set_connector ::
  "nat \<Rightarrow> (connector \<Rightarrow> connector) \<Rightarrow> ('cb, 'z) cli_world_scheme \<Rightarrow> ('cb, 'z) cli_world_scheme res" where
  "set_connector k f w = modify_client k (\<lambda>x. x\<lparr>cl_connector := f (cl_connector x)\<rparr>) w"

definition Connector_connect ::
  "env \<Rightarrow> nat \<Rightarrow> ('cb, 'z) cli_world_scheme \<Rightarrow> (int \<times> ('cb, 'z) cli_world_scheme) res" where
  "Connector_connect E k w =
     bindR (the_client k w) (\<lambda>x.
     let cn = cl_connector x in
     bindR (TcpSocket_connect E (cn_socket cn) (cn_server_addr cn) (hist w)) (\<lambda>h1.
       Inr (fd (cn_socket cn), w\<lparr>hist := h1\<rparr>)))"

definition resetChannel ::
  "nat \<Rightarrow> ('cb, 'z) cli_world_scheme \<Rightarrow> ('cb, 'z) cli_world_scheme res" where
  "resetChannel k w = set_connector k (\<lambda>cn. cn\<lparr>cn_channel := None\<rparr>) w"

definition removeAndResetChannel ::
  "env \<Rightarrow> nat \<Rightarrow> ('cb, 'z) cli_world_scheme \<Rightarrow> (int \<times> ('cb, 'z) cli_world_scheme) res" where
  "removeAndResetChannel E k w =
     bindR (the_client k w) (\<lambda>x. case cn_channel (cl_connector x) of
        None \<Rightarrow> Inl Undefined_Behaviour
      | Some ch \<Rightarrow>
          (let (ch1, w1) = disableAll E (Chan_connector k) ch w;
               w2 = Epoll_delete_channel E (Chan_connector k) ch1 w1
           in bindR (set_connector k (\<lambda>cn. cn\<lparr>cn_channel := Some ch1\<rparr>) w2) (\<lambda>w3.
              bindR (run_on_onwer_thread E (Task_resetChannel k) (resetChannel k) w3) (\<lambda>w4.
                Inr (ch_fd ch1, w4)))))"

definition stopInLoop ::
  "env \<Rightarrow> nat \<Rightarrow> ('cb, 'z) cli_world_scheme \<Rightarrow> ('cb, 'z) cli_world_scheme res" where
  "stopInLoop E k w =
     bindR (the_client k w) (\<lambda>x.
       if cn_state (cl_connector x) = kConnecting then
         bindR (set_connector k (\<lambda>cn. cn\<lparr>cn_state := kDisconnected\<rparr>) w) (\<lambda>w1.
         bindR (removeAndResetChannel E k w1) (\<lambda>(sockfd, w2).
           Inr (w2\<lparr>hist := Close E sockfd (hist w2)\<rparr>)))
       else Inr w)"

definition Connector_stop ::
  "env \<Rightarrow> nat \<Rightarrow> ('cb, 'z) cli_world_scheme \<Rightarrow> ('cb, 'z) cli_world_scheme res" where
  "Connector_stop E k w =
     bindR (set_connector k (\<lambda>cn. cn\<lparr>connect_flag := False\<rparr>) w)
       (run_on_onwer_thread E (Task_stopInLoop k) (stopInLoop E k))"

section \<open>A new connection\<close>

definition newConnection ::
  "env \<Rightarrow> ('cb, ('cb, 'z) cli_world_scheme) hooks \<Rightarrow> nat \<Rightarrow> int
   \<Rightarrow> ('cb, 'z) cli_world_scheme \<Rightarrow> ('cb, 'z) cli_world_scheme res" where
  "newConnection E H k sockfd w =
     (let (here, w0) = isInEpollLoop E w in
      bindR (assertR here) (\<lambda>_.
      let (localAddr, h1) = getLocalAddr E sockfd (hist w0);
          (peerAddr, h2) = getPeerAddr E sockfd h1 in
      bindR (modify_client k (\<lambda>x. x\<lparr>next_conn_id := next_conn_id x + 1\<rparr>) (w0\<lparr>hist := h2\<rparr>)) (\<lambda>w1.
      let (c, w2) = Connection_new E sockfd localAddr peerAddr w1 in
      bindR (set_nonblocking E c w2) (\<lambda>w3.
      bindR (the_client k w3) (\<lambda>x.
      bindR (set_conn_handle c (cl_on_connect x) w3) (\<lambda>w4.
      bindR (set_message_handle c (cl_on_message x) w4) (\<lambda>w5.
      bindR (set_close_handle c (Cb_removeConnection k) w5) (\<lambda>w6.
      bindR (shared_copy c w6) (\<lambda>w7.
      let w8 = put_client k (x\<lparr>cl_conn := Some c\<rparr>) w7 in
      bindR (case cl_conn x of None \<Rightarrow> Inr w8 | Some old \<Rightarrow> shared_drop E old w8) (\<lambda>w9.
      bindR (ConnectionEstablished E H c w9) (shared_drop E c)))))))))))"

definition startInLoop ::
  "env \<Rightarrow> ('cb, ('cb, 'z) cli_world_scheme) hooks \<Rightarrow> nat
   \<Rightarrow> ('cb, 'z) cli_world_scheme \<Rightarrow> ('cb, 'z) cli_world_scheme res" where
  "startInLoop E H k w =
     bindR (the_client k w) (\<lambda>x.
     bindR (assertR (cn_state (cl_connector x) = kDisconnected)) (\<lambda>_.
       if connect_flag (cl_connector x) then
         bindR (Connector_connect E k w) (\<lambda>(sockfd, w1).
         bindR (set_connector k (\<lambda>cn. cn\<lparr>cn_state := kConnected\<rparr>) w1)
           (newConnection E H k sockfd))
       else Inr w))"

definition Connector_start ::
  "env \<Rightarrow> ('cb, ('cb, 'z) cli_world_scheme) hooks \<Rightarrow> nat
   \<Rightarrow> ('cb, 'z) cli_world_scheme \<Rightarrow> ('cb, 'z) cli_world_scheme res" where
  "Connector_start E H k w =
     bindR (set_connector k (\<lambda>cn. cn\<lparr>connect_flag := True\<rparr>) w)
       (run_on_onwer_thread E (Task_startInLoop k) (startInLoop E H k))"

section \<open>Client\<close>

definition Client_new ::
  "env \<Rightarrow> sockaddr_in \<Rightarrow> ('cb, 'z) cli_world_scheme \<Rightarrow> (nat \<times> ('cb, 'z) cli_world_scheme) res" where
  "Client_new E addr w =
     bindR (Connector_new E addr (hist w)) (\<lambda>(cn, h1).
       let k = next_client w;
           x = \<lparr>cl_connector = cn, cl_on_connect = None, cl_on_message = None, cl_on_disconnect = None,
                connected = False, cl_conn = None, next_conn_id = 0\<rparr>
       in Inr (k, (put_client k x (w\<lparr>hist := h1\<rparr>))\<lparr>next_client := Suc k\<rparr>))"

definition Client_connect ::
  "env \<Rightarrow> ('cb, ('cb, 'z) cli_world_scheme) hooks \<Rightarrow> nat
   \<Rightarrow> ('cb, 'z) cli_world_scheme \<Rightarrow> ('cb, 'z) cli_world_scheme res" where
  "Client_connect E H k w =
     bindR (the_client k w) (\<lambda>x.
       if \<not> connected x then Connector_start E H k (put_client k (x\<lparr>connected := True\<rparr>) w)
       else Inr w)"

definition Client_stop ::
  "env \<Rightarrow> nat \<Rightarrow> ('cb, 'z) cli_world_scheme \<Rightarrow> ('cb, 'z) cli_world_scheme res" where
  "Client_stop E k w =
     bindR (modify_client k (\<lambda>x. x\<lparr>connected := False\<rparr>) w) (Connector_stop E k)"

definition set_on_connect_cb ::
  "nat \<Rightarrow> 'cb \<Rightarrow> ('cb, 'z) cli_world_scheme \<Rightarrow> ('cb, 'z) cli_world_scheme res" where
  "set_on_connect_cb k cb w =
     bindR (the_client k w) (\<lambda>x.
       let w1 = put_client k (x\<lparr>cl_on_connect := Some cb\<rparr>) w
       in case cl_conn x of Some c \<Rightarrow> set_conn_handle c (Some cb) w1 | None \<Rightarrow> Inr w1)"

definition set_on_message_cb ::
  "nat \<Rightarrow> 'cb \<Rightarrow> ('cb, 'z) cli_world_scheme \<Rightarrow> ('cb, 'z) cli_world_scheme res" where
  "set_on_message_cb k cb w =
     bindR (the_client k w) (\<lambda>x.
       let w1 = put_client k (x\<lparr>cl_on_message := Some cb\<rparr>) w
       in case cl_conn x of Some c \<Rightarrow> set_message_handle c (Some cb) w1 | None \<Rightarrow> Inr w1)"

definition set_on_disconnect_cb ::
  "nat \<Rightarrow> 'cb \<Rightarrow> ('cb, 'z) cli_world_scheme \<Rightarrow> ('cb, 'z) cli_world_scheme res" where
  "set_on_disconnect_cb k cb w = modify_client k (\<lambda>x. x\<lparr>cl_on_disconnect := Some cb\<rparr>) w"

definition get_connection :: "nat \<Rightarrow> ('cb, 'z) cli_world_scheme \<Rightarrow> nat option res" where
  "get_connection k w = bindR (the_client k w) (\<lambda>x. Inr (cl_conn x))"

definition removeConnection ::
  "env \<Rightarrow> ('cb \<Rightarrow> nat option \<Rightarrow> ('cb, 'z) cli_world_scheme \<Rightarrow> ('cb, 'z) cli_world_scheme res)
   \<Rightarrow> nat \<Rightarrow> nat \<Rightarrow> ('cb, 'z) cli_world_scheme \<Rightarrow> ('cb, 'z) cli_world_scheme res" where
  "removeConnection E rc k c w =
     (let (here, w0) = isInEpollLoop E w in
      bindR (assertR here) (\<lambda>_.
      bindR (the_client k w0) (\<lambda>x.
      bindR (assertR (cl_conn x = Some c)) (\<lambda>_.
      bindR (shared_drop E c (put_client k (x\<lparr>cl_conn := None\<rparr>) w0)) (\<lambda>w1.
      bindR (run_bound E c (Task_ConnectionConstructor c) (ConnectionConstructor E c) w1) (\<lambda>w2.
      bindR (modify_client k (\<lambda>y. y\<lparr>connected := False\<rparr>) w2) (\<lambda>w3.
      bindR (the_client k w3) (\<lambda>y. case cl_on_disconnect y of
         Some cb \<Rightarrow> rc cb None w3
       | None \<Rightarrow> Inr w3))))))))"

definition remove_connection ::
  "env \<Rightarrow> nat \<Rightarrow> ('cb, 'z) conn_world_scheme \<Rightarrow> ('cb, 'z) conn_world_scheme res" where
  "remove_connection E c w = run_bound E c (Task_ConnectionConstructor c) (ConnectionConstructor E c) w"

text \<open>
  The destructor. The member \<^verbatim>\<open>conn_\<close> goes before \<^verbatim>\<open>connector_\<close>, whose socket closes the descriptor it
  opened, the one the connection was given.
\<close>

definition Client_destroy ::
  "env \<Rightarrow> ('cb, ('cb, 'z) cli_world_scheme) hooks \<Rightarrow> nat
   \<Rightarrow> ('cb, 'z) cli_world_scheme \<Rightarrow> ('cb, 'z) cli_world_scheme res" where
  "Client_destroy E H k w =
     bindR (the_client k w) (\<lambda>x.
     bindR (case cl_conn x of
              None \<Rightarrow> Inr w
            | Some c \<Rightarrow>
                bindR (deref c w) (\<lambda>y.
                let unique = (use_count y = 1) in
                bindR (shared_copy c w) (\<lambda>w1.
                bindR (run_bound E c (Task_set_close_handle c)
                         (set_close_handle c Cb_remove_connection) w1) (\<lambda>w2.
                bindR (if unique then force_close E H c w2 else Inr w2) (\<lambda>w3.
                bindR (shared_drop E c w3) (shared_drop E c)))))) (\<lambda>w4.
       Inr (w4\<lparr>hist := TcpSocket_destroy E (cn_socket (cl_connector x)) (hist w4),
               clients := (clients w4)(k := None)\<rparr>)))"

section \<open>Events and tasks of a process with clients\<close>

definition cli_run_close ::
  "env \<Rightarrow> ('cb \<Rightarrow> nat option \<Rightarrow> ('cb, 'z) cli_world_scheme \<Rightarrow> ('cb, 'z) cli_world_scheme res)
   \<Rightarrow> close_cb \<Rightarrow> nat \<Rightarrow> ('cb, 'z) cli_world_scheme \<Rightarrow> ('cb, 'z) cli_world_scheme res" where
  "cli_run_close E rc cb c w =
     (case cb of
        Cb_removeConnection k \<Rightarrow> removeConnection E rc k c w
      | Cb_remove_connection \<Rightarrow> remove_connection E c w
      | Cb_disconnectHandle _ \<Rightarrow> Inl Undefined_Behaviour)"

definition cli_set_revs ::
  "channel_ptr \<Rightarrow> u32 \<Rightarrow> ('cb, 'z) cli_world_scheme \<Rightarrow> ('cb, 'z) cli_world_scheme res" where
  "cli_set_revs p ev w =
     (case p of
        Chan_conn c \<Rightarrow> modify c (\<lambda>x. x\<lparr>c_channel := setRevs ev (c_channel x)\<rparr>) w
      | Chan_wakeup \<Rightarrow> Inr (w\<lparr>wakeup_channel := setRevs ev (wakeup_channel w)\<rparr>)
      | _ \<Rightarrow> Inl Undefined_Behaviour)"

definition cli_handle_event ::
  "env \<Rightarrow> ('cb, ('cb, 'z) cli_world_scheme) hooks \<Rightarrow> channel_ptr
   \<Rightarrow> ('cb, 'z) cli_world_scheme \<Rightarrow> ('cb, 'z) cli_world_scheme res" where
  "cli_handle_event E H p w =
     (case p of
        Chan_conn c \<Rightarrow> conn_handle_event E H c w
      | Chan_wakeup \<Rightarrow>
          handle_event_guard (\<lambda>v. Inr (wakeup_channel v))
            (\<lambda>cb v. if cb = Cb_wakeup_callback then Inr (wakeup_callback E v) else Inr v) w
      | _ \<Rightarrow> Inl Undefined_Behaviour)"

definition cli_run_task ::
  "env \<Rightarrow> ('cb, ('cb, 'z) cli_world_scheme) hooks \<Rightarrow> task
   \<Rightarrow> ('cb, 'z) cli_world_scheme \<Rightarrow> ('cb, 'z) cli_world_scheme res" where
  "cli_run_task E H t w =
     (case t of
        Task_handle_close c \<Rightarrow> handle_close E H c w
      | Task_ConnectionConstructor c \<Rightarrow> bindR (ConnectionConstructor E c w) (shared_drop E c)
      | Task_set_close_handle c \<Rightarrow>
          bindR (set_close_handle c Cb_remove_connection w) (shared_drop E c)
      | Task_startInLoop k \<Rightarrow> startInLoop E H k w
      | Task_stopInLoop k \<Rightarrow> stopInLoop E k w
      | Task_resetChannel k \<Rightarrow> resetChannel k w
      | Task_disconnectHandleInLoop _ _ \<Rightarrow> Inl Undefined_Behaviour)"

section \<open>Facts\<close>

lemma the_client_Some [simp]: "clients w k = Some x \<Longrightarrow> the_client k w = Inr x"
  by (simp add: the_client_def)

lemma put_client_simps [simp]:
  "clients (put_client k y w) = (clients w)(k \<mapsto> y)"
  "conns (put_client k y w) = conns w" "hist (put_client k y w) = hist w"
  "epoll_fd (put_client k y w) = epoll_fd w" "wakeup_fd (put_client k y w) = wakeup_fd w"
  "to_do_list (put_client k y w) = to_do_list w" "next_ref (put_client k y w) = next_ref w"
  "in_loop (put_client k y w) = in_loop w" "next_client (put_client k y w) = next_client w"
  "put_client k y (put_client k z w) = put_client k y w"
  "put_conn c x (put_client k y w) = put_client k y (put_conn c x w)"
  "(put_client k y w)\<lparr>hist := h\<rparr> = put_client k y (w\<lparr>hist := h\<rparr>)"
  by (simp_all add: put_client_def put_conn_def in_loop_def)

lemma clients_put_conn [simp]:
  "clients (put_conn c x w) = clients w" "next_client (put_conn c x w) = next_client w"
  by (simp_all add: put_conn_def)

text \<open>A second \<^verbatim>\<open>connect\<close> after the connection was lost: the connector is still \<^verbatim>\<open>kConnected\<close>.\<close>

lemma reconnect_asserts:
  assumes "in_loop w" and "clients w k = Some x" and "\<not> connected x"
    and "cn_state (cl_connector x) = kConnected"
  shows "Client_connect E H k w = Inl Assertion_Failed"
  using assms
  by (simp add: Client_connect_def Connector_start_def set_connector_def modify_client_def
      startInLoop_def)

lemma remove_connection_in_loop:
  assumes "in_loop w" and "conns w c = Some x" and "1 \<le> use_count x"
  shows "remove_connection E c w =
    Inr (put_conn c (retired x) (w\<lparr>hist := unwatch E c x (epoll_fd w) (hist w)\<rparr>))"
proof -
  let ?x1 = "x\<lparr>use_count := use_count x + 1\<rparr>"
  let ?v = "put_conn c (retired ?x1) (w\<lparr>hist := unwatch E c x (epoll_fd w) (hist w)\<rparr>)"
  have "ConnectionConstructor E c (put_conn c ?x1 w) = Inr ?v"
    by (subst ConnectionConstructor_Some [where x = ?x1]) simp_all
  from run_bound_in_loop [of w c x "ConnectionConstructor E c", OF assms(1,2) this, of "retired ?x1"]
  show ?thesis using assms(3) by (simp add: remove_connection_def)
qed

text \<open>The destructor of a client that alone holds its connection.\<close>

lemma force_close_removed:
  assumes "in_loop w" and y: "conns w c = Some y" and "c_state y = CONNECTED" and "2 \<le> use_count y"
    and cb: "on_close y = Some Cb_remove_connection" "run_close H = cli_run_close E rc"
    and n: "notice_on_close y = None"
  shows "force_close E H c w =
    Inr (put_conn c (y\<lparr>c_state := DISCONNECTED\<rparr>)
      (w\<lparr>hist := unwatch E c (y\<lparr>c_state := DISCONNECTING\<rparr>) (epoll_fd w) (hist w)\<rparr>))"
proof -
  let ?y1 = "y\<lparr>c_state := DISCONNECTING\<rparr>"
  let ?w1 = "put_conn c ?y1 w"
  let ?y2 = "?y1\<lparr>use_count := use_count y + 1\<rparr>"
  let ?h = "unwatch E c ?y1 (epoll_fd w) (hist w)"
  have "cli_run_close E rc Cb_remove_connection c (put_conn c ?y2 ?w1) =
      Inr (put_conn c ?y2 (w\<lparr>hist := ?h\<rparr>))"
    using remove_connection_in_loop [of "put_conn c ?y2 ?w1" c ?y2 E] assms(1)
    by (simp add: cli_run_close_def retired_def)
  then have "holding E c (cli_run_close E rc Cb_remove_connection c) ?w1 =
      Inr (put_conn c (?y2\<lparr>use_count := use_count ?y2 - 1\<rparr>) (put_conn c ?y2 (w\<lparr>hist := ?h\<rparr>)))"
    by (intro holding_Some [of _ _ ?y1]) (use assms(4) in simp_all)
  also have "\<dots> = Inr (put_conn c ?y1 (w\<lparr>hist := ?h\<rparr>))" by simp
  finally have "handle_close E H c ?w1 = Inr (put_conn c (y\<lparr>c_state := DISCONNECTED\<rparr>) (w\<lparr>hist := ?h\<rparr>))"
    using cb n by (simp add: handle_close_def)
  then show ?thesis using assms(1-3) by (simp add: force_close_def)
qed

lemma Client_destroy_closes_twice:
  assumes loop: "in_loop w" and x: "clients w k = Some x" "cl_conn x = Some c"
    and y: "conns w c = Some y" "use_count y = 1" "c_state y = CONNECTED" "notice_on_close y = None"
    and H: "run_close H = cli_run_close E rc"
    and f: "client_fd y = fd (cn_socket (cl_connector x))"
  shows "\<exists>w'. Client_destroy E H k w = Inr w' \<and> clients w' k = None \<and> conns w' c = None
    \<and> closed (hist w') = (closed (hist w))(client_fd y := closed (hist w) (client_fd y) + 2)"
proof -
  let ?z = "y\<lparr>on_close := Some Cb_remove_connection, use_count := 2\<rparr>"
  let ?w1 = "put_conn c (y\<lparr>use_count := 2\<rparr>) w"
  let ?w2 = "put_conn c ?z w"
  let ?w3 = "put_conn c (?z\<lparr>c_state := DISCONNECTED\<rparr>)
      (w\<lparr>hist := unwatch E c (?z\<lparr>c_state := DISCONNECTING\<rparr>) (epoll_fd w) (hist w)\<rparr>)"
  let ?w4 = "put_conn c (?z\<lparr>c_state := DISCONNECTED, use_count := 1\<rparr>) ?w3"
  have c1: "shared_copy c w = Inr ?w1" using y by (simp add: numeral_2_eq_2)
  have c2: "run_bound E c (Task_set_close_handle c) (set_close_handle c Cb_remove_connection) ?w1 = Inr ?w2"
    using loop by (simp add: run_bound_def set_close_handle_def)
  have c3: "force_close E H c ?w2 = Inr ?w3"
    by (subst force_close_removed [of ?w2 c ?z H E rc]) (use loop y(3,4) H in simp_all)
  have c4: "shared_drop E c ?w3 = Inr ?w4"
    by (subst shared_drop_more [of _ _ "?z\<lparr>c_state := DISCONNECTED\<rparr>"]) simp_all
  have "closed (unwatch E c (?z\<lparr>c_state := DISCONNECTING\<rparr>) (epoll_fd w) (hist w)) = closed (hist w)"
    using unwatch_frame(1) [of "{}" "hist w"] unfolding quiet_def by blast
  moreover obtain w5 where w5: "shared_drop E c ?w4 = Inr w5" "conns w5 c = None"
      "hist w5 = (Sys_close (client_fd y), kern E (hist ?w3) (Sys_close (client_fd y))) # hist ?w3"
    by (subst (asm) shared_drop_last [of ?w4 c "?z\<lparr>c_state := DISCONNECTED, use_count := 1\<rparr>"])
       (simp_all add: sysw_simp)
  ultimately show ?thesis
    using x y(1,2) f
    by (simp add: Client_destroy_def c1 c2 c3 c4 w5(1) Let_def del: put_conn_simps)
       (simp add: w5 TcpSocket_destroy_def fun_eq_iff)
qed

end
