(* ===== verification/NcxClient.thy ===== *)
theory NcxClient
  imports Client Protocol "HOL-Library.AList"
begin

text \<open>
  The tunnel client \<^verbatim>\<open>ncxc\<close> (\<^verbatim>\<open>ncx_client/\<close>): \<^verbatim>\<open>NClient\<close> keeps the control channels, a \<^verbatim>\<open>CControlChannel\<close>
  performs the handshake and obeys the server's commands, and a \<^verbatim>\<open>DataChannel\<close> joins one connection
  to the server with one to the local service. The closures are the values of \<open>cli_cb\<close>.

  Operations whose name the server uses too end in \<open>_c\<close>.
\<close>

section \<open>State\<close>

datatype cli_cb =
    Cb_control_handshake nat
  | Cb_wait_control_hello nat
  | Cb_wait_server_cmd nat
  | Cb_data_handshake nat
  | Cb_wait_start nat
  | Cb_to_service nat
  | Cb_to_server nat
  | Cb_delete_data nat

record CControlChannelArgs =
  a_server_addr :: sockaddr_in
  a_service_name :: bytes
  a_service_addr :: sockaddr_in
  a_proxy_port :: u16

record CControlChannel =
  cc_id :: bytes
  cc_args :: CControlChannelArgs
  control_client :: nat
  data_pool :: "(bytes \<times> nat) list"
  register_set :: bool

record DataChannel =
  channel_id :: bytes
  dc_nonce :: bytes
  server_client :: nat
  service_client :: nat
  data_channel_delete :: "nat option"

text \<open>An entry of \<^verbatim>\<open>cc_map_\<close> whose pointer has been moved out holds null: \<open>None\<close>.\<close>

record NClient = "cli_cb cli_world" +
  cc_map :: "(bytes \<times> nat option) list"
  ccs :: "nat \<Rightarrow> CControlChannel option"
  next_cc :: nat
  dcs :: "nat \<Rightarrow> DataChannel option"
  next_dc :: nat

type_synonym cli_hooks = "(cli_cb, NClient) hooks"

definition the_cc :: "nat \<Rightarrow> NClient \<Rightarrow> CControlChannel res" where
  "the_cc j w = (case ccs w j of None \<Rightarrow> Inl Undefined_Behaviour | Some x \<Rightarrow> Inr x)"

definition put_cc :: "nat \<Rightarrow> CControlChannel \<Rightarrow> NClient \<Rightarrow> NClient" where
  "put_cc j x w = w\<lparr>ccs := (ccs w)(j \<mapsto> x)\<rparr>"

definition the_dc :: "nat \<Rightarrow> NClient \<Rightarrow> DataChannel res" where
  "the_dc d w = (case dcs w d of None \<Rightarrow> Inl Undefined_Behaviour | Some x \<Rightarrow> Inr x)"

definition put_dc :: "nat \<Rightarrow> DataChannel \<Rightarrow> NClient \<Rightarrow> NClient" where
  "put_dc d x w = w\<lparr>dcs := (dcs w)(d \<mapsto> x)\<rparr>"

section \<open>DataChannel\<close>

definition DataChannel_new ::
  "env \<Rightarrow> cli_hooks \<Rightarrow> sockaddr_in \<Rightarrow> sockaddr_in \<Rightarrow> bytes \<Rightarrow> NClient \<Rightarrow> (nat \<times> NClient) res" where
  "DataChannel_new E H addr service nonce w =
     (let d = next_dc w; (i, w1) = GenerateUUIDAsString E w in
      bindR (Client_new E addr w1) (\<lambda>(k1, w2).
      bindR (Client_new E service w2) (\<lambda>(k2, w3).
      let x = \<lparr>channel_id = i, dc_nonce = nonce, server_client = k1, service_client = k2,
               data_channel_delete = None\<rparr>;
          w4 = (put_dc d x w3)\<lparr>next_dc := Suc d\<rparr> in
      bindR (set_on_connect_cb k1 (Cb_data_handshake d) w4) (\<lambda>w5.
      bindR (set_on_message_cb k1 (Cb_wait_start d) w5) (\<lambda>w6.
      bindR (set_on_disconnect_cb k1 (Cb_delete_data d) w6) (\<lambda>w7.
      bindR (Client_connect E H k1 w7) (\<lambda>w8. Inr (d, w8))))))))"

definition DataChannel_destroy :: "env \<Rightarrow> cli_hooks \<Rightarrow> nat \<Rightarrow> NClient \<Rightarrow> NClient res" where
  "DataChannel_destroy E H d w =
     bindR (the_dc d w) (\<lambda>x.
     bindR (Client_destroy E H (service_client x) w) (\<lambda>w1.
     bindR (Client_destroy E H (server_client x) w1) (\<lambda>w2.
       Inr (w2\<lparr>dcs := (dcs w2)(d := None)\<rparr>))))"

definition do_data_channel_handshake ::
  "env \<Rightarrow> cli_hooks \<Rightarrow> nat \<Rightarrow> nat \<Rightarrow> NClient \<Rightarrow> NClient res" where
  "do_data_channel_handshake E H d server_conn w =
     bindR (the_dc d w) (\<lambda>x.
       let hello = set_digest (dc_nonce x) (set_hello_type DATA_CHANNEL_HELLO Hello_new) in
       bindR (Send E H server_conn (framed_Hello (wire E) hello) w)
         (set_message_handle server_conn (Some (Cb_wait_start d))))"

definition do_data_channel_transforward :: "env \<Rightarrow> cli_hooks \<Rightarrow> nat \<Rightarrow> NClient \<Rightarrow> NClient res" where
  "do_data_channel_transforward E H d w =
     bindR (the_dc d w) (\<lambda>x.
     bindR (set_on_message_cb (server_client x) (Cb_to_service d) w) (\<lambda>w1.
     bindR (set_on_message_cb (service_client x) (Cb_to_server d) w1) (\<lambda>w2.
     bindR (Client_connect E H (service_client x) w2) (\<lambda>w3.
     bindR (the_dc d w3) (\<lambda>y.
     bindR (get_connection (server_client y) w3) (\<lambda>c. case c of
        None \<Rightarrow> Inl Undefined_Behaviour
      | Some c1 \<Rightarrow>
          bindR (deref c1 w3) (\<lambda>z.
            if 0 < readAbleBytes (input_buffer z) then holding E c1 (handle_message E H c1) w3
            else Inr w3)))))))"

definition wait_data_channel_start_cmd ::
  "env \<Rightarrow> cli_hooks \<Rightarrow> nat \<Rightarrow> nat \<Rightarrow> NClient \<Rightarrow> NClient res" where
  "wait_data_channel_start_cmd E H d server_conn w =
     bindR (deref server_conn w) (\<lambda>x.
     bindR (take_message (wire E) (input_buffer x)) (\<lambda>(msg, buf).
       let w1 = put_conn server_conn (x\<lparr>input_buffer := buf\<rparr>) w in
       case msg of
         None \<Rightarrow> Inr w1
       | Some recv_cmd \<Rightarrow>
           (let cmd = data_channel_cmd (snd (parse_DataChannelCmd (wire E) recv_cmd)) in
            if cmd = START_FORWARD_TCP then do_data_channel_transforward E H d w1
            else Inr w1)))"

text \<open>The two forwarding closures: the pointer \<^verbatim>\<open>get_connection()\<close> returns lives through the call.\<close>

definition forward_to_client ::
  "env \<Rightarrow> cli_hooks \<Rightarrow> nat \<Rightarrow> nat \<Rightarrow> NClient \<Rightarrow> NClient res" where
  "forward_to_client E H k conn w =
     bindR (deref conn w) (\<lambda>x.
       if 0 < readAbleBytes (input_buffer x) then
         bindR (get_connection k w) (\<lambda>p. case p of
            None \<Rightarrow> Inl Undefined_Behaviour
          | Some peer \<Rightarrow> relay E H peer conn w)
       else Inr w)"

section \<open>CControlChannel\<close>

definition CControlChannel_new ::
  "env \<Rightarrow> bytes \<Rightarrow> CControlChannelArgs \<Rightarrow> NClient \<Rightarrow> (nat \<times> NClient) res" where
  "CControlChannel_new E i args w =
     bindR (Client_new E (a_server_addr args) w) (\<lambda>(k, w1).
       let j = next_cc w1;
           x = \<lparr>cc_id = i, cc_args = args, control_client = k, data_pool = [], register_set = False\<rparr>
       in Inr (j, (put_cc j x w1)\<lparr>next_cc := Suc j\<rparr>))"

definition CControlChannel_destroy :: "env \<Rightarrow> cli_hooks \<Rightarrow> nat \<Rightarrow> NClient \<Rightarrow> NClient res" where
  "CControlChannel_destroy E H j w =
     bindR (the_cc j w) (\<lambda>x.
     bindR (foldR (\<lambda>(_, d). DataChannel_destroy E H d) (data_pool x) w) (\<lambda>w1.
     bindR (Client_destroy E H (control_client x) w1) (\<lambda>w2.
       Inr (w2\<lparr>ccs := (ccs w2)(j := None)\<rparr>))))"

definition do_control_channel_handshake ::
  "env \<Rightarrow> cli_hooks \<Rightarrow> nat \<Rightarrow> nat \<Rightarrow> NClient \<Rightarrow> NClient res" where
  "do_control_channel_handshake E H j server_conn w =
     bindR (the_cc j w) (\<lambda>x.
     bindR (set_on_message_cb (control_client x) (Cb_wait_control_hello j) w) (\<lambda>w1.
       let hello = mutable_hello_content
             (\<lambda>c. set_proxy_port (ucast (a_proxy_port (cc_args x)))
                    (set_service_name (a_service_name (cc_args x)) c))
             (set_hello_type CONTROL_CHANNEL_HELLO Hello_new)
       in Send E H server_conn (framed_Hello (wire E) hello) w1))"

text \<open>
  \<^verbatim>\<open>cc_map_.emplace(new_id, std::move(cc_map_[old_id])); cc_map_.erase(old_id);\<close> The node is built from
  the moved pointer before the key is looked up: when the key is taken, the node and the channel in
  it are destroyed.
\<close>

definition register_control_channel ::
  "env \<Rightarrow> cli_hooks \<Rightarrow> bytes \<Rightarrow> bytes \<Rightarrow> NClient \<Rightarrow> NClient res" where
  "register_control_channel E H old_id new_id w =
     (let p = (case map_of (cc_map w) old_id of Some q \<Rightarrow> q | None \<Rightarrow> None);
          m1 = AList.update old_id None (cc_map w)
      in bindR (if map_of m1 new_id = None then Inr (w\<lparr>cc_map := (new_id, p) # m1\<rparr>)
                else (case p of
                        None \<Rightarrow> Inr (w\<lparr>cc_map := m1\<rparr>)
                      | Some j \<Rightarrow> CControlChannel_destroy E H j (w\<lparr>cc_map := m1\<rparr>)))
           (\<lambda>w1. Inr (w1\<lparr>cc_map := AList.delete old_id (cc_map w1)\<rparr>)))"

definition handle_control_channel_hello_c ::
  "env \<Rightarrow> cli_hooks \<Rightarrow> nat \<Rightarrow> bytes \<Rightarrow> NClient \<Rightarrow> NClient res" where
  "handle_control_channel_hello_c E H j nonce w =
     bindR (the_cc j w) (\<lambda>x.
     bindR (if register_set x then register_control_channel E H (cc_id x) nonce w else Inr w) (\<lambda>w1.
     bindR (the_cc j w1) (\<lambda>y. Inr (put_cc j (y\<lparr>cc_id := nonce\<rparr>) w1))))"

definition wait_control_channel_hello ::
  "env \<Rightarrow> cli_hooks \<Rightarrow> nat \<Rightarrow> nat \<Rightarrow> NClient \<Rightarrow> NClient res" where
  "wait_control_channel_hello E H j server_conn w =
     bindR (deref server_conn w) (\<lambda>x.
     bindR (take_message (wire E) (input_buffer x)) (\<lambda>(msg, buf).
       let w1 = put_conn server_conn (x\<lparr>input_buffer := buf\<rparr>) w in
       case msg of
         None \<Rightarrow> Inr w1
       | Some recv_hello \<Rightarrow>
           (let hello = snd (parse_Hello (wire E) recv_hello) in
            bindR (if hello_type hello = CONTROL_CHANNEL_HELLO
                   then handle_control_channel_hello_c E H j (digest hello) w1 else Inr w1) (\<lambda>w2.
            bindR (the_cc j w2) (\<lambda>y.
              set_on_message_cb (control_client y) (Cb_wait_server_cmd j) w2)))))"

text \<open>Never installed as a callback; it only consumes the message.\<close>

definition wait_ack :: "env \<Rightarrow> nat \<Rightarrow> NClient \<Rightarrow> NClient res" where
  "wait_ack E server_conn w =
     bindR (deref server_conn w) (\<lambda>x.
     bindR (take_message (wire E) (input_buffer x)) (\<lambda>(msg, buf).
       Inr (put_conn server_conn (x\<lparr>input_buffer := buf\<rparr>) w)))"

definition delete_data_channel :: "env \<Rightarrow> cli_hooks \<Rightarrow> nat \<Rightarrow> NClient \<Rightarrow> NClient res" where
  "delete_data_channel E H d w =
     bindR (the_dc d w) (\<lambda>x. case data_channel_delete x of
        None \<Rightarrow> Inl (Thrown ''bad_function_call'')
      | Some j \<Rightarrow>
          bindR (the_cc j w) (\<lambda>y. case map_of (data_pool y) (channel_id x) of
             None \<Rightarrow> Inr w
           | Some d' \<Rightarrow>
               DataChannel_destroy E H d'
                 (put_cc j (y\<lparr>data_pool := AList.delete (channel_id x) (data_pool y)\<rparr>) w)))"

definition handle_cmd_create_datachannel :: "env \<Rightarrow> cli_hooks \<Rightarrow> nat \<Rightarrow> NClient \<Rightarrow> NClient res" where
  "handle_cmd_create_datachannel E H j w =
     bindR (the_cc j w) (\<lambda>x.
     bindR (DataChannel_new E H (a_server_addr (cc_args x)) (a_service_addr (cc_args x)) (cc_id x) w)
       (\<lambda>(d, w1).
     bindR (the_dc d w1) (\<lambda>y.
     let w2 = put_dc d (y\<lparr>data_channel_delete := Some j\<rparr>) w1; i = channel_id y in
     bindR (the_cc j w2) (\<lambda>z.
       if map_of (data_pool z) i = None
       then Inr (put_cc j (z\<lparr>data_pool := (i, d) # data_pool z\<rparr>) w2)
       else DataChannel_destroy E H d w2))))"

definition wait_server_cmd ::
  "env \<Rightarrow> cli_hooks \<Rightarrow> nat \<Rightarrow> nat \<Rightarrow> NClient \<Rightarrow> NClient res" where
  "wait_server_cmd E H j server_conn w =
     bindR (deref server_conn w) (\<lambda>x.
     bindR (take_message (wire E) (input_buffer x)) (\<lambda>(msg, buf).
       let w1 = put_conn server_conn (x\<lparr>input_buffer := buf\<rparr>) w in
       case msg of
         None \<Rightarrow> Inr w1
       | Some recv_cmd \<Rightarrow>
           (let cmd = control_channel_cmd (snd (parse_ControlChannelCmd (wire E) recv_cmd)) in
            if cmd = CREATE_DATA_CHANNEL then handle_cmd_create_datachannel E H j w1
            else Inr w1)))"

definition CControlChannel_start :: "env \<Rightarrow> cli_hooks \<Rightarrow> nat \<Rightarrow> NClient \<Rightarrow> NClient res" where
  "CControlChannel_start E H j w =
     bindR (the_cc j w) (\<lambda>x.
     bindR (set_on_connect_cb (control_client x) (Cb_control_handshake j) w)
       (Client_connect E H (control_client x)))"

section \<open>Closures\<close>

primrec cli_run_cb :: "env \<Rightarrow> nat \<Rightarrow> cli_cb \<Rightarrow> nat option \<Rightarrow> NClient \<Rightarrow> NClient res" where
  "cli_run_cb E 0 = (\<lambda>cb a w. Inl Fuel_Exhausted)"
| "cli_run_cb E (Suc n) = (\<lambda>cb a w.
     let H = \<lparr>run_cb = cli_run_cb E n, run_close = cli_run_close E (cli_run_cb E n)\<rparr> in
     case (cb, a) of
       (Cb_control_handshake j, Some c) \<Rightarrow> do_control_channel_handshake E H j c w
     | (Cb_wait_control_hello j, Some c) \<Rightarrow> wait_control_channel_hello E H j c w
     | (Cb_wait_server_cmd j, Some c) \<Rightarrow> wait_server_cmd E H j c w
     | (Cb_data_handshake d, Some c) \<Rightarrow> do_data_channel_handshake E H d c w
     | (Cb_wait_start d, Some c) \<Rightarrow> wait_data_channel_start_cmd E H d c w
     | (Cb_to_service d, Some c) \<Rightarrow>
         bindR (the_dc d w) (\<lambda>x. forward_to_client E H (service_client x) c w)
     | (Cb_to_server d, Some c) \<Rightarrow>
         bindR (the_dc d w) (\<lambda>x. forward_to_client E H (server_client x) c w)
     | (Cb_delete_data d, _) \<Rightarrow> delete_data_channel E H d w
     | (_, None) \<Rightarrow> Inl Undefined_Behaviour)"

definition cli_hooks :: "env \<Rightarrow> nat \<Rightarrow> cli_hooks" where
  "cli_hooks E n = \<lparr>run_cb = cli_run_cb E n, run_close = cli_run_close E (cli_run_cb E n)\<rparr>"

section \<open>NClient\<close>

definition parse_arg :: "env \<Rightarrow> cli_hooks \<Rightarrow> CControlChannelArgs \<Rightarrow> NClient \<Rightarrow> NClient res" where
  "parse_arg E H args w =
     (let (i, w1) = GenerateUUIDAsString E w in
      bindR (CControlChannel_new E i args w1) (\<lambda>(j, w2).
      bindR (the_cc j w2) (\<lambda>x.
      bindR (CControlChannel_start E H j (put_cc j (x\<lparr>register_set := True\<rparr>) w2)) (\<lambda>w3.
        if map_of (cc_map w3) i = None then Inr (w3\<lparr>cc_map := (i, Some j) # cc_map w3\<rparr>)
        else CControlChannel_destroy E H j w3))))"

definition parse_args :: "env \<Rightarrow> cli_hooks \<Rightarrow> CControlChannelArgs list \<Rightarrow> NClient \<Rightarrow> NClient res" where
  "parse_args E H args w = foldR (parse_arg E H) args w"

definition NClient_new ::
  "env \<Rightarrow> cli_hooks \<Rightarrow> CControlChannelArgs list \<Rightarrow> NClient \<Rightarrow> NClient res" where
  "NClient_new E H cc_set w =
     bindR (EventLoop_new E w) (\<lambda>w1. parse_args E H cc_set (w1\<lparr>cc_map := []\<rparr>))"

definition cli_turn :: "env \<Rightarrow> nat \<Rightarrow> NClient \<Rightarrow> NClient res" where
  "cli_turn E n w =
     loop_turn E cli_set_revs (cli_handle_event E (cli_hooks E n)) (cli_run_task E (cli_hooks E n)) w"

definition run_client :: "env \<Rightarrow> nat \<Rightarrow> nat \<Rightarrow> NClient \<Rightarrow> NClient option res" where
  "run_client E depth n w = EventLoop_run E (cli_turn E depth) n w"

section \<open>Facts\<close>

lemma the_cc_Some [simp]: "ccs w j = Some x \<Longrightarrow> the_cc j w = Inr x"
  by (simp add: the_cc_def)

lemma the_dc_Some [simp]: "dcs w d = Some x \<Longrightarrow> the_dc d w = Inr x"
  by (simp add: the_dc_def)

lemma NClient_put_conn [simp]:
  "ccs (put_conn c x w) = ccs w" "dcs (put_conn c x w) = dcs w" "cc_map (put_conn c x w) = cc_map w"
  by (simp_all add: put_conn_def)

lemma NClient_put_client [simp]:
  "ccs (put_client k x w) = ccs w" "dcs (put_client k x w) = dcs w" "cc_map (put_client k x w) = cc_map w"
  by (simp_all add: put_client_def)

lemma put_cc_simps [simp]:
  "ccs (put_cc j x w) = (ccs w)(j \<mapsto> x)" "conns (put_cc j x w) = conns w"
  "clients (put_cc j x w) = clients w" "hist (put_cc j x w) = hist w" "cc_map (put_cc j x w) = cc_map w"
  "dcs (put_cc j x w) = dcs w"
  by (simp_all add: put_cc_def)

section \<open>Registration\<close>

lemma register_moves:
  assumes "map_of (cc_map w) old_id = Some (Some j)" and "map_of (cc_map w) new_id = None"
    and "old_id \<noteq> new_id"
  shows "\<exists>w'. register_control_channel E H old_id new_id w = Inr w'
    \<and> map_of (cc_map w') = (map_of (cc_map w))(old_id := None, new_id \<mapsto> Some j)
    \<and> ccs w' = ccs w \<and> conns w' = conns w \<and> clients w' = clients w \<and> hist w' = hist w"
  using assms
  by (auto simp: register_control_channel_def update_conv delete_conv fun_eq_iff Let_def)

section \<open>Handshake of a control channel\<close>

lemma control_handshake_sends:
  assumes j: "ccs w j = Some x" "clients w (control_client x) = Some k" "cl_conn k = Some c"
    and c: "conns w c = Some y" "buf_ok (output_buffer y)" "contents (output_buffer y) = []"
      "room (output_buffer y) (length (framed_Hello (wire E)
         (control_hello (a_service_name (cc_args x)) (a_proxy_port (cc_args x)))))"
    and acc: "accepts_all E (client_fd y)" and fuel: "0 < loop_fuel E"
  shows "\<exists>w' y'. do_control_channel_handshake E H j c w = Inr w'
    \<and> conns w' c = Some y' \<and> on_message y' = Some (Cb_wait_control_hello j)
    \<and> sent (hist w') = (sent (hist w))(client_fd y := sent (hist w) (client_fd y)
        @ framed_Hello (wire E) (control_hello (a_service_name (cc_args x)) (a_proxy_port (cc_args x))))"
proof -
  let ?m = "framed_Hello (wire E) (control_hello (a_service_name (cc_args x)) (a_proxy_port (cc_args x)))"
  let ?y1 = "y\<lparr>on_message := Some (Cb_wait_control_hello j)\<rparr>"
  let ?w1 = "put_client (control_client x) (k\<lparr>cl_on_message := Some (Cb_wait_control_hello j)\<rparr>)
      (put_conn c ?y1 w)"
  have m: "set_on_message_cb (control_client x) (Cb_wait_control_hello j) w = Inr ?w1"
    using j c(1) by (simp add: set_on_message_cb_def set_message_handle_def Let_def)
  have c1: "conns ?w1 c = Some ?y1" by simp
  obtain b where b: "Send E H c ?m ?w1 = Inr (put_conn c (?y1\<lparr>output_buffer := b\<rparr>)
      (?w1\<lparr>hist := wrote E (client_fd ?y1) (contents (output_buffer ?y1) @ ?m) (hist ?w1)\<rparr>))"
    by (rule Send_all [OF c1, where E = E and m = ?m and H = H]) (use c acc fuel in simp_all)
  have "do_control_channel_handshake E H j c w = Send E H c ?m ?w1"
    using j(1) m by (simp add: do_control_channel_handshake_def control_hello_def Let_def)
  with b c(3) acc show ?thesis by (simp add: sent_wrote)
qed

lemma control_reply_registers:
  assumes rt: "protobuf_runtime (wire E)"
    and j: "ccs w j = Some x" "clients w (control_client x) = Some k" "cl_conn k = Some c" "register_set x"
    and map: "map_of (cc_map w) (cc_id x) = Some (Some j)" "map_of (cc_map w) nonce = None"
    and c: "conns w c = Some y" "buf_ok (input_buffer y)"
      "contents (input_buffer y) = framed_Hello (wire E) (control_reply nonce) @ rest"
    and nonce: "valid_utf8 (wire E) nonce" "length nonce < 2 ^ 30"
  shows "\<exists>w' y'. wait_control_channel_hello E H j c w = Inr w'
    \<and> ccs w' = (ccs w)(j \<mapsto> x\<lparr>cc_id := nonce\<rparr>)
    \<and> map_of (cc_map w') = (map_of (cc_map w))(cc_id x := None, nonce \<mapsto> Some j)
    \<and> conns w' c = Some y' \<and> on_message y' = Some (Cb_wait_server_cmd j)
    \<and> contents (input_buffer y') = rest"
proof -
  have ne: "cc_id x \<noteq> nonce" using map by auto
  have n31: "length nonce < 2 ^ 31" using nonce(2) by simp
  obtain m b where m: "take_message (wire E) (input_buffer y) = Inr (Some m, b)"
      "parse_Hello (wire E) m = (True, control_reply nonce)" "contents b = rest"
    using protobuf_runtime.hello_frame [OF rt protobuf_runtime.digest_hello_canonical(1) [OF rt nonce(1) n31]
        protobuf_runtime.digest_hello_size(1,2) [OF rt nonce(2)] c(2,3)] by metis
  let ?w1 = "put_conn c (y\<lparr>input_buffer := b\<rparr>) w"
  obtain w2 where w2: "register_control_channel E H (cc_id x) nonce ?w1 = Inr w2"
      "map_of (cc_map w2) = (map_of (cc_map w))(cc_id x := None, nonce \<mapsto> Some j)"
      "ccs w2 = ccs w" "conns w2 = conns ?w1" "clients w2 = clients w"
    using register_moves [of ?w1 "cc_id x" j nonce E H] map ne by auto
  let ?w3 = "put_cc j (x\<lparr>cc_id := nonce\<rparr>) w2"
  have "handle_control_channel_hello_c E H j nonce ?w1 = Inr ?w3"
    using j(1,4) w2 by (simp add: handle_control_channel_hello_c_def)
  then have "wait_control_channel_hello E H j c w =
      set_on_message_cb (control_client x) (Cb_wait_server_cmd j) ?w3"
    using c(1) m by (simp add: wait_control_channel_hello_def digest_hello_fields Let_def)
  also have "\<dots> = Inr (put_client (control_client x) (k\<lparr>cl_on_message := Some (Cb_wait_server_cmd j)\<rparr>)
      (put_conn c (y\<lparr>input_buffer := b, on_message := Some (Cb_wait_server_cmd j)\<rparr>) ?w3))"
    using j w2 by (simp add: set_on_message_cb_def set_message_handle_def Let_def)
  finally show ?thesis using w2 m(3) by simp
qed

section \<open>Commands\<close>

lemma one_command_per_call:
  assumes rt: "protobuf_runtime (wire E)" and c: "conns w c = Some y" "buf_ok (input_buffer y)"
    and buf: "contents (input_buffer y) =
      framed_ControlChannelCmd (wire E) (set_control_channel_cmd v ControlChannelCmd_new) @ rest"
  obtains b where "buf_ok b" and "contents b = rest"
    and "wait_server_cmd E H j c w =
      (let w1 = put_conn c (y\<lparr>input_buffer := b\<rparr>) w in
       if v = CREATE_DATA_CHANNEL then handle_cmd_create_datachannel E H j w1 else Inr w1)"
proof -
  obtain m b where m: "take_message (wire E) (input_buffer y) = Inr (Some m, b)"
      "control_channel_cmd (snd (parse_ControlChannelCmd (wire E) m)) = v" "buf_ok b" "contents b = rest"
    using protobuf_runtime.control_cmd_frame [OF rt c(2) buf] by metis
  show ?thesis
    by (rule that [OF m(3,4)]) (use c(1) m(1,2) in \<open>simp add: wait_server_cmd_def Let_def\<close>)
qed

lemma data_handshake_sends:
  assumes d: "dcs w d = Some x" and c: "conns w c = Some y" "buf_ok (output_buffer y)"
      "contents (output_buffer y) = []"
      "room (output_buffer y) (length (framed_Hello (wire E) (data_hello (dc_nonce x))))"
    and acc: "accepts_all E (client_fd y)" and fuel: "0 < loop_fuel E"
  shows "\<exists>w' y'. do_data_channel_handshake E H d c w = Inr w'
    \<and> conns w' c = Some y' \<and> on_message y' = Some (Cb_wait_start d)
    \<and> sent (hist w') = (sent (hist w))(client_fd y :=
        sent (hist w) (client_fd y) @ framed_Hello (wire E) (data_hello (dc_nonce x)))"
proof -
  let ?m = "framed_Hello (wire E) (data_hello (dc_nonce x))"
  obtain b where b: "Send E H c ?m w = Inr (put_conn c (y\<lparr>output_buffer := b\<rparr>)
      (w\<lparr>hist := wrote E (client_fd y) (contents (output_buffer y) @ ?m) (hist w)\<rparr>))"
    by (rule Send_all [OF c(1) acc c(2,4) fuel, of H])
  then show ?thesis
    using d c(3) acc
    by (simp add: do_data_channel_handshake_def data_hello_def set_message_handle_def sent_wrote)
qed

section \<open>Forwarding\<close>

lemma forward_to_client_delivers:
  assumes k: "clients w k = Some q" "cl_conn q = Some p"
    and c: "conns w c = Some x" and p: "conns w p = Some y" and ne: "c \<noteq> p" "1 \<le> use_count y"
    and ib: "buf_ok (input_buffer x)" "contents (input_buffer x) \<noteq> []"
    and ob: "buf_ok (output_buffer y)" "contents (output_buffer y) = []"
      "room (output_buffer y) (length (contents (input_buffer x)))"
    and acc: "accepts_all E (client_fd y)" and fuel: "0 < loop_fuel E"
  shows "\<exists>w' x'. forward_to_client E H k c w = Inr w' \<and> conns w' c = Some x'
    \<and> contents (input_buffer x') = [] \<and> dcs w' = dcs w
    \<and> sent (hist w') = (sent (hist w))(client_fd y :=
        sent (hist w) (client_fd y) @ contents (input_buffer x))"
proof (rule relay_delivers [OF c p ne ib(1) ob acc fuel, of H])
  fix b
  assume b: "relay E H p c w =
      Inr (put_conn p (y\<lparr>output_buffer := b\<rparr>)
        (put_conn c (x\<lparr>input_buffer := RetrieveAll (input_buffer x)\<rparr>)
          (w\<lparr>hist := wrote E (client_fd y) (contents (input_buffer x)) (hist w)\<rparr>)))"
  have "forward_to_client E H k c w = relay E H p c w"
    using c k ib by (simp add: forward_to_client_def readable_iff get_connection_def)
  then show ?thesis
    using b ne(1) acc RetrieveAll_ok(2) by (simp add: sent_wrote)
qed

lemma forward_to_client_null:
  assumes "conns w c = Some x" and "buf_ok (input_buffer x)" and "contents (input_buffer x) \<noteq> []"
    and "clients w k = Some q" and "cl_conn q = None"
  shows "forward_to_client E H k c w = Inl Undefined_Behaviour"
  using assms by (simp add: forward_to_client_def readable_iff get_connection_def)

end
