(* ===== verification/Gateway.thy ===== *)
theory Gateway
  imports WireFormat "HOL-Library.AList"
begin

text \<open>
  The exchange with the gateway that tells a client its services: the request and the response as
  JSON documents (\<^verbatim>\<open>http/model.h\<close>), and the asynchronous HTTP session that carries them
  (\<^verbatim>\<open>http/http_client.h\<close>, \<^verbatim>\<open>http/code.h\<close>). The JSON library and the network library are parameters:
  the records \<open>json_lib\<close> and \<open>beast\<close>; the contract the proofs use is the locale \<open>nlohmann\<close>.

  \<^verbatim>\<open>model.h\<close> is read with the semicolon that line 109 lacks. \<^verbatim>\<open>GetServiceReq::parse\<close> is not modelled: it
  uses a default constructor the class does not have.
\<close>

section \<open>Exceptions\<close>

text \<open>
  \<^verbatim>\<open>JsonException\<close> carries a text; here it carries what the text says. The first argument of the
  last four is the structure's name, the last the library's own message.
\<close>

datatype json_problem =
    Field_missing bytes
  | Field_not_string bytes
  | Field_not_integer bytes
  | Field_not_array bytes
  | Serialize_failed bytes bytes
  | Parse_failed bytes bytes
  | Text_parse_failed bytes
  | Unknown_failure bytes bytes

datatype exn =
    Nlohmann_parse_error bytes
  | Nlohmann_error bytes
  | JsonException json_problem
  | Runtime_error bytes

text \<open>The handlers: \<^verbatim>\<open>catch (const nlohmann::json::exception&)\<close>, its \<^verbatim>\<open>parse_error\<close>, and \<^verbatim>\<open>std::exception\<close>.\<close>

fun catch_json :: "(bytes \<Rightarrow> json_problem) \<Rightarrow> exn + 'a \<Rightarrow> exn + 'a" where
  "catch_json f (Inl (Nlohmann_parse_error s)) = Inl (JsonException (f s))"
| "catch_json f (Inl (Nlohmann_error s)) = Inl (JsonException (f s))"
| "catch_json f r = r"

fun catch_parse_error :: "(bytes \<Rightarrow> json_problem) \<Rightarrow> exn + 'a \<Rightarrow> exn + 'a" where
  "catch_parse_error f (Inl (Nlohmann_parse_error s)) = Inl (JsonException (f s))"
| "catch_parse_error f r = r"

fun catch_std :: "(bytes \<Rightarrow> json_problem) \<Rightarrow> exn + 'a \<Rightarrow> exn + 'a" where
  "catch_std f (Inl (JsonException p)) = Inl (JsonException p)"
| "catch_std f (Inl (Nlohmann_parse_error s)) = Inl (JsonException (f s))"
| "catch_std f (Inl (Nlohmann_error s)) = Inl (JsonException (f s))"
| "catch_std f (Inl (Runtime_error s)) = Inl (JsonException (f s))"
| "catch_std f (Inr x) = Inr x"

section \<open>The JSON library\<close>

text \<open>
  What the sources use of \<^verbatim>\<open>nlohmann::json\<close>, on values up to its \<^verbatim>\<open>operator==\<close>. \<open>j_assign k v j\<close> is
  \<^verbatim>\<open>j[k] = v\<close>, \<open>j_at\<close> both \<^verbatim>\<open>at\<close> and the reading \<^verbatim>\<open>operator[]\<close>, \<open>j_items\<close> what a range-based loop
  visits. A 32-bit integer is a 32-bit word.
\<close>

record 'j json_lib =
  j_parse :: "bytes \<Rightarrow> exn + 'j"
  j_dump :: "'j \<Rightarrow> exn + bytes"
  j_null :: 'j
  j_array :: 'j
  j_of_string :: "bytes \<Rightarrow> 'j"
  j_of_int32 :: "u32 \<Rightarrow> 'j"
  j_assign :: "bytes \<Rightarrow> 'j \<Rightarrow> 'j \<Rightarrow> 'j"
  j_push_back :: "'j \<Rightarrow> 'j \<Rightarrow> 'j"
  j_contains :: "'j \<Rightarrow> bytes \<Rightarrow> bool"
  j_at :: "'j \<Rightarrow> bytes \<Rightarrow> exn + 'j"
  j_is_string :: "'j \<Rightarrow> bool"
  j_is_number_integer :: "'j \<Rightarrow> bool"
  j_is_array :: "'j \<Rightarrow> bool"
  j_items :: "'j \<Rightarrow> 'j list"
  j_get_string :: "'j \<Rightarrow> exn + bytes"
  j_get_int32 :: "'j \<Rightarrow> exn + u32"

text \<open>
  Checks that occur several times in \<^verbatim>\<open>model.h\<close>: a field must be there, and must have a type.
\<close>

definition need_field :: "'j json_lib \<Rightarrow> bytes \<Rightarrow> 'j \<Rightarrow> exn + unit" where
  "need_field J k j = (if \<not> j_contains J j k then Inl (JsonException (Field_missing k)) else Inr ())"

definition need_string :: "'j json_lib \<Rightarrow> bytes \<Rightarrow> 'j \<Rightarrow> exn + unit" where
  "need_string J k j =
     bindR (j_at J j k) (\<lambda>v. if \<not> j_is_string J v then Inl (JsonException (Field_not_string k)) else Inr ())"

definition need_integer :: "'j json_lib \<Rightarrow> bytes \<Rightarrow> 'j \<Rightarrow> exn + unit" where
  "need_integer J k j =
     bindR (j_at J j k)
       (\<lambda>v. if \<not> j_is_number_integer J v then Inl (JsonException (Field_not_integer k)) else Inr ())"

section \<open>GetServiceReq\<close>

record GetServiceReq =
  token :: bytes

definition GetServiceReq_to_json :: "'j json_lib \<Rightarrow> GetServiceReq \<Rightarrow> exn + bytes" where
  "GetServiceReq_to_json J r =
     catch_json (Serialize_failed ''GetServiceReq'')
       (j_dump J (j_assign J ''token'' (j_of_string J (token r)) (j_null J)))"

definition GetServiceReq_from_json :: "'j json_lib \<Rightarrow> bytes \<Rightarrow> GetServiceReq \<Rightarrow> exn + GetServiceReq" where
  "GetServiceReq_from_json J s r =
     catch_json (Parse_failed ''GetServiceReq'')
       (bindR (j_parse J s) (\<lambda>j.
          if j_contains J j ''token'' then
            bindR (need_string J ''token'' j) (\<lambda>_.
            bindR (j_at J j ''token'') (\<lambda>v.
            bindR (j_get_string J v) (\<lambda>t. Inr (r\<lparr>token := t\<rparr>))))
          else Inr (r\<lparr>token := []\<rparr>)))"

section \<open>ServiceInfo\<close>

record ServiceInfo =
  si_service_name :: bytes
  si_service_addr :: bytes
  si_service_port :: u32
  si_proxy_port :: u32

definition ServiceInfo_new :: ServiceInfo where
  "ServiceInfo_new = \<lparr>si_service_name = [], si_service_addr = [], si_service_port = -1, si_proxy_port = -1\<rparr>"

text \<open>The object \<^verbatim>\<open>to_json\<close> builds before it is dumped.\<close>

definition ServiceInfo_object :: "'j json_lib \<Rightarrow> ServiceInfo \<Rightarrow> 'j" where
  "ServiceInfo_object J i =
     j_assign J ''proxy_port'' (j_of_int32 J (si_proxy_port i))
       (j_assign J ''service_port'' (j_of_int32 J (si_service_port i))
         (j_assign J ''service_addr'' (j_of_string J (si_service_addr i))
           (j_assign J ''service_name'' (j_of_string J (si_service_name i)) (j_null J))))"

definition ServiceInfo_to_json :: "'j json_lib \<Rightarrow> ServiceInfo \<Rightarrow> exn + bytes" where
  "ServiceInfo_to_json J i = catch_json (Serialize_failed ''ServiceInfo'') (j_dump J (ServiceInfo_object J i))"

definition get_string_at :: "'j json_lib \<Rightarrow> bytes \<Rightarrow> 'j \<Rightarrow> exn + bytes" where
  "get_string_at J k j = bindR (j_at J j k) (j_get_string J)"

definition get_int32_at :: "'j json_lib \<Rightarrow> bytes \<Rightarrow> 'j \<Rightarrow> exn + u32" where
  "get_int32_at J k j = bindR (j_at J j k) (j_get_int32 J)"

definition ServiceInfo_from_value :: "'j json_lib \<Rightarrow> 'j \<Rightarrow> ServiceInfo \<Rightarrow> exn + ServiceInfo" where
  "ServiceInfo_from_value J j info =
     catch_json (Parse_failed ''ServiceInfo'')
       (bindR (need_field J ''service_name'' j) (\<lambda>_.
        bindR (need_field J ''service_addr'' j) (\<lambda>_.
        bindR (need_field J ''service_port'' j) (\<lambda>_.
        bindR (need_field J ''proxy_port'' j) (\<lambda>_.
        bindR (need_string J ''service_name'' j) (\<lambda>_.
        bindR (need_string J ''service_addr'' j) (\<lambda>_.
        bindR (need_integer J ''service_port'' j) (\<lambda>_.
        bindR (need_integer J ''proxy_port'' j) (\<lambda>_.
        bindR (get_string_at J ''service_name'' j) (\<lambda>n.
        bindR (get_string_at J ''service_addr'' j) (\<lambda>a.
        bindR (get_int32_at J ''service_port'' j) (\<lambda>sp.
        bindR (get_int32_at J ''proxy_port'' j) (\<lambda>pp.
          Inr (info\<lparr>si_service_name := n, si_service_addr := a, si_service_port := sp,
                     si_proxy_port := pp\<rparr>))))))))))))))"

definition ServiceInfo_from_json :: "'j json_lib \<Rightarrow> bytes \<Rightarrow> ServiceInfo \<Rightarrow> exn + ServiceInfo" where
  "ServiceInfo_from_json J s info =
     catch_json (Parse_failed ''ServiceInfo'')
       (bindR (j_parse J s) (\<lambda>j. ServiceInfo_from_value J j info))"

definition ServiceInfo_parse :: "'j json_lib \<Rightarrow> bytes \<Rightarrow> exn + ServiceInfo" where
  "ServiceInfo_parse J s = catch_std (Unknown_failure ''ServiceInfo'') (ServiceInfo_from_json J s ServiceInfo_new)"

section \<open>GetServiceResp\<close>

record GetServiceResp =
  services :: "ServiceInfo list"
  gr_server_addr :: bytes
  gr_server_port :: u32

definition GetServiceResp_new :: GetServiceResp where
  "GetServiceResp_new = \<lparr>services = [], gr_server_addr = [], gr_server_port = -1\<rparr>"

text \<open>Each service is dumped and parsed again before it is appended to the array.\<close>

definition add_service :: "'j json_lib \<Rightarrow> ServiceInfo \<Rightarrow> 'j \<Rightarrow> exn + 'j" where
  "add_service J service arr =
     bindR (ServiceInfo_to_json J service) (\<lambda>s.
     bindR (j_parse J s) (\<lambda>service_json. Inr (j_push_back J arr service_json)))"

definition GetServiceResp_to_json :: "'j json_lib \<Rightarrow> GetServiceResp \<Rightarrow> exn + bytes" where
  "GetServiceResp_to_json J r =
     catch_json (Serialize_failed ''GetServiceResp'')
       (bindR (foldR (add_service J) (services r) (j_array J)) (\<lambda>services_array.
          j_dump J
            (j_assign J ''server_port'' (j_of_int32 J (gr_server_port r))
              (j_assign J ''server_addr'' (j_of_string J (gr_server_addr r))
                (j_assign J ''services'' services_array (j_null J))))))"

definition read_service :: "'j json_lib \<Rightarrow> 'j \<Rightarrow> GetServiceResp \<Rightarrow> exn + GetServiceResp" where
  "read_service J service_json r =
     bindR (ServiceInfo_from_value J service_json ServiceInfo_new)
       (\<lambda>service. Inr (r\<lparr>services := services r @ [service]\<rparr>))"

definition read_services :: "'j json_lib \<Rightarrow> 'j \<Rightarrow> GetServiceResp \<Rightarrow> exn + GetServiceResp" where
  "read_services J j r =
     (if j_contains J j ''services'' then
        bindR (j_at J j ''services'') (\<lambda>v.
          if \<not> j_is_array J v then Inl (JsonException (Field_not_array ''services''))
          else foldR (read_service J) (j_items J v) r)
      else Inr r)"

definition GetServiceResp_from_value :: "'j json_lib \<Rightarrow> 'j \<Rightarrow> GetServiceResp \<Rightarrow> exn + GetServiceResp" where
  "GetServiceResp_from_value J j r =
     catch_json (Parse_failed ''GetServiceResp'')
       (bindR (read_services J j (r\<lparr>services := []\<rparr>)) (\<lambda>r1.
        bindR (if j_contains J j ''server_addr'' then
                 bindR (need_string J ''server_addr'' j) (\<lambda>_. get_string_at J ''server_addr'' j)
               else Inr []) (\<lambda>a.
        bindR (if j_contains J j ''server_port'' then
                 bindR (need_integer J ''server_port'' j) (\<lambda>_. get_int32_at J ''server_port'' j)
               else Inr 0) (\<lambda>p.
          Inr (r1\<lparr>gr_server_addr := a, gr_server_port := p\<rparr>)))))"

definition GetServiceResp_from_json :: "'j json_lib \<Rightarrow> bytes \<Rightarrow> GetServiceResp \<Rightarrow> exn + GetServiceResp" where
  "GetServiceResp_from_json J s r =
     catch_parse_error Text_parse_failed (bindR (j_parse J s) (\<lambda>j. GetServiceResp_from_value J j r))"

definition GetServiceResp_parse :: "'j json_lib \<Rightarrow> bytes \<Rightarrow> exn + GetServiceResp" where
  "GetServiceResp_parse J s =
     catch_std (Unknown_failure ''GetServiceResp'')
       (catch_parse_error Text_parse_failed
         (bindR (j_parse J s) (\<lambda>j. GetServiceResp_from_value J j GetServiceResp_new)))"

section \<open>The contract of the JSON library\<close>

text \<open>
  \<open>text_ok\<close> are the strings that are valid UTF-8, \<open>clean\<close> the values that contain no others, and
  \<open>fields\<close> the values one may assign fields of (null and objects).
\<close>

locale nlohmann =
  fixes J :: "'j json_lib" and text_ok :: "bytes \<Rightarrow> bool" and clean :: "'j \<Rightarrow> bool" and fields :: "'j \<Rightarrow> bool"
  assumes parse_throws: "j_parse J s = Inl e \<Longrightarrow> \<exists>t. e = Nlohmann_parse_error t"
    and at_throws: "j_at J j k = Inl e \<Longrightarrow> \<exists>t. e = Nlohmann_error t"
    and at_present: "j_contains J j k \<Longrightarrow> \<exists>v. j_at J j k = Inr v"
    and string_read: "j_is_string J v \<Longrightarrow> \<exists>s. j_get_string J v = Inr s"
    and integer_read: "j_is_number_integer J v \<Longrightarrow> \<exists>n. j_get_int32 J v = Inr n"
    and of_string [simp]: "j_is_string J (j_of_string J s)" "j_get_string J (j_of_string J s) = Inr s"
    and of_int32 [simp]: "j_is_number_integer J (j_of_int32 J n)" "j_get_int32 J (j_of_int32 J n) = Inr n"
    and array [simp]: "j_is_array J (j_array J)" "j_items J (j_array J) = []"
    and push_back [simp]: "j_is_array J a \<Longrightarrow> j_is_array J (j_push_back J a v)"
      "j_is_array J a \<Longrightarrow> j_items J (j_push_back J a v) = j_items J a @ [v]"
    and fields [simp]: "fields (j_null J)" "fields j \<Longrightarrow> fields (j_assign J k v j)"
    and assign [simp]: "fields j \<Longrightarrow> j_contains J (j_assign J k v j) k' \<longleftrightarrow> k' = k \<or> j_contains J j k'"
      "fields j \<Longrightarrow> j_at J (j_assign J k v j) k' = (if k' = k then Inr v else j_at J j k')"
    and clean [simp]: "clean (j_null J)" "clean (j_array J)" "text_ok s \<Longrightarrow> clean (j_of_string J s)"
      "clean (j_of_int32 J n)" "clean a \<Longrightarrow> clean v \<Longrightarrow> clean (j_push_back J a v)"
      "clean j \<Longrightarrow> clean v \<Longrightarrow> text_ok k \<Longrightarrow> clean (j_assign J k v j)"
    and round_trip: "clean j \<Longrightarrow> \<exists>s. j_dump J j = Inr s \<and> j_parse J s = Inr j"

definition field_string :: "'j json_lib \<Rightarrow> 'j \<Rightarrow> bytes \<Rightarrow> bool" where
  "field_string J j k \<longleftrightarrow> j_contains J j k \<and> (case j_at J j k of Inr v \<Rightarrow> j_is_string J v | Inl _ \<Rightarrow> False)"

definition field_integer :: "'j json_lib \<Rightarrow> 'j \<Rightarrow> bytes \<Rightarrow> bool" where
  "field_integer J j k \<longleftrightarrow>
     j_contains J j k \<and> (case j_at J j k of Inr v \<Rightarrow> j_is_number_integer J v | Inl _ \<Rightarrow> False)"

text \<open>The service descriptions and responses the client accepts.\<close>

definition service_ok :: "'j json_lib \<Rightarrow> 'j \<Rightarrow> bool" where
  "service_ok J j \<longleftrightarrow> field_string J j ''service_name'' \<and> field_string J j ''service_addr''
     \<and> field_integer J j ''service_port'' \<and> field_integer J j ''proxy_port''"

definition response_ok :: "'j json_lib \<Rightarrow> 'j \<Rightarrow> bool" where
  "response_ok J j \<longleftrightarrow>
     (j_contains J j ''services'' \<longrightarrow>
        (case j_at J j ''services'' of
           Inr v \<Rightarrow> j_is_array J v \<and> list_all (service_ok J) (j_items J v) | Inl _ \<Rightarrow> False))
     \<and> (j_contains J j ''server_addr'' \<longrightarrow> field_string J j ''server_addr'')
     \<and> (j_contains J j ''server_port'' \<longrightarrow> field_integer J j ''server_port'')"

lemma catch_json_Inr [simp]: "catch_json f r = Inr x \<longleftrightarrow> r = Inr x"
  by (cases "(f, r)" rule: catch_json.cases) simp_all

lemma catch_parse_error_Inr [simp]: "catch_parse_error f r = Inr x \<longleftrightarrow> r = Inr x"
  by (cases "(f, r)" rule: catch_parse_error.cases) simp_all

lemma catch_std_Inr [simp]: "catch_std f r = Inr x \<longleftrightarrow> r = Inr x"
  by (cases "(f, r)" rule: catch_std.cases) simp_all

lemma catch_std_throws: "catch_std f r = Inl e \<Longrightarrow> \<exists>p. e = JsonException p"
  by (cases "(f, r)" rule: catch_std.cases) auto

lemma Inr_neq: "(\<forall>e. r \<noteq> Inl e) \<longleftrightarrow> (\<exists>x. r = Inr x)"
  by (cases r) simp_all

context nlohmann
begin

lemma present: "j_contains J j k \<Longrightarrow> (\<And>v. j_at J j k = Inr v \<Longrightarrow> P) \<Longrightarrow> P"
  using at_present by blast

lemma field_string_at:
  "field_string J j k \<Longrightarrow> \<exists>v s. j_at J j k = Inr v \<and> j_is_string J v \<and> j_get_string J v = Inr s"
  using string_read by (auto simp: field_string_def split: sum.splits)

lemma field_integer_at:
  "field_integer J j k \<Longrightarrow> \<exists>v n. j_at J j k = Inr v \<and> j_is_number_integer J v \<and> j_get_int32 J v = Inr n"
  using integer_read by (auto simp: field_integer_def split: sum.splits)

lemma service_accepted: "(\<exists>i. ServiceInfo_from_value J j info = Inr i) \<longleftrightarrow> service_ok J j"
proof
  assume "\<exists>i. ServiceInfo_from_value J j info = Inr i"
  then show "service_ok J j"
    by (auto simp: ServiceInfo_from_value_def bindR_eq_Inr need_field_def need_string_def need_integer_def
        service_ok_def field_string_def field_integer_def split: if_splits)
next
  assume ok: "service_ok J j"
  then obtain v1 s1 v2 s2 v3 n3 v4 n4 where
    "j_at J j ''service_name'' = Inr v1" "j_is_string J v1" "j_get_string J v1 = Inr s1"
    "j_at J j ''service_addr'' = Inr v2" "j_is_string J v2" "j_get_string J v2 = Inr s2"
    "j_at J j ''service_port'' = Inr v3" "j_is_number_integer J v3" "j_get_int32 J v3 = Inr n3"
    "j_at J j ''proxy_port'' = Inr v4" "j_is_number_integer J v4" "j_get_int32 J v4 = Inr n4"
    unfolding service_ok_def using field_string_at field_integer_at by metis
  then show "\<exists>i. ServiceInfo_from_value J j info = Inr i"
    using ok
    by (simp add: ServiceInfo_from_value_def need_field_def need_string_def need_integer_def
        get_string_at_def get_int32_at_def service_ok_def field_string_def field_integer_def)
qed

lemma services_accepted:
  "(\<exists>r'. foldR (read_service J) vs r = Inr r') \<longleftrightarrow> list_all (service_ok J) vs"
proof (induction vs arbitrary: r)
  case (Cons v vs)
  then show ?case
    using service_accepted [of v ServiceInfo_new]
    by (auto simp: read_service_def bindR_eq_Inr bindR_assoc)
qed simp

lemma services_counted:
  "foldR (read_service J) vs r = Inr r' \<Longrightarrow> length (services r') = length (services r) + length vs"
  by (induction vs arbitrary: r) (fastforce simp: read_service_def bindR_eq_Inr bindR_assoc)+

lemma read_services_accepted:
  "(\<exists>r'. read_services J j r = Inr r') \<longleftrightarrow>
     (j_contains J j ''services'' \<longrightarrow>
        (case j_at J j ''services'' of
           Inr v \<Rightarrow> j_is_array J v \<and> list_all (service_ok J) (j_items J v) | Inl _ \<Rightarrow> False))"
  by (cases "j_at J j ''services''")
     (use services_accepted [of _ r] at_present [of j "''services''"] in \<open>auto simp: read_services_def\<close>)

lemma opt_string_accepted:
  "(\<exists>a. (if j_contains J j k then bindR (need_string J k j) (\<lambda>_. get_string_at J k j) else Inr d) = Inr a)
   \<longleftrightarrow> (j_contains J j k \<longrightarrow> field_string J j k)"
  using field_string_at [of j k]
  by (auto simp: need_string_def get_string_at_def field_string_def bindR_eq_Inr split: sum.splits)

lemma opt_integer_accepted:
  "(\<exists>a. (if j_contains J j k then bindR (need_integer J k j) (\<lambda>_. get_int32_at J k j) else Inr d) = Inr a)
   \<longleftrightarrow> (j_contains J j k \<longrightarrow> field_integer J j k)"
  using field_integer_at [of j k]
  by (auto simp: need_integer_def get_int32_at_def field_integer_def bindR_eq_Inr split: sum.splits)

lemma response_accepted: "(\<exists>r'. GetServiceResp_from_value J j r = Inr r') \<longleftrightarrow> response_ok J j"
  unfolding response_ok_def
    read_services_accepted [symmetric, of j "r\<lparr>services := []\<rparr>"]
    opt_string_accepted [symmetric, of j "''server_addr''" "[]"]
    opt_integer_accepted [symmetric, of j "''server_port''" 0]
  by (auto simp: GetServiceResp_from_value_def bindR_eq_Inr)

section \<open>Round trips\<close>

lemma service_object_read:
  "ServiceInfo_from_value J (ServiceInfo_object J i) ServiceInfo_new = Inr i"
  by (simp add: ServiceInfo_from_value_def ServiceInfo_object_def need_field_def need_string_def
      need_integer_def get_string_at_def get_int32_at_def)

lemma service_object_clean:
  assumes "list_all text_ok [''service_name'', ''service_addr'', ''service_port'', ''proxy_port'']"
    and "text_ok (si_service_name i)" and "text_ok (si_service_addr i)"
  shows "clean (ServiceInfo_object J i)"
  using assms by (simp add: ServiceInfo_object_def)

lemma services_added:
  assumes "j_is_array J arr" and "clean arr" and "\<forall>i \<in> set is. clean (ServiceInfo_object J i)"
  shows "\<exists>arr'. foldR (add_service J) is arr = Inr arr' \<and> clean arr' \<and> j_is_array J arr'
    \<and> j_items J arr' = j_items J arr @ map (ServiceInfo_object J) is"
  using assms
proof (induction "is" arbitrary: arr)
  case (Cons i "is")
  let ?o = "ServiceInfo_object J i"
  obtain s where "j_dump J ?o = Inr s" "j_parse J s = Inr ?o"
    using round_trip [of ?o] Cons.prems by auto
  then have "add_service J i arr = Inr (j_push_back J arr ?o)"
    by (simp add: add_service_def ServiceInfo_to_json_def)
  then show ?case using Cons.IH [of "j_push_back J arr ?o"] Cons.prems by simp
qed simp

lemma services_read:
  "foldR (read_service J) (map (ServiceInfo_object J) is) r = Inr (r\<lparr>services := services r @ is\<rparr>)"
  by (induction "is" arbitrary: r) (simp_all add: read_service_def service_object_read)

lemma response_round_trip:
  assumes keys: "list_all text_ok [''service_name'', ''service_addr'', ''service_port'', ''proxy_port'',
      ''services'', ''server_addr'', ''server_port'']"
    and texts: "text_ok (gr_server_addr r)"
      "\<forall>i \<in> set (services r). text_ok (si_service_name i) \<and> text_ok (si_service_addr i)"
  shows "\<exists>s. GetServiceResp_to_json J r = Inr s \<and> GetServiceResp_parse J s = Inr r"
proof -
  have "\<forall>i \<in> set (services r). clean (ServiceInfo_object J i)"
    using service_object_clean keys texts(2) by simp
  from services_added [OF array(1) clean(2) this] obtain arr where
    arr: "foldR (add_service J) (services r) (j_array J) = Inr arr" "clean arr" "j_is_array J arr"
      "j_items J arr = map (ServiceInfo_object J) (services r)" by auto
  let ?o = "j_assign J ''server_port'' (j_of_int32 J (gr_server_port r))
    (j_assign J ''server_addr'' (j_of_string J (gr_server_addr r)) (j_assign J ''services'' arr (j_null J)))"
  have "clean ?o" using keys texts(1) arr(2) by simp
  then obtain s where s: "j_dump J ?o = Inr s" "j_parse J s = Inr ?o" using round_trip by blast
  have "GetServiceResp_from_value J ?o GetServiceResp_new = Inr r"
    using arr(3,4)
    by (simp add: GetServiceResp_from_value_def read_services_def services_read need_string_def
        need_integer_def get_string_at_def get_int32_at_def GetServiceResp_new_def)
  then have "GetServiceResp_parse J s = Inr r" using s(2) by (simp add: GetServiceResp_parse_def)
  moreover have "GetServiceResp_to_json J r = Inr s" using arr(1) s(1) by (simp add: GetServiceResp_to_json_def)
  ultimately show ?thesis by blast
qed

end

section \<open>A library that meets the contract\<close>

text \<open>
  Values with the constructors the program uses and a plain prefix notation for them; fields are kept
  as an association list.
\<close>

datatype json = JNull | JString bytes | JInt u32 | JArray "json list" | JObject "(bytes \<times> json) list"

fun quote :: "bytes \<Rightarrow> bytes" where
  "quote [] = ''.''"
| "quote (c # s) = CHR ''c'' # c # quote s"

fun unquote :: "bytes \<Rightarrow> (bytes \<times> bytes) option" where
  "unquote (t # r) =
     (if t = CHR ''.'' then Some ([], r)
      else (case r of [] \<Rightarrow> None | c # r1 \<Rightarrow> map_option (\<lambda>(s, r2). (c # s, r2)) (unquote r1)))"
| "unquote [] = None"

fun enc :: "json \<Rightarrow> bytes" where
  "enc JNull = ''n''"
| "enc (JInt n) = CHR ''i'' # le32 n"
| "enc (JString s) = CHR ''s'' # quote s"
| "enc (JArray js) = CHR ''['' # concat (map (\<lambda>j. CHR '','' # enc j) js) @ '']''"
| "enc (JObject fs) = CHR ''{'' # concat (map (\<lambda>f. CHR '','' # quote (fst f) @ enc (snd f)) fs) @ ''}''"

fun dec :: "nat \<Rightarrow> bytes \<Rightarrow> (json \<times> bytes) option"
  and dec_list :: "nat \<Rightarrow> bytes \<Rightarrow> (json list \<times> bytes) option"
  and dec_fields :: "nat \<Rightarrow> bytes \<Rightarrow> ((bytes \<times> json) list \<times> bytes) option" where
  "dec (Suc n) (t # r) =
     (if t = CHR ''n'' then Some (JNull, r)
      else if t = CHR ''i'' then Some (JInt (of_le32 (take 4 r)), drop 4 r)
      else if t = CHR ''s'' then map_option (\<lambda>(s, r1). (JString s, r1)) (unquote r)
      else if t = CHR ''['' then map_option (\<lambda>(js, r1). (JArray js, r1)) (dec_list n r)
      else if t = CHR ''{'' then map_option (\<lambda>(fs, r1). (JObject fs, r1)) (dec_fields n r)
      else None)"
| "dec_list (Suc n) (t # r) =
     (if t = CHR '','' then
        (case dec n r of None \<Rightarrow> None
         | Some (j, r1) \<Rightarrow> map_option (\<lambda>(js, r2). (j # js, r2)) (dec_list n r1))
      else Some ([], r))"
| "dec_fields (Suc n) (t # r) =
     (if t = CHR '','' then
        (case unquote r of None \<Rightarrow> None
         | Some (k, r1) \<Rightarrow>
             (case dec n r1 of None \<Rightarrow> None
              | Some (j, r2) \<Rightarrow> map_option (\<lambda>(fs, r3). ((k, j) # fs, r3)) (dec_fields n r2)))
      else Some ([], r))"
| "dec n r = None"
| "dec_list n r = None"
| "dec_fields n r = None"

lemma unquote_quote [simp]: "unquote (quote s @ r) = Some (s, r)"
  by (induction s) simp_all

lemma quote_length: "0 < length (quote s)"
  by (cases s) simp_all

lemma dec_list_enc:
  assumes "\<And>j n r. j \<in> set js \<Longrightarrow> length (enc j) \<le> n \<Longrightarrow> dec n (enc j @ r) = Some (j, r)"
    and "length (concat (map (\<lambda>j. CHR '','' # enc j) js)) < n"
  shows "dec_list n (concat (map (\<lambda>j. CHR '','' # enc j) js) @ CHR '']'' # r) = Some (js, r)"
  using assms
proof (induction js arbitrary: n)
  case Nil
  then show ?case by (cases n) simp_all
next
  case (Cons j js)
  then show ?case by (cases n) simp_all
qed

lemma dec_fields_enc:
  assumes "\<And>f n r. f \<in> set fs \<Longrightarrow> length (enc (snd f)) \<le> n \<Longrightarrow> dec n (enc (snd f) @ r) = Some (snd f, r)"
    and "length (concat (map (\<lambda>f. CHR '','' # quote (fst f) @ enc (snd f)) fs)) < n"
  shows "dec_fields n (concat (map (\<lambda>f. CHR '','' # quote (fst f) @ enc (snd f)) fs) @ CHR ''}'' # r) = Some (fs, r)"
  using assms
proof (induction fs arbitrary: n)
  case Nil
  then show ?case by (cases n) simp_all
next
  case (Cons f fs)
  then show ?case by (cases n) simp_all
qed

lemma dec_enc: "length (enc j) \<le> n \<Longrightarrow> dec n (enc j @ r) = Some (j, r)"
proof (induction j arbitrary: n r rule: enc.induct)
  case (2 v)
  then show ?case by (cases n) (simp_all add: of_le32_le32 length_le32)
next
  case (4 js)
  then show ?case using dec_list_enc [of js "n - 1" r] by (cases n) auto
next
  case (5 fs)
  then show ?case using dec_fields_enc [of fs "n - 1" r] by (cases n) auto
qed (auto simp: Suc_le_eq gr0_conv_Suc of_le32_le32 length_le32 dest!: less_imp_Suc_add)

definition json_parse :: "bytes \<Rightarrow> exn + json" where
  "json_parse s = (case dec (length s) s of Some (j, []) \<Rightarrow> Inr j | _ \<Rightarrow> Inl (Nlohmann_parse_error ''syntax error''))"

lemma json_parse_throws: "json_parse s = Inl e \<Longrightarrow> \<exists>t. e = Nlohmann_parse_error t"
  by (auto simp: json_parse_def split: option.splits list.splits prod.splits)

lemma json_parse_enc: "json_parse (enc j) = Inr j"
  using dec_enc [of j "length (enc j)" "[]"] by (simp add: json_parse_def)

fun json_fields :: "json \<Rightarrow> (bytes \<times> json) list option" where
  "json_fields JNull = Some []"
| "json_fields (JObject fs) = Some fs"
| "json_fields _ = None"

definition json_at :: "json \<Rightarrow> bytes \<Rightarrow> exn + json" where
  "json_at j k = (case json_fields j of
     None \<Rightarrow> Inl (Nlohmann_error ''type_error'')
   | Some fs \<Rightarrow> (case map_of fs k of None \<Rightarrow> Inl (Nlohmann_error ''out_of_range'') | Some v \<Rightarrow> Inr v))"

definition json_ref :: "json json_lib" where
  "json_ref = \<lparr>j_parse = json_parse, j_dump = (\<lambda>j. Inr (enc j)), j_null = JNull, j_array = JArray [],
     j_of_string = JString, j_of_int32 = JInt,
     j_assign = (\<lambda>k v j. case json_fields j of Some fs \<Rightarrow> JObject (AList.update k v fs) | None \<Rightarrow> j),
     j_push_back = (\<lambda>a v. case a of JArray vs \<Rightarrow> JArray (vs @ [v]) | _ \<Rightarrow> a),
     j_contains = (\<lambda>j k. case json_at j k of Inl _ \<Rightarrow> False | Inr _ \<Rightarrow> True), j_at = json_at,
     j_is_string = (\<lambda>j. case j of JString _ \<Rightarrow> True | _ \<Rightarrow> False),
     j_is_number_integer = (\<lambda>j. case j of JInt _ \<Rightarrow> True | _ \<Rightarrow> False),
     j_is_array = (\<lambda>j. case j of JArray _ \<Rightarrow> True | _ \<Rightarrow> False),
     j_items = (\<lambda>j. case j of JArray vs \<Rightarrow> vs | _ \<Rightarrow> []),
     j_get_string = (\<lambda>j. case j of JString s \<Rightarrow> Inr s | _ \<Rightarrow> Inl (Nlohmann_error ''type_error'')),
     j_get_int32 = (\<lambda>j. case j of JInt n \<Rightarrow> Inr n | _ \<Rightarrow> Inl (Nlohmann_error ''type_error''))\<rparr>"

interpretation ref_json: nlohmann json_ref "\<lambda>_. True" "\<lambda>_. True" "\<lambda>j. json_fields j \<noteq> None"
  by unfold_locales
     (auto simp: json_ref_def json_parse_throws json_at_def json_parse_enc update_conv'
       split: option.splits json.splits if_splits sum.splits)

end
