(* ===== verification/HttpSession.thy ===== *)
theory HttpSession
  imports Prelude "HOL-Library.AList"
begin

text \<open>
  The HTTP client of \<^verbatim>\<open>http/http_client.h\<close> (\<^verbatim>\<open>session\<close>) with the error report of \<^verbatim>\<open>http/code.h\<close>. A
  session starts one asynchronous operation at a time; its completion handler starts the next one or
  stops. The network library, that is the outcome of each operation, is the parameter \<open>beast\<close>;
  \<^verbatim>\<open>io_context::run\<close> is the loop that completes pending operations until there is none.
\<close>

section \<open>State\<close>

datatype error_code = Not_connected | Error_code nat

datatype verb = Verb_get | Verb_post

record http_request =
  hr_version :: int
  hr_verb :: verb
  hr_target :: bytes
  hr_fields :: "(bytes \<times> bytes) list"
  hr_body :: bytes

record http_response =
  resp_body :: bytes

text \<open>The default message of the library, which \<^verbatim>\<open>res_\<close> starts as.\<close>

definition empty_response :: http_response where
  "empty_response = \<lparr>resp_body = []\<rparr>"

datatype 'ep operation =
    Idle
  | Resolving bytes bytes
  | Connecting 'ep
  | Writing
  | Reading

text \<open>\<open>reported\<close> is what \<^verbatim>\<open>fail\<close> has printed, \<open>deadline\<close> the last \<^verbatim>\<open>expires_after\<close> in seconds.\<close>

record 'ep session =
  pending :: "'ep operation"
  deadline :: "nat option"
  req :: http_request
  response :: http_response
  reported :: "(bytes \<times> error_code) list"

text \<open>
  The outcome of each operation. \<open>b_read\<close> is given the message it reads into;
  \<open>b_prepare_payload\<close> is \<^verbatim>\<open>message::prepare_payload\<close>.
\<close>

record 'ep beast =
  b_resolve :: "bytes \<Rightarrow> bytes \<Rightarrow> error_code option \<times> 'ep"
  b_connect :: "'ep \<Rightarrow> error_code option"
  b_write :: "http_request \<Rightarrow> error_code option"
  b_read :: "http_response \<Rightarrow> error_code option \<times> http_response"
  b_shutdown :: "error_code option"
  b_prepare_payload :: "http_request \<Rightarrow> http_request"
  b_version_string :: bytes

section \<open>Operations\<close>

definition session_new :: "http_request \<Rightarrow> 'ep session" where
  "session_new r = \<lparr>pending = Idle, deadline = None, req = r, response = empty_response, reported = []\<rparr>"

definition fail :: "error_code \<Rightarrow> bytes \<Rightarrow> 'ep session \<Rightarrow> 'ep session" where
  "fail ec what s = s\<lparr>reported := reported s @ [(what, ec)]\<rparr>"

definition set_field :: "bytes \<Rightarrow> bytes \<Rightarrow> http_request \<Rightarrow> http_request" where
  "set_field k v r = r\<lparr>hr_fields := AList.update k v (hr_fields r)\<rparr>"

definition Get_request :: "'ep beast \<Rightarrow> bytes \<Rightarrow> bytes \<Rightarrow> int \<Rightarrow> http_request \<Rightarrow> http_request" where
  "Get_request B host target version r =
     set_field ''User-Agent'' (b_version_string B)
       (set_field ''Host'' host (r\<lparr>hr_version := version, hr_verb := Verb_get, hr_target := target\<rparr>))"

definition Get :: "'ep beast \<Rightarrow> bytes \<Rightarrow> bytes \<Rightarrow> bytes \<Rightarrow> int \<Rightarrow> 'ep session \<Rightarrow> 'ep session" where
  "Get B host port target version s =
     s\<lparr>req := Get_request B host target version (req s), pending := Resolving host port\<rparr>"

definition Post_request :: "'ep beast \<Rightarrow> bytes \<Rightarrow> bytes \<Rightarrow> int \<Rightarrow> bytes \<Rightarrow> http_request \<Rightarrow> http_request" where
  "Post_request B host target version bd r =
     b_prepare_payload B
       ((set_field ''Content-Type'' ''application/json''
          (set_field ''User-Agent'' (b_version_string B)
            (set_field ''Host'' host (r\<lparr>hr_version := version, hr_verb := Verb_post, hr_target := target\<rparr>))))
        \<lparr>hr_body := bd\<rparr>)"

definition Post :: "'ep beast \<Rightarrow> bytes \<Rightarrow> bytes \<Rightarrow> bytes \<Rightarrow> int \<Rightarrow> bytes \<Rightarrow> 'ep session \<Rightarrow> 'ep session" where
  "Post B host port target version bd s =
     s\<lparr>req := Post_request B host target version bd (req s), pending := Resolving host port\<rparr>"

definition on_resolve :: "error_code option \<Rightarrow> 'ep \<Rightarrow> 'ep session \<Rightarrow> 'ep session" where
  "on_resolve ec results s =
     (case ec of
        Some e \<Rightarrow> fail e ''resolve'' s
      | None \<Rightarrow> s\<lparr>deadline := Some 30, pending := Connecting results\<rparr>)"

definition on_connect :: "error_code option \<Rightarrow> 'ep session \<Rightarrow> 'ep session" where
  "on_connect ec s =
     (case ec of
        Some e \<Rightarrow> fail e ''connect'' s
      | None \<Rightarrow> s\<lparr>deadline := Some 30, pending := Writing\<rparr>)"

definition on_write :: "error_code option \<Rightarrow> 'ep session \<Rightarrow> 'ep session" where
  "on_write ec s =
     (case ec of
        Some e \<Rightarrow> fail e ''write'' s
      | None \<Rightarrow> s\<lparr>pending := Reading\<rparr>)"

definition on_read :: "'ep beast \<Rightarrow> error_code option \<Rightarrow> 'ep session \<Rightarrow> 'ep session" where
  "on_read B ec s =
     (case ec of
        Some e \<Rightarrow> fail e ''read'' s
      | None \<Rightarrow>
          (case b_shutdown B of
             Some e \<Rightarrow> if e \<noteq> Not_connected then fail e ''shutdown'' s else s
           | None \<Rightarrow> s))"

section \<open>The run loop\<close>

text \<open>One completion: the operation is no longer pending when its handler runs.\<close>

definition complete :: "'ep beast \<Rightarrow> 'ep session \<Rightarrow> 'ep session" where
  "complete B s =
     (let s0 = s\<lparr>pending := Idle\<rparr> in
      case pending s of
        Idle \<Rightarrow> s
      | Resolving host port \<Rightarrow> (let (ec, eps) = b_resolve B host port in on_resolve ec eps s0)
      | Connecting eps \<Rightarrow> on_connect (b_connect B eps) s0
      | Writing \<Rightarrow> on_write (b_write B (req s)) s0
      | Reading \<Rightarrow> (let (ec, r) = b_read B (response s) in on_read B ec (s0\<lparr>response := r\<rparr>)))"

fun stages_left :: "'ep operation \<Rightarrow> nat" where
  "stages_left Idle = 0"
| "stages_left Reading = 1"
| "stages_left Writing = 2"
| "stages_left (Connecting _) = 3"
| "stages_left (Resolving _ _) = 4"

lemma stages_left_0 [simp]: "stages_left p = 0 \<longleftrightarrow> p = Idle"
  by (cases p) simp_all

named_theorems handler_defs \<open>the completion handlers\<close>

lemmas handlers [handler_defs] =
  complete_def on_resolve_def on_connect_def on_write_def on_read_def fail_def

lemma complete_advances:
  "pending s \<noteq> Idle \<Longrightarrow> stages_left (pending (complete B s)) < stages_left (pending s)"
  by (auto simp: handler_defs Let_def split: operation.splits option.splits prod.splits)

function ioc_run :: "'ep beast \<Rightarrow> 'ep session \<Rightarrow> 'ep session" where
  "ioc_run B s = (if stages_left (pending s) = 0 then s else ioc_run B (complete B s))"
  by pat_completeness auto
termination
  by (relation "measure (\<lambda>(B, s). stages_left (pending s))") (simp_all add: complete_advances)

declare ioc_run.simps [simp del]

lemma ioc_run_idle [simp]: "pending s = Idle \<Longrightarrow> ioc_run B s = s"
  by (subst ioc_run.simps) simp

lemma ioc_run_step: "pending s \<noteq> Idle \<Longrightarrow> ioc_run B s = ioc_run B (complete B s)"
  by (subst ioc_run.simps) simp

lemma ioc_run_ends: "pending (ioc_run B s) = Idle"
proof (induction B s rule: ioc_run.induct)
  case (1 B s)
  then show ?case by (cases "pending s") (simp_all add: ioc_run_step)
qed

section \<open>The exchange in direct style\<close>

text \<open>
  What the handlers amount to: the first stage that fails is the only one reported, and the message
  in \<^verbatim>\<open>res_\<close> is touched only by the read.
\<close>

definition exchange ::
  "'ep beast \<Rightarrow> bytes \<Rightarrow> bytes \<Rightarrow> http_request \<Rightarrow> http_response
   \<Rightarrow> (bytes \<times> error_code) option \<times> http_response" where
  "exchange B host port q old =
     (case b_resolve B host port of
        (Some e, _) \<Rightarrow> (Some (''resolve'', e), old)
      | (None, eps) \<Rightarrow>
          (case b_connect B eps of
             Some e \<Rightarrow> (Some (''connect'', e), old)
           | None \<Rightarrow>
               (case b_write B q of
                  Some e \<Rightarrow> (Some (''write'', e), old)
                | None \<Rightarrow>
                    (case b_read B old of
                       (Some e, r) \<Rightarrow> (Some (''read'', e), r)
                     | (None, r) \<Rightarrow>
                         (case b_shutdown B of
                            None \<Rightarrow> (None, r)
                          | Some e \<Rightarrow> (if e = Not_connected then None else Some (''shutdown'', e), r))))))"

fun log_of :: "'a option \<Rightarrow> 'a list" where
  "log_of None = []"
| "log_of (Some x) = [x]"

lemma ioc_run_exchange:
  assumes "pending s = Resolving host port" and "exchange B host port (req s) (response s) = (f, r)"
  shows "response (ioc_run B s) = r \<and> reported (ioc_run B s) = reported s @ log_of f"
  using assms
  by (auto simp: exchange_def ioc_run_step handler_defs Let_def split: option.splits prod.splits if_splits)

end
