(* ===== verification/Config.thy ===== *)
theory Config
  imports Gateway HttpSession NcxServer NcxClient
begin

text \<open>
  The configuration files (\<^verbatim>\<open>util/config.h\<close>): the server's address and backlog, the client's services
  from a local file, and the client's services from the gateway. The TOML library is the parameter
  \<open>toml_lib\<close>: what the sources ask of a parsed document.

  \<^verbatim>\<open>config.h\<close> is read with \<^verbatim>\<open>req.body() = \<dots>\<close> on line 234, where it has \<^verbatim>\<open>req.body = \<dots>\<close>, an assignment to a
  member function.
\<close>

section \<open>The TOML library\<close>

text \<open>
  \<open>t_at_path\<close> is \<^verbatim>\<open>None\<close> where the view is empty, \<open>t_as_table\<close> where the node is no table;
  \<open>t_parse_file\<close> gives the document or the text of the exception it throws;
  \<open>t_for_each\<close> lists the entries of a table in the order \<^verbatim>\<open>for_each\<close> visits them.
\<close>

record 'n toml_lib =
  t_parse_file :: "bytes \<Rightarrow> bytes + 'n"
  t_empty :: "'n \<Rightarrow> bool"
  t_as_table :: "'n \<Rightarrow> 'n option"
  t_at_path :: "'n \<Rightarrow> bytes \<Rightarrow> 'n option"
  t_is_string :: "'n \<Rightarrow> bool"
  t_is_integer :: "'n \<Rightarrow> bool"
  t_get_string :: "'n \<Rightarrow> bytes"
  t_get_integer :: "'n \<Rightarrow> 64 word"
  t_for_each :: "'n \<Rightarrow> (bytes \<times> 'n) list"

text \<open>How reading a configuration can end: \<^verbatim>\<open>exit(1)\<close> after printing an exception, or an exception nobody catches.\<close>

datatype stop = Exit_1 exn | Uncaught exn

definition try_exit :: "exn + 'a \<Rightarrow> stop + 'a" where
  "try_exit r = (case r of Inl e \<Rightarrow> Inl (Exit_1 e) | Inr x \<Rightarrow> Inr x)"

section \<open>Shared pieces\<close>

text \<open>A \<^verbatim>\<open>std::string\<close> passed as \<^verbatim>\<open>const char*\<close> ends at its first null character.\<close>

definition c_str :: "bytes \<Rightarrow> bytes" where
  "c_str s = takeWhile (\<lambda>c. c \<noteq> CHR 0x00) s"

definition int_of_toml :: "64 word \<Rightarrow> u32" where
  "int_of_toml v = ucast v"

definition port_of_int :: "u32 \<Rightarrow> u16" where
  "port_of_int v = ucast v"

definition table_field :: "'n toml_lib \<Rightarrow> 'n \<Rightarrow> bytes \<Rightarrow> bytes \<Rightarrow> exn + 'n" where
  "table_field T t k msg =
     (case t_at_path T t k of
        None \<Rightarrow> Inl (Runtime_error msg)
      | Some n \<Rightarrow> (case t_as_table T n of None \<Rightarrow> Inl (Runtime_error msg) | Some tbl \<Rightarrow> Inr tbl))"

definition string_field :: "'n toml_lib \<Rightarrow> 'n \<Rightarrow> bytes \<Rightarrow> bytes \<Rightarrow> exn + bytes" where
  "string_field T t k msg =
     (case t_at_path T t k of
        None \<Rightarrow> Inl (Runtime_error msg)
      | Some n \<Rightarrow> if \<not> t_is_string T n then Inl (Runtime_error msg) else Inr (t_get_string T n))"

definition integer_field :: "'n toml_lib \<Rightarrow> 'n \<Rightarrow> bytes \<Rightarrow> bytes \<Rightarrow> exn + u32" where
  "integer_field T t k msg =
     (case t_at_path T t k of
        None \<Rightarrow> Inl (Runtime_error msg)
      | Some n \<Rightarrow>
          if \<not> t_is_integer T n then Inl (Runtime_error msg) else Inr (int_of_toml (t_get_integer T n)))"

definition root_table :: "'n toml_lib \<Rightarrow> 'n \<Rightarrow> bytes \<Rightarrow> exn + 'n" where
  "root_table T config msg = (case t_as_table T config of None \<Rightarrow> Inl (Runtime_error msg) | Some t \<Rightarrow> Inr t)"

definition Config_new :: "'n toml_lib \<Rightarrow> bytes \<Rightarrow> bytes + 'n" where
  "Config_new T path = t_parse_file T path"

section \<open>ServerConfig\<close>

record ServerArgs =
  sa_server_addr :: sockaddr_in
  sa_backlog :: int

text \<open>The check for an empty document stands before the \<^verbatim>\<open>try\<close>: what it throws is not caught here.\<close>

definition parseAsServerArgs :: "env \<Rightarrow> 'n toml_lib \<Rightarrow> 'n \<Rightarrow> stop + ServerArgs" where
  "parseAsServerArgs E T config =
     (if t_empty T config
      then Inl (Uncaught (Runtime_error ''Failed To Parse Server Config File: Config is empty!''))
      else try_exit
        (bindR (root_table T config ''Failed To Parse Server Config File: Config is not a valid table!'') (\<lambda>t.
         bindR (table_field T t ''server''
                  ''Failed To Parse Server Config File: [server] section is missing or invalid!'') (\<lambda>s.
         bindR (string_field T s ''server_ip''
                  ''Failed To Parse Server Config File: [server.server_ip] is missing or invalid!'') (\<lambda>ip.
         bindR (integer_field T s ''server_port''
                  ''Failed To Parse Server Config File: [server.server_port] is missing or invalid!'') (\<lambda>port.
         bindR (integer_field T s ''backlog''
                  ''Failed To Parse Server Config File: [server.backlog] is missing or invalid!'') (\<lambda>backlog.
           Inr \<lparr>sa_server_addr = InetAddress E (c_str ip) (port_of_int port), sa_backlog = sint backlog\<rparr>)))))))"

section \<open>ClientConfig, local file\<close>

text \<open>The \<^verbatim>\<open>for_each\<close> lambda: one entry of the root table.\<close>

definition parse_service ::
  "env \<Rightarrow> 'n toml_lib \<Rightarrow> sockaddr_in \<Rightarrow> bytes \<times> 'n \<Rightarrow> CControlChannelArgs list
   \<Rightarrow> exn + CControlChannelArgs list" where
  "parse_service E T srv = (\<lambda>(key, val) result.
     if key = ''client'' then Inr result
     else
       bindR (root_table T val
                (''Failed To Parse Client Config File: Service ['' @ key @ ''] is not a valid table!'')) (\<lambda>t.
       bindR (string_field T t ''service_ip''
                (''Failed To Parse Client Config File: [service_ip] is missing or invalid in service ['' @ key @ '']!''))
         (\<lambda>ip.
       bindR (integer_field T t ''service_port''
                (''Failed To Parse Client Config File: [service_port] is missing or invalid in service ['' @ key @ '']!''))
         (\<lambda>port.
       bindR (integer_field T t ''proxy_port''
                (''Failed To Parse Client Config File: [proxy_port] is missing or invalid in service ['' @ key @ '']!''))
         (\<lambda>proxy.
         Inr (result @ [\<lparr>a_server_addr = srv, a_service_name = c_str key,
                          a_service_addr = InetAddress E (c_str ip) (port_of_int port),
                          a_proxy_port = port_of_int proxy\<rparr>]))))))"

definition client_section :: "'n toml_lib \<Rightarrow> 'n \<Rightarrow> exn + 'n \<times> 'n" where
  "client_section T config =
     (if t_empty T config then Inl (Runtime_error ''Failed To Parse Client Config File: Config is empty!'')
      else
        bindR (root_table T config ''Failed To Parse Client Config File: Config is not a valid table!'') (\<lambda>t.
        bindR (table_field T t ''client''
                 ''Failed To Parse Client Config File: [client] section is missing or invalid!'') (\<lambda>c.
          Inr (t, c))))"

definition parseAsControlChannelArgsVecFromLocalConfig ::
  "env \<Rightarrow> 'n toml_lib \<Rightarrow> 'n \<Rightarrow> stop + CControlChannelArgs list" where
  "parseAsControlChannelArgsVecFromLocalConfig E T config = try_exit
     (bindR (client_section T config) (\<lambda>(t, c).
      bindR (string_field T c ''server_ip''
               ''Failed To Parse Client Config File: [client.server_ip] is missing or invalid!'') (\<lambda>ip.
      bindR (integer_field T c ''server_port''
               ''Failed To Parse Client Config File: [client.server_port] is missing or invalid!'') (\<lambda>port.
        foldR (parse_service E T (InetAddress E (c_str ip) (port_of_int port))) (t_for_each T t) []))))"

section \<open>ClientConfig, gateway\<close>

fun decimal :: "nat \<Rightarrow> bytes" where
  "decimal n = (if n < 10 then [char_of (48 + n)] else decimal (n div 10) @ [char_of (48 + n mod 10)])"

text \<open>\<^verbatim>\<open>std::to_string(int)\<close>\<close>

definition int_to_string :: "u32 \<Rightarrow> bytes" where
  "int_to_string v = (if sint v < 0 then CHR ''-'' # decimal (nat (- sint v)) else decimal (nat (sint v)))"

text \<open>A fresh request with a body; \<^verbatim>\<open>Get\<close> sets the version, the verb and the target.\<close>

definition new_request :: "bytes \<Rightarrow> http_request" where
  "new_request bd = \<lparr>hr_version = 11, hr_verb = Verb_get, hr_target = [], hr_fields = [], hr_body = bd\<rparr>"

definition services_of_response :: "env \<Rightarrow> GetServiceResp \<Rightarrow> CControlChannelArgs list" where
  "services_of_response E resp =
     map (\<lambda>i. \<lparr>a_server_addr = InetAddress E (c_str (gr_server_addr resp)) (port_of_int (gr_server_port resp)),
               a_service_name = si_service_name i,
               a_service_addr = InetAddress E (c_str (si_service_addr i)) (port_of_int (si_service_port i)),
               a_proxy_port = port_of_int (si_proxy_port i)\<rparr>) (services resp)"

definition fetch_services ::
  "'j json_lib \<Rightarrow> 'ep beast \<Rightarrow> bytes \<Rightarrow> u32 \<Rightarrow> bytes \<Rightarrow> exn + GetServiceResp" where
  "fetch_services J B gateway_ip gateway_port tok =
     bindR (GetServiceReq_to_json J \<lparr>token = tok\<rparr>) (\<lambda>bd.
       let s = ioc_run B (Get B (c_str gateway_ip) (int_to_string gateway_port) ''/getservice'' 11
                            (session_new (new_request bd)))
       in GetServiceResp_parse J (resp_body (response s)))"

definition parseAsControlChannelArgsVecFromRemoteConfig ::
  "env \<Rightarrow> 'n toml_lib \<Rightarrow> 'j json_lib \<Rightarrow> 'ep beast \<Rightarrow> 'n \<Rightarrow> stop + CControlChannelArgs list" where
  "parseAsControlChannelArgsVecFromRemoteConfig E T J B config = try_exit
     (bindR (client_section T config) (\<lambda>(t, c).
      bindR (string_field T c ''gateway_ip''
               ''Failed To Parse Client Config File: [client.server_ip] is missing or invalid!'') (\<lambda>ip.
      bindR (integer_field T c ''gateway_port''
               ''Failed To Parse Client Config File: [client.server_port] is missing or invalid!'') (\<lambda>port.
      bindR (string_field T c ''token''
               ''Failed To Parse Client Config File: [client.token] is missing or invalid!'') (\<lambda>tok.
      bindR (fetch_services J B ip port tok) (\<lambda>resp. Inr (services_of_response E resp)))))))"

section \<open>Ports\<close>

text \<open>A 64-bit TOML integer as a port: the two conversions keep the low sixteen bits.\<close>

lemma uint_port: "uint (port_of_int (int_of_toml v)) = sint v mod 65536"
proof -
  have "port_of_int (int_of_toml v) = ucast v"
    by (rule bit_word_eqI) (auto simp: port_of_int_def int_of_toml_def bit_simps)
  then have "uint (port_of_int (int_of_toml v)) = take_bit 16 (sint v)"
    by (simp add: unsigned_ucast_eq sint_uint take_bit_signed_take_bit)
  then show ?thesis by (simp add: take_bit_eq_mod)
qed

lemma try_exit_Inr [simp]: "try_exit r = Inr x \<longleftrightarrow> r = Inr x"
  by (cases r) (simp_all add: try_exit_def)

lemma string_field_Inr:
  "string_field T t k msg = Inr s \<longleftrightarrow> (\<exists>n. t_at_path T t k = Some n \<and> t_is_string T n \<and> s = t_get_string T n)"
  by (auto simp: string_field_def split: option.splits)

lemma integer_field_Inr:
  "integer_field T t k msg = Inr v \<longleftrightarrow>
     (\<exists>n. t_at_path T t k = Some n \<and> t_is_integer T n \<and> v = int_of_toml (t_get_integer T n))"
  by (auto simp: integer_field_def split: option.splits)

lemma table_field_Inr:
  "table_field T t k msg = Inr s \<longleftrightarrow> (\<exists>n. t_at_path T t k = Some n \<and> t_as_table T n = Some s)"
  by (auto simp: table_field_def split: option.splits)

lemma root_table_Inr: "root_table T c msg = Inr t \<longleftrightarrow> t_as_table T c = Some t"
  by (auto simp: root_table_def split: option.splits)

lemmas field_simps_Inr = string_field_Inr integer_field_Inr table_field_Inr root_table_Inr

lemma server_args_complete:
  assumes "parseAsServerArgs E T config = Inr args"
  obtains t n s ip port backlog where "\<not> t_empty T config" and "t_as_table T config = Some t"
    and "t_at_path T t ''server'' = Some n" and "t_as_table T n = Some s"
    and "t_at_path T s ''server_ip'' = Some ip" and "t_is_string T ip"
    and "t_at_path T s ''server_port'' = Some port" and "t_is_integer T port"
    and "t_at_path T s ''backlog'' = Some backlog" and "t_is_integer T backlog"
    and "args = \<lparr>sa_server_addr = InetAddress E (c_str (t_get_string T ip)) (port_of_int (int_of_toml (t_get_integer T port))),
                 sa_backlog = sint (int_of_toml (t_get_integer T backlog))\<rparr>"
  using assms by (auto simp: parseAsServerArgs_def bindR_eq_Inr field_simps_Inr split: if_splits)

section \<open>Services of a local file\<close>

text \<open>One entry of the file, read directly.\<close>

definition service_args :: "env \<Rightarrow> 'n toml_lib \<Rightarrow> sockaddr_in \<Rightarrow> bytes \<times> 'n \<Rightarrow> CControlChannelArgs option" where
  "service_args E T srv = (\<lambda>(key, val).
     case t_as_table T val of None \<Rightarrow> None
     | Some t \<Rightarrow>
        (case (t_at_path T t ''service_ip'', t_at_path T t ''service_port'', t_at_path T t ''proxy_port'') of
           (Some ip, Some port, Some proxy) \<Rightarrow>
             if t_is_string T ip \<and> t_is_integer T port \<and> t_is_integer T proxy
             then Some \<lparr>a_server_addr = srv, a_service_name = c_str key,
                        a_service_addr = InetAddress E (c_str (t_get_string T ip))
                          (port_of_int (int_of_toml (t_get_integer T port))),
                        a_proxy_port = port_of_int (int_of_toml (t_get_integer T proxy))\<rparr>
             else None
         | _ \<Rightarrow> None))"

definition services_of :: "'n toml_lib \<Rightarrow> 'n \<Rightarrow> (bytes \<times> 'n) list" where
  "services_of T t = filter (\<lambda>(key, _). key \<noteq> ''client'') (t_for_each T t)"

lemma parse_service_step:
  "key \<noteq> ''client'' \<Longrightarrow> (case service_args E T srv (key, val) of
     Some a \<Rightarrow> parse_service E T srv (key, val) acc = Inr (acc @ [a])
   | None \<Rightarrow> (\<exists>e. parse_service E T srv (key, val) acc = Inl e))"
  by (auto simp: parse_service_def service_args_def root_table_def string_field_def integer_field_def
      split: option.splits)

lemma parse_services_all:
  assumes "\<forall>e \<in> set (filter (\<lambda>(key, _). key \<noteq> ''client'') es). service_args E T srv e \<noteq> None"
  shows "foldR (parse_service E T srv) es acc =
    Inr (acc @ map (the \<circ> service_args E T srv) (filter (\<lambda>(key, _). key \<noteq> ''client'') es))"
  using assms
proof (induction es arbitrary: acc)
  case (Cons e es)
  obtain key val where e: "e = (key, val)" by force
  then show ?case
    using Cons parse_service_step [of key E T srv val acc]
    by (cases "key = ''client''") (auto simp: parse_service_def split: option.splits)
qed simp

lemma parse_services_bad:
  assumes "e \<in> set (filter (\<lambda>(key, _). key \<noteq> ''client'') es)" and "service_args E T srv e = None"
  shows "\<exists>x. foldR (parse_service E T srv) es acc = Inl x"
  using assms(1)
proof (induction es arbitrary: acc)
  case (Cons f es)
  show ?case
  proof (cases "parse_service E T srv f acc")
    case (Inr acc1)
    have "e \<noteq> f \<or> fst f = ''client''"
      by (cases "fst f = ''client''")
         (use parse_service_step [of "fst f" E T srv "snd f" acc] assms(2) Inr in auto)
    then have "e \<in> set (filter (\<lambda>(key, _). key \<noteq> ''client'') es)"
      using Cons.prems by (auto split: if_splits prod.splits)
    then show ?thesis using Cons.IH Inr by simp
  qed simp
qed simp

text \<open>The \<^verbatim>\<open>[client]\<close> section with the server's address.\<close>

definition client_server :: "env \<Rightarrow> 'n toml_lib \<Rightarrow> 'n \<Rightarrow> 'n \<Rightarrow> sockaddr_in \<Rightarrow> bool" where
  "client_server E T config t srv \<longleftrightarrow>
     \<not> t_empty T config \<and> t_as_table T config = Some t \<and>
     (case t_at_path T t ''client'' of None \<Rightarrow> False | Some n \<Rightarrow>
       (case t_as_table T n of None \<Rightarrow> False | Some c \<Rightarrow>
         (case (t_at_path T c ''server_ip'', t_at_path T c ''server_port'') of
            (Some ip, Some port) \<Rightarrow> t_is_string T ip \<and> t_is_integer T port \<and>
              srv = InetAddress E (c_str (t_get_string T ip)) (port_of_int (int_of_toml (t_get_integer T port)))
          | _ \<Rightarrow> False)))"

lemma local_config_folds:
  assumes "client_server E T config t srv"
  shows "parseAsControlChannelArgsVecFromLocalConfig E T config =
    try_exit (foldR (parse_service E T srv) (t_for_each T t) [])"
  using assms
  by (auto simp: client_server_def parseAsControlChannelArgsVecFromLocalConfig_def client_section_def
      root_table_def table_field_def string_field_def integer_field_def split: option.splits)

lemma local_config_result:
  assumes "client_server E T config t srv"
  shows "if \<forall>e \<in> set (services_of T t). service_args E T srv e \<noteq> None
    then parseAsControlChannelArgsVecFromLocalConfig E T config =
      Inr (map (the \<circ> service_args E T srv) (services_of T t))
    else \<exists>x. parseAsControlChannelArgsVecFromLocalConfig E T config = Inl (Exit_1 x)"
proof -
  note fold = local_config_folds [OF assms]
  have "\<exists>x. parseAsControlChannelArgsVecFromLocalConfig E T config = Inl (Exit_1 x)"
    if "e \<in> set (services_of T t)" "service_args E T srv e = None" for e
    using parse_services_bad [OF that [unfolded services_of_def], of "[]"] fold by (auto simp: try_exit_def)
  moreover have "parseAsControlChannelArgsVecFromLocalConfig E T config =
      Inr (map (the \<circ> service_args E T srv) (services_of T t))"
    if "\<forall>e \<in> set (services_of T t). service_args E T srv e \<noteq> None"
    using parse_services_all [of "t_for_each T t" E T srv "[]"] that fold by (simp add: services_of_def)
  ultimately show ?thesis by auto
qed

section \<open>Services from the gateway\<close>

text \<open>The \<^verbatim>\<open>[client]\<close> section with the gateway's address and the token.\<close>

definition client_gateway :: "'n toml_lib \<Rightarrow> 'n \<Rightarrow> bytes \<Rightarrow> u32 \<Rightarrow> bytes \<Rightarrow> bool" where
  "client_gateway T config ip port tok \<longleftrightarrow>
     \<not> t_empty T config \<and>
     (case t_as_table T config of None \<Rightarrow> False | Some t \<Rightarrow>
     (case t_at_path T t ''client'' of None \<Rightarrow> False | Some n \<Rightarrow>
     (case t_as_table T n of None \<Rightarrow> False | Some c \<Rightarrow>
     (case (t_at_path T c ''gateway_ip'', t_at_path T c ''gateway_port'', t_at_path T c ''token'') of
        (Some i, Some p, Some k) \<Rightarrow>
          t_is_string T i \<and> t_is_integer T p \<and> t_is_string T k \<and>
          ip = t_get_string T i \<and> port = int_of_toml (t_get_integer T p) \<and> tok = t_get_string T k
      | _ \<Rightarrow> False))))"

lemma remote_config_fetches:
  assumes "client_gateway T config ip port tok"
  shows "parseAsControlChannelArgsVecFromRemoteConfig E T J B config =
    try_exit (bindR (fetch_services J B ip port tok) (\<lambda>resp. Inr (services_of_response E resp)))"
  using assms
  by (auto simp: client_gateway_def parseAsControlChannelArgsVecFromRemoteConfig_def client_section_def
      root_table_def table_field_def string_field_def integer_field_def split: option.splits)

text \<open>The request that goes out, and its fate.\<close>

definition gateway_exchange ::
  "'ep beast \<Rightarrow> bytes \<Rightarrow> u32 \<Rightarrow> bytes \<Rightarrow> (bytes \<times> error_code) option \<times> http_response" where
  "gateway_exchange B ip port bd =
     exchange B (c_str ip) (int_to_string port) (Get_request B (c_str ip) ''/getservice'' 11 (new_request bd))
       empty_response"

lemma fetch_services_exchange:
  assumes "GetServiceReq_to_json J \<lparr>token = tok\<rparr> = Inr bd" and "gateway_exchange B ip port bd = (f, r)"
  shows "fetch_services J B ip port tok = GetServiceResp_parse J (resp_body r)"
proof -
  let ?s = "Get B (c_str ip) (int_to_string port) ''/getservice'' 11 (session_new (new_request bd))"
  have "response (ioc_run B ?s) = r"
    using ioc_run_exchange [of ?s "c_str ip" "int_to_string port" B f r] assms(2)
    by (simp add: gateway_exchange_def Get_def session_new_def)
  then show ?thesis using assms(1) by (simp add: fetch_services_def)
qed

context nlohmann
begin

lemma request_dumped:
  assumes "text_ok tok" and "text_ok ''token''"
  obtains bd where "GetServiceReq_to_json J \<lparr>token = tok\<rparr> = Inr bd"
  using round_trip [of "j_assign J ''token'' (j_of_string J tok) (j_null J)"] assms
  by (auto simp: GetServiceReq_to_json_def)

lemma remote_result:
  assumes "client_gateway T config ip port tok" and "GetServiceReq_to_json J \<lparr>token = tok\<rparr> = Inr bd"
    and "gateway_exchange B ip port bd = (f, r)" and "GetServiceResp_to_json J resp = Inr (resp_body r)"
    and "list_all text_ok [''service_name'', ''service_addr'', ''service_port'', ''proxy_port'',
      ''services'', ''server_addr'', ''server_port'']"
    and "text_ok (gr_server_addr resp)"
    and "\<forall>i \<in> set (services resp). text_ok (si_service_name i) \<and> text_ok (si_service_addr i)"
  shows "parseAsControlChannelArgsVecFromRemoteConfig E T J B config = Inr (services_of_response E resp)"
proof -
  obtain s where "GetServiceResp_to_json J resp = Inr s" "GetServiceResp_parse J s = Inr resp"
    using response_round_trip [OF assms(5-7)] by blast
  then show ?thesis
    using remote_config_fetches [OF assms(1), of E J B] fetch_services_exchange [OF assms(2,3)] assms(4) by simp
qed

end

text \<open>A gateway that cannot be reached leaves the response empty, which is no JSON document.\<close>

lemma exchange_unreached:
  assumes "exchange B host port q old = (Some (w, e), r)" and "w \<noteq> ''read''" and "w \<noteq> ''shutdown''"
  shows "r = old"
  using assms by (auto simp: exchange_def split: option.splits prod.splits if_splits)

lemma remote_unreachable:
  assumes "client_gateway T config ip port tok" and "GetServiceReq_to_json J \<lparr>token = tok\<rparr> = Inr bd"
    and "gateway_exchange B ip port bd = (Some (what, e), r)" and "what \<noteq> ''read''" and "what \<noteq> ''shutdown''"
    and "j_parse J [] = Inl (Nlohmann_parse_error m)"
  shows "parseAsControlChannelArgsVecFromRemoteConfig E T J B config =
    Inl (Exit_1 (JsonException (Text_parse_failed m)))"
proof -
  have "r = empty_response" using exchange_unreached assms(3-5) by (fastforce simp: gateway_exchange_def)
  then show ?thesis
    using remote_config_fetches [OF assms(1), of E J B] fetch_services_exchange [OF assms(2,3)] assms(6)
    by (simp add: empty_response_def GetServiceResp_parse_def try_exit_def)
qed

end
