(* ===== verification/Cli.thy ===== *)
theory Cli
  imports Config
begin

text \<open>
  The entry points: \<^verbatim>\<open>main\<close> of the server (\<^verbatim>\<open>ncx_server/ncxs.cpp\<close>), and the command line of the client
  (\<^verbatim>\<open>cli/cli.h\<close>, \<^verbatim>\<open>ncx_client/ncxc.cpp\<close>). The option parser is a parameter: the message of the error it
  throws, or the values of the options given. The banners and help texts are not kept. Library
  exceptions are named by their class.
\<close>

section \<open>The server\<close>

fun stop_fault :: "stop \<Rightarrow> fault" where
  "stop_fault (Exit_1 e) = Exit_Failure ''Error''"
| "stop_fault (Uncaught (Runtime_error s)) = Thrown s"
| "stop_fault (Uncaught e) = Thrown ''std::exception''"

definition or_stop :: "stop + 'a \<Rightarrow> 'a res" where
  "or_stop r = (case r of Inl s \<Rightarrow> Inl (stop_fault s) | Inr x \<Rightarrow> Inr x)"

text \<open>Without an argument \<^verbatim>\<open>argv[1]\<close> is a null pointer, from which a string is made.\<close>

definition ncxs_main ::
  "env \<Rightarrow> 'n toml_lib \<Rightarrow> nat \<Rightarrow> nat \<Rightarrow> bytes list \<Rightarrow> NServer \<Rightarrow> NServer option res" where
  "ncxs_main E T depth n argv w =
     (case argv of
        prog # path # more_args \<Rightarrow>
          (case Config_new T path of
             Inl e \<Rightarrow> Inl (Thrown e)
           | Inr config \<Rightarrow>
               bindR (or_stop (parseAsServerArgs E T config)) (\<lambda>args.
               bindR (NServer_new E (sa_server_addr args) (sa_backlog args) w) (run_server E depth n)))
      | _ \<Rightarrow> Inl Undefined_Behaviour)"

section \<open>The client\<close>

fun catch_as :: "bytes \<Rightarrow> 'a res \<Rightarrow> 'a res" where
  "catch_as pre (Inl (Thrown s)) = Inl (Thrown (pre @ s))"
| "catch_as pre (Inl Out_Of_Range) = Inl (Thrown (pre @ ''std::out_of_range''))"
| "catch_as pre (Inl Length_Error) = Inl (Thrown (pre @ ''std::length_error''))"
| "catch_as pre r = r"

definition load_config :: "'n toml_lib \<Rightarrow> bytes \<Rightarrow> 'n res" where
  "load_config T file =
     (case Config_new T file of
        Inl e \<Rightarrow> Inl (Thrown (''Failed to load config file ['' @ file @ '']: '' @ e))
      | Inr config \<Rightarrow> Inr config)"

definition start_client ::
  "env \<Rightarrow> nat \<Rightarrow> nat \<Rightarrow> CControlChannelArgs list \<Rightarrow> NClient \<Rightarrow> NClient option res" where
  "start_client E depth n args w =
     bindR (NClient_new E (cli_hooks E depth) args w) (run_client E depth n)"

definition handleLocalConfig ::
  "env \<Rightarrow> 'n toml_lib \<Rightarrow> nat \<Rightarrow> nat \<Rightarrow> bytes \<Rightarrow> NClient \<Rightarrow> NClient option res" where
  "handleLocalConfig E T depth n local_file w =
     bindR (load_config T local_file) (\<lambda>config.
       catch_as ''Client initialization failed: ''
         (bindR (or_stop (parseAsControlChannelArgsVecFromLocalConfig E T config)) (\<lambda>args.
            start_client E depth n args w)))"

definition handleRemoteTunnel ::
  "env \<Rightarrow> 'n toml_lib \<Rightarrow> 'j json_lib \<Rightarrow> 'ep beast \<Rightarrow> nat \<Rightarrow> nat \<Rightarrow> bytes \<Rightarrow> NClient \<Rightarrow> NClient option res" where
  "handleRemoteTunnel E T J B depth n remote_config_file w =
     bindR (load_config T remote_config_file) (\<lambda>config.
       catch_as ''Client initialization failed: ''
         (bindR (or_stop (parseAsControlChannelArgsVecFromRemoteConfig E T J B config)) (\<lambda>args.
            start_client E depth n args w)))"

type_synonym po_lib = "bytes list \<Rightarrow> bytes + (bytes \<Rightarrow> bytes option)"

definition Cli_parse ::
  "env \<Rightarrow> 'n toml_lib \<Rightarrow> 'j json_lib \<Rightarrow> 'ep beast \<Rightarrow> po_lib \<Rightarrow> nat \<Rightarrow> nat \<Rightarrow> bytes list \<Rightarrow> NClient
   \<Rightarrow> NClient option res" where
  "Cli_parse E T J B P depth n argv w =
     (case P argv of
        Inl e \<Rightarrow> Inl (Thrown (''Command line error: '' @ e))
      | Inr vm \<Rightarrow>
          if vm ''help'' \<noteq> None then Inl Exit_Success
          else if vm ''version'' \<noteq> None then Inl Exit_Success
          else (case vm ''local'' of
                  Some file \<Rightarrow> handleLocalConfig E T depth n file w
                | None \<Rightarrow>
                    (case vm ''remote'' of
                       Some file \<Rightarrow> handleRemoteTunnel E T J B depth n file w
                     | None \<Rightarrow> Inl (Thrown ''No valid command specified. Use --help for options.''))))"

text \<open>
  What \<^verbatim>\<open>main\<close> calls is the public \<^verbatim>\<open>Cli::Parse\<close>, whose \<^verbatim>\<open>try\<close> block is empty: the protected \<^verbatim>\<open>parse\<close> above is
  never called.
\<close>

definition Cli_Parse :: "bytes list \<Rightarrow> NClient \<Rightarrow> NClient res" where
  "Cli_Parse argv w = Inr w"

definition ncxc_main :: "bytes list \<Rightarrow> NClient \<Rightarrow> NClient res" where
  "ncxc_main argv w = Cli_Parse argv w"

section \<open>Facts\<close>

lemma or_stop_simps [simp]:
  "or_stop (Inr x) = Inr x" "or_stop (Inl s) = Inl (stop_fault s)"
  by (simp_all add: or_stop_def)

text \<open>A bad configuration stops the client before any system call is made.\<close>

lemma bad_local_config:
  assumes "Config_new T file = Inr config" and "client_server E T config t srv"
    and "e \<in> set (services_of T t)" and "service_args E T srv e = None"
  shows "handleLocalConfig E T depth n file w = Inl (Exit_Failure ''Error'')"
  using local_config_result [OF assms(2)] assms(1,3,4)
  by (auto simp: handleLocalConfig_def load_config_def split: if_splits)

lemma good_local_config:
  assumes "Config_new T file = Inr config" and "client_server E T config t srv"
    and "\<forall>e \<in> set (services_of T t). service_args E T srv e \<noteq> None"
  shows "handleLocalConfig E T depth n file w =
    catch_as ''Client initialization failed: ''
      (start_client E depth n (map (the \<circ> service_args E T srv) (services_of T t)) w)"
  using local_config_result [OF assms(2)] assms(1,3)
  by (simp add: handleLocalConfig_def load_config_def)

end
