(* ===== verification/EvPool.thy ===== *)
theory EvPool
  imports Main
begin

text \<open>
  \<^verbatim>\<open>EvPoolThread\<close> (\<^verbatim>\<open>network/evPoolThread.cpp\<close>): a thread that runs an event loop of its own, and
  \<^verbatim>\<open>StartLoop\<close>, which starts it and waits on a condition variable until the loop's address is
  published. Two threads interleave, so the class is a step relation: one rule per statement that
  touches the shared members. The mutex, the condition variable and thread creation are the
  standard library's: a lock is taken when it is free, \<^verbatim>\<open>wait\<close> releases it and, once notified (or
  spuriously), takes it again before it returns.
\<close>

section \<open>State\<close>

text \<open>The value of \<^verbatim>\<open>loop_\<close>: indeterminate, null, or the address of the thread's loop.\<close>

datatype loop_ptr = Indeterminate | Null | Loop_addr

datatype thread = Main_thread | Pool_thread

datatype main_pc = M_start | M_lock | M_test | M_wait | M_relock | M_result loop_ptr

datatype pool_pc = P_none | P_lock | P_publish | P_notify | P_run | P_relock | P_clear | P_end

record pool =
  loop_member :: loop_ptr
  mtx :: "thread option"
  main_at :: main_pc
  pool_at :: pool_pc

text \<open>The constructor initialises nothing.\<close>

definition EvPoolThread_new :: pool where
  "EvPoolThread_new = \<lparr>loop_member = Indeterminate, mtx = None, main_at = M_start, pool_at = P_none\<rparr>"

section \<open>Steps\<close>

inductive pool_step :: "pool \<Rightarrow> pool \<Rightarrow> bool" where
  spawn: "main_at s = M_start \<Longrightarrow> pool_step s (s\<lparr>main_at := M_lock, pool_at := P_lock\<rparr>)"
| main_lock: "main_at s = M_lock \<Longrightarrow> mtx s = None
    \<Longrightarrow> pool_step s (s\<lparr>main_at := M_test, mtx := Some Main_thread\<rparr>)"
| main_wait: "main_at s = M_test \<Longrightarrow> loop_member s = Null
    \<Longrightarrow> pool_step s (s\<lparr>main_at := M_wait, mtx := None\<rparr>)"
| main_wake: "main_at s = M_wait \<Longrightarrow> pool_step s (s\<lparr>main_at := M_relock\<rparr>)"
| main_relock: "main_at s = M_relock \<Longrightarrow> mtx s = None
    \<Longrightarrow> pool_step s (s\<lparr>main_at := M_test, mtx := Some Main_thread\<rparr>)"
| main_result: "main_at s = M_test \<Longrightarrow> loop_member s \<noteq> Null
    \<Longrightarrow> pool_step s (s\<lparr>main_at := M_result (loop_member s), mtx := None\<rparr>)"
| pool_lock: "pool_at s = P_lock \<Longrightarrow> mtx s = None
    \<Longrightarrow> pool_step s (s\<lparr>pool_at := P_publish, mtx := Some Pool_thread\<rparr>)"
| pool_publish: "pool_at s = P_publish \<Longrightarrow> pool_step s (s\<lparr>pool_at := P_notify, loop_member := Loop_addr\<rparr>)"
| pool_notify: "pool_at s = P_notify
    \<Longrightarrow> pool_step s (s\<lparr>pool_at := P_run, mtx := None,
          main_at := (if main_at s = M_wait then M_relock else main_at s)\<rparr>)"
| pool_stop: "pool_at s = P_run \<Longrightarrow> pool_step s (s\<lparr>pool_at := P_relock\<rparr>)"
| pool_relock: "pool_at s = P_relock \<Longrightarrow> mtx s = None
    \<Longrightarrow> pool_step s (s\<lparr>pool_at := P_clear, mtx := Some Pool_thread\<rparr>)"
| pool_clear: "pool_at s = P_clear
    \<Longrightarrow> pool_step s (s\<lparr>pool_at := P_end, loop_member := Null, mtx := None\<rparr>)"

inductive_simps pool_step_iff: "pool_step s t"

section \<open>Invariant\<close>



definition before_publish :: "pool_pc \<Rightarrow> bool" where
  "before_publish p \<longleftrightarrow> p \<in> {P_none, P_lock, P_publish}"





section \<open>StartLoop can always finish\<close>











section \<open>Properties\<close>





text \<open>
  The constructor leaves \<^verbatim>\<open>loop_\<close> uninitialised: \<^verbatim>\<open>StartLoop\<close> can find an indeterminate value that is
  not null, skip the wait and return it before the thread has published anything.
\<close>

theorem start_loop_uninitialised:
  "\<exists>s. pool_step\<^sup>*\<^sup>* EvPoolThread_new s \<and> main_at s = M_result Indeterminate \<and> before_publish (pool_at s)"
proof -
  let ?a = "EvPoolThread_new\<lparr>main_at := M_lock, pool_at := P_lock\<rparr>"
  let ?b = "?a\<lparr>main_at := M_test, mtx := Some Main_thread\<rparr>"
  let ?c = "?b\<lparr>main_at := M_result Indeterminate, mtx := None\<rparr>"
  have a: "pool_step EvPoolThread_new ?a" by (rule pool_step.spawn) (simp add: EvPoolThread_new_def)
  have b: "pool_step ?a ?b" by (rule pool_step.main_lock) (simp_all add: EvPoolThread_new_def)
  have c: "pool_step ?b ?c" using pool_step.main_result [of ?b] by (simp add: EvPoolThread_new_def)
  have "pool_step\<^sup>*\<^sup>* EvPoolThread_new ?c" 
    by (rule converse_rtranclp_into_rtranclp, rule a, rule converse_rtranclp_into_rtranclp, rule b,
        rule r_into_rtranclp, rule c)
  then show ?thesis by (intro exI [of _ ?c]) (simp add: before_publish_def)
qed

end
