(* ===== verification/Evolution.thy ===== *)
theory Evolution
  imports Conn
begin

text \<open>
  What the code of a connection can do to the state of the process, whatever the kernel answers and
  whatever the callbacks are: the interface between \<^verbatim>\<open>Connection\<close> and the programs built on it.
  A program names a preorder on its states that allows what connections do (kernel calls, thread
  identity, tasks, references, a state that only advances, a connection gone, a fresh one) and that
  its callbacks respect; every operation of a connection then respects it as well.
\<close>

section \<open>The order of connection states\<close>

instantiation ConnectionState :: linorder
begin

primrec state_rank :: "ConnectionState \<Rightarrow> nat" where
  "state_rank CONNECTING = 0"
| "state_rank CONNECTED = 1"
| "state_rank DISCONNECTING = 2"
| "state_rank DISCONNECTED = 3"

definition less_eq_ConnectionState :: "ConnectionState \<Rightarrow> ConnectionState \<Rightarrow> bool" where
  "less_eq_ConnectionState s t \<longleftrightarrow> state_rank s \<le> state_rank t"

definition less_ConnectionState :: "ConnectionState \<Rightarrow> ConnectionState \<Rightarrow> bool" where
  "less_ConnectionState s t \<longleftrightarrow> state_rank s < state_rank t"

instance
proof
  fix s t :: ConnectionState
  show "s \<le> t \<Longrightarrow> t \<le> s \<Longrightarrow> s = t"
    by (cases s; cases t) (simp_all add: less_eq_ConnectionState_def)
qed (auto simp: less_eq_ConnectionState_def less_ConnectionState_def)

end

lemma state_le_simps [simp]:
  "CONNECTING \<le> s" "s \<le> DISCONNECTED" "CONNECTED \<le> DISCONNECTING" "\<not> CONNECTED \<le> CONNECTING"
  by (cases s; simp add: less_eq_ConnectionState_def)+

text \<open>A later state of the same connection: same socket, same addresses, and no way back.\<close>

definition conn_le :: "'cb connection \<Rightarrow> 'cb connection \<Rightarrow> bool" where
  "conn_le x y \<longleftrightarrow> conn_id y = conn_id x \<and> client_fd y = client_fd x \<and> local_addr y = local_addr x
     \<and> peer_addr y = peer_addr x \<and> c_state x \<le> c_state y"

lemma conn_le_refl [simp]: "conn_le x x"
  by (simp add: conn_le_def)

lemma conn_le_trans: "conn_le x y \<Longrightarrow> conn_le y z \<Longrightarrow> conn_le x z"
  by (auto simp: conn_le_def)

section \<open>Outcomes related to where they started\<close>

definition after :: "('w \<Rightarrow> 'w \<Rightarrow> bool) \<Rightarrow> 'w \<Rightarrow> 'w res \<Rightarrow> bool" where
  "after R w m \<longleftrightarrow> (\<forall>w'. m = Inr w' \<longrightarrow> R w w')"

lemma after_simps [simp]:
  "after R w (Inl e)" "after R w (Inr w') \<longleftrightarrow> R w w'"
  by (simp_all add: after_def)

lemma afterD: "after R w m \<Longrightarrow> m = Inr w' \<Longrightarrow> R w w'"
  by (simp add: after_def)

lemma after_read: "(\<And>x. m = Inr x \<Longrightarrow> after R w (k x)) \<Longrightarrow> after R w (bindR m k)"
  by (cases m) simp_all

locale evolution =
  fixes R :: "'w \<Rightarrow> 'w \<Rightarrow> bool"
  assumes R_refl [simp]: "R w w" and R_trans: "R u v \<Longrightarrow> R v w \<Longrightarrow> R u w"
begin

lemma after_from: "R w w1 \<Longrightarrow> after R w1 m \<Longrightarrow> after R w m"
  by (auto simp: after_def intro: R_trans)

lemma after_bind:
  "after R w m \<Longrightarrow> (\<And>w1. m = Inr w1 \<Longrightarrow> after R w1 (k w1)) \<Longrightarrow> after R w (bindR m k)"
  by (cases m) (auto intro: after_from)

lemma after_foldR: "(\<And>x v. after R v (f x v)) \<Longrightarrow> after R w (foldR f xs w)"
  by (induction xs arbitrary: w) (auto intro: after_bind)

end

section \<open>Operations without callbacks\<close>

locale conn_evolution = evolution R
  for R :: "('cb, 'z) conn_world_scheme \<Rightarrow> ('cb, 'z) conn_world_scheme \<Rightarrow> bool" +
  assumes R_hist [simp]: "R w (w\<lparr>hist := h\<rparr>)"
    and R_cached_tid [simp]: "R w (w\<lparr>cached_tid := t\<rparr>)"
    and R_loop_tid [simp]: "R w (w\<lparr>loop_tid := t\<rparr>)"
    and R_to_do_list [simp]: "R w (w\<lparr>to_do_list := ts\<rparr>)"
    and R_wakeup_channel [simp]: "R w (w\<lparr>wakeup_channel := ch\<rparr>)"
    and R_advance [simp]: "conns w c = Some x \<Longrightarrow> conn_le x y \<Longrightarrow> R w (put_conn c y w)"
    and R_destroy: "R w (w\<lparr>conns := (conns w)(c := None)\<rparr>)"
    and R_create: "c_state x = CONNECTING \<Longrightarrow>
      R w ((put_conn (next_ref w) x w)\<lparr>next_ref := Suc (next_ref w)\<rparr>)"
begin

lemma deref_InrD: "deref c w = Inr x \<Longrightarrow> conns w c = Some x"
  by (simp add: deref_def split: option.splits)

lemma after_deref: "(\<And>x. conns w c = Some x \<Longrightarrow> after R w (k x)) \<Longrightarrow> after R w (bindR (deref c w) k)"
  by (rule after_read) (blast dest: deref_InrD)

lemma R_sysw: "sysw E s w = (r, w1) \<Longrightarrow> R w w1"
  by (auto simp: sysw_simp)

lemma R_snd_sysw [simp]: "R w (snd (sysw E s w))"
  by (simp add: sysw_simp)

lemma R_hist_put:
  assumes "conns w c = Some x" and "conn_le x y"
  shows "R w (put_conn c y (w\<lparr>hist := h\<rparr>))"
proof -
  have "R (w\<lparr>hist := h\<rparr>) (put_conn c y (w\<lparr>hist := h\<rparr>))"
    by (rule R_advance [where x = x]) (use assms in simp_all)
  then show ?thesis by (rule R_trans [OF R_hist])
qed

lemma modify_R: "(\<And>x. conns w c = Some x \<Longrightarrow> conn_le x (f x)) \<Longrightarrow> after R w (modify c f w)"
  unfolding modify_def by (rule after_deref) (simp add: R_advance)

text \<open>Taking something from the input buffer and going on with it.\<close>

lemma after_consume:
  assumes "\<And>m v. after R v (k m v)"
  shows "after R w (bindR (deref c w) (\<lambda>x. bindR (get (input_buffer x)) (\<lambda>(m, buf).
      let w1 = put_conn c (x\<lparr>input_buffer := buf\<rparr>) w in k m w1)))"
proof (rule after_deref, rule after_read, clarify)
  fix x m buf
  assume "conns w c = Some x"
  then have "R w (put_conn c (x\<lparr>input_buffer := buf\<rparr>) w)" by (simp add: conn_le_def)
  then show "after R w (let w1 = put_conn c (x\<lparr>input_buffer := buf\<rparr>) w in k m w1)"
    unfolding Let_def by (rule after_from) (rule assms)
qed

lemma Epoll_update_channel_R: "Epoll_update_channel E p ch w = (ch', w1) \<Longrightarrow> \<exists>h. w1 = w\<lparr>hist := h\<rparr>"
  by (auto simp: Epoll_update_channel_def sysw_simp Let_def split: if_splits)

lemma with_channel_R:
  assumes "\<And>ch ch' w1. f ch w = (ch', w1) \<Longrightarrow> \<exists>h. w1 = w\<lparr>hist := h\<rparr>"
  shows "after R w (with_channel c f w)"
  unfolding with_channel_def
proof (rule after_deref)
  fix x
  assume x: "conns w c = Some x"
  obtain ch' w1 where f: "f (c_channel x) w = (ch', w1)" by fastforce
  then obtain h where "w1 = w\<lparr>hist := h\<rparr>" using assms by blast
  with f x show "after R w (let (ch, w1) = f (c_channel x) w in Inr (put_conn c (x\<lparr>c_channel := ch\<rparr>) w1))"
    by (simp add: R_hist_put conn_le_def)
qed

lemma Connection_destroy_R: "after R w (Connection_destroy E c w)"
  unfolding Connection_destroy_def
proof (rule after_deref)
  fix x
  let ?h = "(Sys_close (client_fd x), kern E (hist w) (Sys_close (client_fd x))) # hist w"
  have "R w (w\<lparr>hist := ?h, conns := (conns w)(c := None)\<rparr>)"
    using R_trans [OF R_hist R_destroy [of "w\<lparr>hist := ?h\<rparr>" c]] by simp
  then show "after R w (let (_, w1) = sysw E (Sys_close (client_fd x)) w
      in Inr (w1\<lparr>conns := (conns w1)(c := None)\<rparr>))"
    by (simp add: sysw_simp)
qed

lemma shared_copy_R: "after R w (shared_copy c w)"
  unfolding shared_copy_def by (rule modify_R) (simp add: conn_le_def)

lemma shared_drop_R: "after R w (shared_drop E c w)"
  unfolding shared_drop_def
  by (rule after_deref) (simp add: Connection_destroy_R R_advance conn_le_def)

lemma holding_R: "(\<And>v. after R v (body v)) \<Longrightarrow> after R w (holding E c body w)"
  unfolding holding_def by (intro after_bind shared_copy_R shared_drop_R)

lemma set_handles_R:
  "after R w (set_conn_handle c cb w)" "after R w (set_message_handle c cb w)"
  "after R w (set_close_handle c ccb w)" "after R w (set_close_notice c n w)"
  unfolding set_conn_handle_def set_message_handle_def set_close_handle_def set_close_notice_def
  by (rule modify_R; simp add: conn_le_def)+

lemma set_nonblocking_R: "after R w (set_nonblocking E c w)"
  unfolding set_nonblocking_def by (rule after_deref) (simp add: sysw_simp)

lemma ConnectionConstructor_R: "after R w (ConnectionConstructor E c w)"
  unfolding ConnectionConstructor_def
proof (rule after_deref, intro after_bind after_deref)
  fix x
  assume x: "conns w c = Some x"
  have "after R v (with_channel c (disableAll E (Chan_conn c)) v)" for v
    by (rule with_channel_R) (simp add: disableAll_def Epoll_update_channel_R)
  moreover have "R w (put_conn c (x\<lparr>c_state := DISCONNECTED\<rparr>) w)"
    using x by (simp add: conn_le_def)
  ultimately show "after R w (if c_state x = CONNECTED
      then with_channel c (disableAll E (Chan_conn c)) (put_conn c (x\<lparr>c_state := DISCONNECTED\<rparr>) w)
      else Inr w)"
    by (simp add: after_from)
qed (simp add: Epoll_delete_channel_def)

lemma current_tid_R: "current_tid E w = (t, w1) \<Longrightarrow> R w w1"
  by (auto simp: current_tid_def cacheTid_def sysw_simp Let_def split: if_splits
      intro: R_trans [OF R_hist R_cached_tid])

lemma wakeup_loop_R [simp]: "R w (wakeup_loop E w)"
  by (simp add: wakeup_loop_def)

lemma run_on_onwer_thread_R: "(\<And>v. after R v (body v)) \<Longrightarrow> after R w (run_on_onwer_thread E t body w)"
  unfolding run_on_onwer_thread_def isInEpollLoop_def
proof (cases "current_tid E w")
  case (Pair tid w1)
  assume body: "\<And>v. after R v (body v)"
  have "R w1 (wakeup_loop E (add_to_do t w1))"
    unfolding add_to_do_def by (rule R_trans [OF R_to_do_list wakeup_loop_R])
  with body have "after R w1 (if loop_tid w1 = tid then body w1 else Inr (wakeup_loop E (add_to_do t w1)))"
    by simp
  then show "after R w (let (here, w1) = let (t, w1) = current_tid E w in (loop_tid w1 = t, w1)
      in if here then body w1 else Inr (wakeup_loop E (add_to_do t w1)))"
    using Pair by (simp add: after_from [OF current_tid_R])
qed

lemma run_bound_R: "(\<And>v. after R v (body v)) \<Longrightarrow> after R w (run_bound E c t body w)"
  unfolding run_bound_def by (intro after_bind shared_copy_R run_on_onwer_thread_R shared_drop_R)

lemma handle_event_guard_R:
  "(\<And>cb v. after R v (run cb v)) \<Longrightarrow> after R w (handle_event_guard get run w)"
  unfolding handle_event_guard_def
  by (intro after_read after_bind) (auto split: option.splits intro: after_read)

lemma do_after_handle_events_R:
  "(\<And>t v. after R v (run_task t v)) \<Longrightarrow> after R w (do_after_handle_events run_task w)"
  unfolding do_after_handle_events_def by (rule after_from [OF R_to_do_list after_foldR])

lemma loop_turn_R:
  assumes set_revs: "\<And>p ev v. after R v (set_revs p ev v)" and handle: "\<And>p v. after R v (handle p v)"
    and task: "\<And>t v. after R v (run_task t v)"
  shows "after R w (loop_turn E set_revs handle run_task w)"
  unfolding loop_turn_def
proof (rule after_read)
  fix r
  assume poll: "Epoll_poll E set_revs w = Inr r"
  obtain ps w1 where r: "r = (ps, w1)" by fastforce
  obtain h evs where fold: "foldR (\<lambda>(p, ev). set_revs p ev) evs (w\<lparr>hist := h\<rparr>) = Inr w1"
    using poll r by (auto simp: Epoll_poll_def sysw_simp Let_def bindR_eq_Inr)
  have "after R (w\<lparr>hist := h\<rparr>) (foldR (\<lambda>(p, ev). set_revs p ev) evs (w\<lparr>hist := h\<rparr>))"
    by (rule after_foldR) (auto intro: set_revs)
  then have "R w w1" using fold R_trans [OF R_hist] by (blast dest: afterD)
  then show "after R w (case r of (ps, w1) \<Rightarrow> if ps = [] then Inr w1
      else bindR (foldR handle ps w1) (do_after_handle_events run_task))"
    unfolding r by (auto intro!: after_from [of w w1] after_bind after_foldR handle
        do_after_handle_events_R task)
qed

lemma Connection_new_R:
  assumes "Connection_new E f l p w = (c, w1)"
  shows "R w w1" and "\<exists>x. conns w1 c = Some x \<and> c_state x = CONNECTING"
proof -
  obtain x h where "w1 = put_conn (next_ref w) x (w\<lparr>next_ref := Suc (next_ref w), hist := h\<rparr>)"
      "c = next_ref w" "blank_conn f x"
    by (rule Connection_new_blank [of E f l p w]) (use assms in auto)
  then have w1: "w1 = (put_conn (next_ref w) x (w\<lparr>hist := h\<rparr>))\<lparr>next_ref := Suc (next_ref w)\<rparr>"
    and c: "c = next_ref w" and x: "c_state x = CONNECTING"
    by (simp_all add: put_conn_def blank_conn_def)
  then have "R (w\<lparr>hist := h\<rparr>) w1" using R_create [of x "w\<lparr>hist := h\<rparr>"] by simp
  then show "R w w1" by (rule R_trans [OF R_hist])
  show "\<exists>x. conns w1 c = Some x \<and> c_state x = CONNECTING" using w1 c x by simp
qed

end

section \<open>Operations that run callbacks\<close>

locale hooks_evolution = conn_evolution R
  for R :: "('cb, 'z) conn_world_scheme \<Rightarrow> ('cb, 'z) conn_world_scheme \<Rightarrow> bool" +
  fixes H :: "('cb, ('cb, 'z) conn_world_scheme) hooks"
  assumes run_cb_R: "after R w (run_cb H cb a w)"
    and run_close_R: "after R w (run_close H ccb c w)"
begin

lemma handle_conn_R: "after R w (handle_conn E H c w)"
  unfolding handle_conn_def
  by (rule after_deref) (auto split: option.splits intro: holding_R run_cb_R)

lemma handle_message_R: "after R w (handle_message E H c w)"
  unfolding handle_message_def
  by (rule after_deref) (auto split: option.splits intro: holding_R run_cb_R)

lemma ConnectionEstablished_R:
  assumes "\<And>x. conns w c = Some x \<Longrightarrow> c_state x \<le> CONNECTED"
  shows "after R w (ConnectionEstablished E H c w)"
  unfolding ConnectionEstablished_def
proof (intro after_bind)
  show "after R w (with_channel c (\<lambda>ch w1. enableRead E (Chan_conn c) (set_tie c ch) w1) w)"
    by (rule with_channel_R) (auto simp: enableRead_def intro: Epoll_update_channel_R)
next
  fix w1
  assume "with_channel c (\<lambda>ch w1. enableRead E (Chan_conn c) (set_tie c ch) w1) w = Inr w1"
  then obtain x y where "conns w c = Some x" "conns w1 c = Some y" "c_state y = c_state x"
    by (auto simp: with_channel_def bindR_eq_Inr enableRead_def Let_def Epoll_update_channel_def
        sysw_simp deref_def split: if_splits option.splits)
  then show "after R w1 (modify c (\<lambda>x. x\<lparr>c_state := CONNECTED\<rparr>) w1)"
    using assms by (simp add: conn_le_def)
qed (rule handle_conn_R)

lemma handle_close_R: "after R w (handle_close E H c w)"
  unfolding handle_close_def
  by (rule after_deref)
     (auto split: option.split simp: conn_le_def
       intro!: after_bind after_deref holding_R run_cb_R run_close_R modify_R)

lemma force_close_R: "after R w (force_close E H c w)"
  unfolding force_close_def
proof (rule after_deref)
  fix x
  assume x: "conns w c = Some x"
  let ?w = "put_conn c (x\<lparr>c_state := DISCONNECTING\<rparr>) w"
  have "c_state x = CONNECTED \<or> c_state x = DISCONNECTING \<Longrightarrow> R w ?w"
    using x by (auto simp: conn_le_def)
  then show "after R w (if c_state x = CONNECTED \<or> c_state x = DISCONNECTING
      then run_on_onwer_thread E (Task_handle_close c) (handle_close E H c) ?w else Inr w)"
    using after_from [OF _ run_on_onwer_thread_R [OF handle_close_R]] by simp
qed

lemma notice_close_R: "after R w (notice_close H c w)"
  unfolding notice_close_def by (rule after_deref) (auto split: option.splits intro: run_cb_R)

lemma ReadNonBlocking_R: "after R w (ReadNonBlocking E H n c w)"
proof (induction n arbitrary: w)
  case (Suc n)
  show ?case
    unfolding ReadNonBlocking.simps sysw_simp
    by (rule after_deref)
       (auto simp: conn_le_def Let_def
         intro!: after_read after_from [OF R_hist_put Suc] after_from [OF R_hist Suc]
           after_from [OF R_hist handle_close_R])
qed simp

lemma write_loop_R: "after R w (write_loop E H n c bs left w)"
proof (induction n arbitrary: w left)
  case (Suc n)
  show ?case
    unfolding write_loop.simps sysw_simp
    by (auto simp: Let_def
         intro!: after_deref after_from [OF R_hist Suc] after_from [OF R_hist handle_close_R])
qed simp

lemma WriteNonBlocking_R: "after R w (WriteNonBlocking E H c w)"
  unfolding WriteNonBlocking_def
  by (rule after_deref, rule after_read)
     (auto simp: conn_le_def intro!: after_from [OF R_advance write_loop_R])

lemma Send_R: "after R w (Send E H c m w)"
  unfolding Send_def
  by (rule after_deref, rule after_read)
     (auto simp: conn_le_def intro!: after_from [OF R_advance WriteNonBlocking_R])

lemma relay_R: "after R w (relay E H p c w)"
  unfolding relay_def
  by (rule holding_R, rule after_deref, rule after_read)
     (auto simp: conn_le_def intro!: after_from [OF R_advance Send_R])

lemma conn_channel_cb_R: "after R w (conn_channel_cb E H c cb w)"
  by (cases cb)
     (auto simp: conn_channel_cb_def handle_data_in_def handle_data_out_def
       intro: after_bind ReadNonBlocking_R handle_message_R WriteNonBlocking_R)

lemma conn_handle_event_R: "after R w (conn_handle_event E H c w)"
  unfolding conn_handle_event_def
  by (rule after_deref)
     (auto simp: Let_def split: option.splits intro: handle_event_guard_R conn_channel_cb_R holding_R)

end

section \<open>Connections only advance\<close>

text \<open>
  References are handed out once: a connection that is live after was live before with the same
  socket and in an earlier state, or is newer than everything before. That is the smallest preorder
  a program can name.
\<close>

definition refs_fresh :: "('cb, 'z) conn_world_scheme \<Rightarrow> bool" where
  "refs_fresh w \<longleftrightarrow> (\<forall>c. next_ref w \<le> c \<longrightarrow> conns w c = None)"

definition conns_evolve :: "('cb, 'z) conn_world_scheme \<Rightarrow> ('cb, 'z) conn_world_scheme \<Rightarrow> bool" where
  "conns_evolve w w' \<longleftrightarrow> next_ref w \<le> next_ref w' \<and> (refs_fresh w \<longrightarrow> refs_fresh w')
     \<and> (\<forall>c y. c < next_ref w \<longrightarrow> conns w' c = Some y \<longrightarrow> (\<exists>x. conns w c = Some x \<and> conn_le x y))"

lemma conns_evolveI:
  assumes "next_ref w \<le> next_ref w'" and "refs_fresh w \<Longrightarrow> refs_fresh w'"
    and "\<And>c y. c < next_ref w \<Longrightarrow> conns w' c = Some y \<Longrightarrow> \<exists>x. conns w c = Some x \<and> conn_le x y"
  shows "conns_evolve w w'"
  using assms by (simp add: conns_evolve_def)

lemma conns_evolve_same: "conns w' = conns w \<Longrightarrow> next_ref w' = next_ref w \<Longrightarrow> conns_evolve w w'"
  by (simp add: conns_evolve_def refs_fresh_def)

interpretation evolving: conn_evolution conns_evolve
proof
  fix u v w :: "('cb, 'z) conn_world_scheme"
  assume uv: "conns_evolve u v" and vw: "conns_evolve v w"
  show "conns_evolve u w"
  proof (rule conns_evolveI)
    fix c z
    assume "c < next_ref u" "conns w c = Some z"
    moreover from this uv have "c < next_ref v" by (simp add: conns_evolve_def)
    ultimately obtain y where "conns v c = Some y" "conn_le y z" using vw by (auto simp: conns_evolve_def)
    moreover from this \<open>c < next_ref u\<close> obtain x where "conns u c = Some x" "conn_le x y"
      using uv by (auto simp: conns_evolve_def)
    ultimately show "\<exists>x. conns u c = Some x \<and> conn_le x z" using conn_le_trans by blast
  qed (use uv vw in \<open>auto simp: conns_evolve_def\<close>)
next
  fix w :: "('cb, 'z) conn_world_scheme" and c and x y :: "'cb connection"
  assume "conns w c = Some x" "conn_le x y"
  then show "conns_evolve w (put_conn c y w)"
    by (intro conns_evolveI) (auto simp: refs_fresh_def split: if_splits)
next
  fix w :: "('cb, 'z) conn_world_scheme" and c
  show "conns_evolve w (w\<lparr>conns := (conns w)(c := None)\<rparr>)"
    by (intro conns_evolveI) (auto simp: refs_fresh_def split: if_splits)
next
  fix w :: "('cb, 'z) conn_world_scheme" and x :: "'cb connection"
  show "conns_evolve w ((put_conn (next_ref w) x w)\<lparr>next_ref := Suc (next_ref w)\<rparr>)"
    by (intro conns_evolveI) (auto simp: refs_fresh_def put_conn_def split: if_splits)
qed (simp_all add: conns_evolve_same)

end
