(* ===== verification/ServerEvolution.thy ===== *)
theory ServerEvolution
  imports Server Evolution
begin

text \<open>
  The same for a process with servers (\<^verbatim>\<open>Server\<close>, \<^verbatim>\<open>Acceptor\<close>): a preorder that also allows every
  change of the servers is respected by a whole turn of the loop, when the callbacks respect it.
\<close>

section \<open>Operations without callbacks\<close>

locale server_frame = conn_evolution R
  for R :: "('cb, 'z) srv_world_scheme \<Rightarrow> ('cb, 'z) srv_world_scheme \<Rightarrow> bool" +
  assumes R_servers [simp]: "R w (w\<lparr>servers := ss\<rparr>)"
    and R_next_server [simp]: "R w (w\<lparr>next_server := n\<rparr>)"
begin

lemma R_put_server [simp]: "R w (put_server s x w)"
  by (simp add: put_server_def)

lemma modify_server_R: "after R w (modify_server s f w)"
  unfolding modify_server_def by (rule after_read) simp

lemma table_insert_R: "after R w (table_insert E s i c w)"
  unfolding table_insert_def
  by (rule after_read)
     (simp add: Let_def after_from [OF R_put_server shared_drop_R] split: option.split)

lemma table_erase_R: "after R w (table_erase E s i w)"
  unfolding table_erase_def
  by (rule after_read) (simp add: after_from [OF R_put_server shared_drop_R] split: option.split)

lemma disconnectHandleInLoop_R: "after R w (disconnectHandleInLoop E s c w)"
  unfolding disconnectHandleInLoop_def
  by (intro after_deref after_bind table_erase_R run_bound_R ConnectionConstructor_R)

lemma disconnectHandle_R: "after R w (disconnectHandle E s c w)"
  unfolding disconnectHandle_def
  by (rule after_bind) (auto intro: run_bound_R disconnectHandleInLoop_R)

lemma srv_run_close_R: "after R w (srv_run_close E cb c w)"
  by (cases cb) (simp_all add: srv_run_close_def disconnectHandle_R)

lemma srv_set_revs_R: "after R w (srv_set_revs p ev w)"
  by (cases p) (simp_all add: srv_set_revs_def modify_server_R modify_R conn_le_def)

lemma Acceptor_new_R:
  assumes "Acceptor_new E s addr backlog w = Inr (sk, ch, w1)"
  obtains h where "w1 = w\<lparr>hist := h\<rparr>"
proof -
  have "\<exists>h. w1 = w\<lparr>hist := h\<rparr>"
    using assms by (auto simp: Acceptor_new_def bindR_eq_Inr Let_def set_read_callback_def
        enableRead_def set_et_def Channel_new_def Epoll_update_channel_def sysw_simp)
  with that show ?thesis by blast
qed

lemma Server_new_R:
  assumes "Server_new E addr backlog w = Inr (s, w1)"
  shows "R w w1"
proof -
  obtain x h where w1: "w1 = (put_server s x (w\<lparr>hist := h\<rparr>))\<lparr>next_server := Suc s\<rparr>"
    using assms by (auto simp: Server_new_def bindR_eq_Inr Let_def elim!: Acceptor_new_R)
  show ?thesis
    unfolding w1 by (rule R_trans [OF R_trans [OF R_hist R_put_server] R_next_server])
qed

lemma Server_destroy_R: "after R w (Server_destroy E s w)"
  unfolding Server_destroy_def
proof (intro after_bind after_read)
  fix x w1
  show "after R w (foldR (\<lambda>(_, c). shared_drop E c) (connections x) w)"
    by (rule after_foldR) (auto intro: shared_drop_R)
  show "after R w1 (Inr (w1\<lparr>hist := TcpSocket_destroy E (sock x) (hist w1), servers := (servers w1)(s := None)\<rparr>))"
    using R_trans [OF R_hist R_servers] by simp
qed

end

section \<open>Operations that run callbacks\<close>

locale server_evolution = server_frame R + hooks_evolution R H
  for R :: "('cb, 'z) srv_world_scheme \<Rightarrow> ('cb, 'z) srv_world_scheme \<Rightarrow> bool"
    and H :: "('cb, ('cb, 'z) srv_world_scheme) hooks"
begin

lemma newConnectionHandle_R: "after R w (newConnectionHandle E H s f w)"
proof -
  obtain l h1 where l: "getLocalAddr E f (hist w) = (l, h1)" by fastforce
  obtain p h2 where p: "getPeerAddr E f h1 = (p, h2)" by fastforce
  obtain c w1 where c: "Connection_new E f l p (w\<lparr>hist := h2\<rparr>) = (c, w1)" by fastforce
  have w1: "R w w1" by (rule R_trans [OF R_hist Connection_new_R(1) [OF c]])
  obtain x where x: "conns w1 c = Some x" "c_state x = CONNECTING"
    using Connection_new_R(2) [OF c] by blast
  have "after R w1 (bindR (set_nonblocking E c w1) (\<lambda>w2.
      bindR (the_server s w2) (\<lambda>x.
      bindR (set_conn_handle c (s_on_connect x) w2) (\<lambda>w3.
      bindR (set_message_handle c (s_on_message x) w3) (\<lambda>w4.
      bindR (set_close_handle c (Cb_disconnectHandle s) w4) (\<lambda>w5.
      bindR (ConnectionEstablished E H c w5) (\<lambda>w6.
      bindR (deref c w6) (\<lambda>y. table_insert E s (conn_id y) c w6))))))))"
  proof (intro after_bind after_read set_nonblocking_R set_handles_R table_insert_R)
    fix w2 sv w3 w4 w5
    assume "set_nonblocking E c w1 = Inr w2" "set_conn_handle c (s_on_connect sv) w2 = Inr w3"
      "set_message_handle c (s_on_message sv) w3 = Inr w4"
      "set_close_handle c (Cb_disconnectHandle s) w4 = Inr w5"
    then have "\<exists>y. conns w5 c = Some y \<and> c_state y = CONNECTING"
      using x by (auto simp: set_nonblocking_def sysw_simp set_conn_handle_def set_message_handle_def
          set_close_handle_def)
    then show "after R w5 (ConnectionEstablished E H c w5)"
      by (auto intro: ConnectionEstablished_R)
  qed
  then show ?thesis
    using w1 by (simp add: newConnectionHandle_def l p c after_from)
qed

lemma acceptNewConnection_R: "after R w (acceptNewConnection E H s w)"
  unfolding acceptNewConnection_def
  by (rule after_read) (auto split: prod.splits intro: after_from [OF R_hist newConnectionHandle_R])

lemma srv_handle_event_R: "after R w (srv_handle_event E H p w)"
  by (cases p)
     (auto simp: srv_handle_event_def wakeup_callback_def
       intro!: conn_handle_event_R handle_event_guard_R acceptNewConnection_R)

lemma srv_run_task_R: "after R w (srv_run_task E H t w)"
  by (cases t)
     (auto simp: srv_run_task_def
       intro: after_bind handle_close_R ConnectionConstructor_R disconnectHandleInLoop_R shared_drop_R)

lemma srv_loop_turn_R:
  "after R w (loop_turn E srv_set_revs (srv_handle_event E H) (srv_run_task E H) w)"
  by (intro loop_turn_R srv_set_revs_R srv_handle_event_R srv_run_task_R)

end

text \<open>Connections advance while servers come and go.\<close>

interpretation advancing: server_frame conns_evolve
  by unfold_locales (simp_all add: conns_evolve_same)

end
