(* ===== verification/ServerInvariant.thy ===== *)
theory ServerInvariant
  imports NcxServer ServerEvolution
begin

text \<open>
  What every turn of the tunnel server keeps, whatever the kernel answers, whatever peers send and
  however deep callbacks nest: connections only advance, and the tables of tunnels and bridges stay
  consistent, with exact reference counts of the bridge closers.
\<close>

section \<open>The steps of a data channel Hello\<close>

lemma data_channel_hello_steps [consumes 1]:
  assumes "handle_data_channel_hello E H c nonce w = Inr w'"
  obtains k v w1 w2 w3 b w4 x w6 w7 w8 w9 y w10 w11 where
    "map_of (sc_map w) nonce = Some k"
    and "pop_visitor k w = Inr (v, w1)"
    and "set_message_handle v (Some (Cb_forward c)) w1 = Inr w2"
    and "set_message_handle c (Some (Cb_forward v)) w2 = Inr w3"
    and "BridgeCloser_new E v c w3 = (b, w4)"
    and "bridges w4 b = Some x"
    and "set_close_notice v (Cb_cut_bridge b) (put_bridge b (x\<lparr>delete_bridge := Some k\<rparr>) w4) = Inr w6"
    and "set_close_notice c (Cb_cut_bridge b) w6 = Inr w7"
    and "register_bridge_closer k (bridge_id x) b w7 = Inr w8"
    and "Send E H c (framed_DataChannelCmd (wire E) (set_data_channel_cmd START_FORWARD_TCP DataChannelCmd_new)) w8
      = Inr w9"
    and "conns w9 v = Some y"
    and "(if 0 < readAbleBytes (input_buffer y) then handle_message E H v w9 else Inr w9) = Inr w10"
    and "bridge_drop E H b w10 = Inr w11"
    and "shared_drop E v w11 = Inr w'"
proof (cases "map_of (sc_map w) nonce")
  case (Some k)
  have 1: "the_bridge b w4 = Inr x \<Longrightarrow> bridges w4 b = Some x" for b w4 x
    by (simp add: the_bridge_def split: option.splits)
  have 2: "deref v w9 = Inr y \<Longrightarrow> conns w9 v = Some y" for v w9 and y :: "srv_cb connection"
    by (simp add: deref_def split: option.splits)
  let ?new = "\<lambda>v w3. BridgeCloser_new E v c w3"
  from assms Some obtain v w1 w2 w3 x w6 w7 w8 w9 y w10 w11 where
    "pop_visitor k w = Inr (v, w1)"
    "set_message_handle v (Some (Cb_forward c)) w1 = Inr w2"
    "set_message_handle c (Some (Cb_forward v)) w2 = Inr w3"
    "the_bridge (fst (?new v w3)) (snd (?new v w3)) = Inr x"
    "set_close_notice v (Cb_cut_bridge (fst (?new v w3)))
       (put_bridge (fst (?new v w3)) (x\<lparr>delete_bridge := Some k\<rparr>) (snd (?new v w3))) = Inr w6"
    "set_close_notice c (Cb_cut_bridge (fst (?new v w3))) w6 = Inr w7"
    "register_bridge_closer k (bridge_id x) (fst (?new v w3)) w7 = Inr w8"
    "Send E H c (framed_DataChannelCmd (wire E) (set_data_channel_cmd START_FORWARD_TCP DataChannelCmd_new)) w8
      = Inr w9"
    "deref v w9 = Inr y"
    "(if 0 < readAbleBytes (input_buffer y) then handle_message E H v w9 else Inr w9) = Inr w10"
    "bridge_drop E H (fst (?new v w3)) w10 = Inr w11" "shared_drop E v w11 = Inr w'"
    unfolding handle_data_channel_hello_def Let_def split_def
    by (auto simp only: bindR_eq_Inr option.case fst_conv snd_conv split_paired_Ex)
  then show ?thesis
    by (intro that [of k v w1 w2 w3 "fst (?new v w3)" "snd (?new v w3)" x])
       (assumption | rule Some surjective_pairing | erule 1 2)+
qed (use assms in \<open>simp add: handle_data_channel_hello_def\<close>)

section \<open>Connections of the tunnel server\<close>

locale nserver_evolution = server_evolution R H
  for R :: "NServer \<Rightarrow> NServer \<Rightarrow> bool" and H :: srv_hooks +
  assumes R_sc_map [simp]: "R w (w\<lparr>sc_map := m\<rparr>)"
    and R_scs [simp]: "R w (w\<lparr>scs := f\<rparr>)" and R_next_sc [simp]: "R w (w\<lparr>next_sc := k\<rparr>)"
    and R_bridges [simp]: "R w (w\<lparr>bridges := g\<rparr>)" and R_next_bridge [simp]: "R w (w\<lparr>next_bridge := b\<rparr>)"
begin

lemma R_puts [simp]: "R w (put_sc k x w)" "R w (put_bridge b y w)"
  by (simp_all add: put_sc_def put_bridge_def)

lemma lock_force_close_R: "after R w (lock_force_close E H c w)"
  by (simp add: lock_force_close_def holding_R force_close_R)

lemma BridgeCloser_destroy_R: "after R w (BridgeCloser_destroy E H b w)"
  unfolding BridgeCloser_destroy_def
  by (intro after_bind after_read lock_force_close_R after_from [OF R_bridges lock_force_close_R])

lemma bridge_drop_R: "after R w (bridge_drop E H b w)"
  unfolding bridge_drop_def by (rule after_read) (simp add: BridgeCloser_destroy_R)

lemma SControlChannel_new_R:
  assumes "SControlChannel_new E c addr backlog w = Inr (k, w')"
  shows "R w w'"
proof -
  obtain w1 s w2 w3 y where "shared_copy c w = Inr w1" "Server_new E addr backlog w1 = Inr (s, w2)"
      "bind_on_connect s (Cb_handle_new_outside k) w2 = Inr w3"
      and w': "w' = (put_sc k y w3)\<lparr>next_sc := Suc k\<rparr>"
    using assms by (auto simp: SControlChannel_new_def bindR_eq_Inr Let_def)
  then have "R w w1" "R w1 w2" "R w2 w3"
    using shared_copy_R Server_new_R modify_server_R unfolding bind_on_connect_def by (blast dest: afterD)+
  moreover have "R w3 w'" unfolding w' by (rule R_trans [OF R_puts(1) R_next_sc])
  ultimately show ?thesis by (blast intro: R_trans)
qed

lemma SControlChannel_destroy_R: "after R w (SControlChannel_destroy E H k w)"
  unfolding SControlChannel_destroy_def
  by (intro after_bind after_read after_foldR bridge_drop_R shared_drop_R Server_destroy_R)
     (simp_all add: split_def bridge_drop_R)

lemma handle_new_outside_connection_R: "after R w (handle_new_outside_connection E H k c w)"
  unfolding handle_new_outside_connection_def Let_def
  by (intro after_bind after_read shared_copy_R after_from [OF R_puts(1) Send_R])

lemma erase_bridge_closer_R: "after R w (erase_bridge_closer E H k i w)"
  unfolding erase_bridge_closer_def
  by (rule after_read) (simp add: after_from [OF R_puts(1) bridge_drop_R] split: option.split)

lemma cut_off_bridge_R: "after R w (cut_off_bridge E H b w)"
  unfolding cut_off_bridge_def
  by (rule after_read) (simp add: erase_bridge_closer_R split: option.split)

lemma cut_bridge_cb_R: "after R w (cut_bridge_cb E H b w)"
  unfolding cut_bridge_cb_def
  by (auto split: option.split
      intro!: after_bind bridge_drop_R after_from [OF R_puts(2) cut_off_bridge_R])

lemma forward_cb_R: "after R w (forward_cb E H p c w)"
  unfolding forward_cb_def by (rule after_read) (simp add: relay_R)

lemma handle_control_channel_hello_R: "after R w (handle_control_channel_hello E H c name port w)"
proof -
  obtain nonce w1 where n: "GenerateUUIDAsString E w = (nonce, w1)" by fastforce
  then have "R w w1" by (auto simp: GenerateUUIDAsString_def sysw_simp)
  then show ?thesis
    unfolding handle_control_channel_hello_def n Let_def prod.case
    by (intro after_from [of w w1] after_bind Send_R after_read)
       (auto intro: after_from [OF SControlChannel_new_R SControlChannel_destroy_R]
         R_trans [OF SControlChannel_new_R R_sc_map])
qed

lemma pop_visitor_R: "pop_visitor k w = Inr (v, w') \<Longrightarrow> R w w'"
  by (auto simp: pop_visitor_def bindR_eq_Inr neq_Nil_conv split: list.split_asm)

lemma register_bridge_closer_R: "after R w (register_bridge_closer k i b w)"
  unfolding register_bridge_closer_def
  by (intro after_read) (simp add: R_trans [OF R_puts(1) R_puts(2)])

lemma BridgeCloser_new_R: "BridgeCloser_new E v c w = (b, w') \<Longrightarrow> R w w'"
  by (auto simp: BridgeCloser_new_def GenerateUUIDAsString_def sysw_simp Let_def
      intro: R_trans [OF R_trans [OF R_hist R_puts(2)] R_next_bridge])

lemma handle_data_channel_hello_R: "after R w (handle_data_channel_hello E H c nonce w)"
  unfolding after_def
proof (intro allI impI)
  fix w'
  assume "handle_data_channel_hello E H c nonce w = Inr w'"
  then show "R w w'"
  proof (cases rule: data_channel_hello_steps)
    case (1 k v w1 w2 w3 b w4 x w6 w7 w8 w9 y w10 w11)
    have "after R w9 (if 0 < readAbleBytes (input_buffer y) then handle_message E H v w9 else Inr w9)"
      by (simp add: handle_message_R)
    then have "R w9 w10" using 1(12) by (rule afterD)
    show ?thesis
      by (rule pop_visitor_R [OF 1(2), THEN R_trans, OF afterD [OF set_handles_R(2) 1(3)],
            THEN R_trans, OF afterD [OF set_handles_R(2) 1(4)],
            THEN R_trans, OF BridgeCloser_new_R [OF 1(5)], THEN R_trans, OF R_puts(2),
            THEN R_trans, OF afterD [OF set_handles_R(4) 1(7)],
            THEN R_trans, OF afterD [OF set_handles_R(4) 1(8)],
            THEN R_trans, OF afterD [OF register_bridge_closer_R 1(9)],
            THEN R_trans, OF afterD [OF Send_R 1(10)], THEN R_trans, OF \<open>R w9 w10\<close>,
            THEN R_trans, OF afterD [OF bridge_drop_R 1(13)],
            THEN R_trans, OF afterD [OF shared_drop_R 1(14)]])
  qed
qed

lemma handle_new_connection_R: "after R w (handle_new_connection E H c w)"
  unfolding handle_new_connection_def
  by (rule after_consume)
     (simp add: handle_control_channel_hello_R handle_data_channel_hello_R Let_def split: option.split)

text \<open>One more level of nesting: what the closures run when theirs respect the preorder.\<close>

lemma closures_R:
  "after R w (case cb of
      Cb_handle_new_connection \<Rightarrow>
        (case a of Some c \<Rightarrow> handle_new_connection E H c w | None \<Rightarrow> Inl Undefined_Behaviour)
    | Cb_handle_new_outside k \<Rightarrow>
        (case a of Some c \<Rightarrow> handle_new_outside_connection E H k c w | None \<Rightarrow> Inl Undefined_Behaviour)
    | Cb_forward peer \<Rightarrow>
        (case a of Some c \<Rightarrow> forward_cb E H peer c w | None \<Rightarrow> Inl Undefined_Behaviour)
    | Cb_cut_bridge b \<Rightarrow> cut_bridge_cb E H b w)"
  by (simp add: handle_new_connection_R handle_new_outside_connection_R forward_cb_R cut_bridge_cb_R
      split: srv_cb.split option.split)

end

lemma advancing_hooks:
  assumes "\<And>cb a w. after conns_evolve w (srv_run_cb E n cb a w)"
  shows "nserver_evolution conns_evolve (srv_hooks E n)"
  using assms by unfold_locales (simp_all add: conns_evolve_same advancing.srv_run_close_R)

lemma srv_run_cb_advances: "after conns_evolve w (srv_run_cb E n cb a w)"
proof (induction n arbitrary: cb a w)
  case (Suc n)
  show ?case
    using nserver_evolution.closures_R [OF advancing_hooks [OF Suc]]
    by (simp add: srv_hooks_def [symmetric] Let_def)
qed simp

interpretation advancing: nserver_evolution conns_evolve "srv_hooks E n" for E n
  by (rule advancing_hooks) (rule srv_run_cb_advances)

lemma srv_turn_advances: "srv_turn E n w = Inr w' \<Longrightarrow> conns_evolve w w'"
  unfolding srv_turn_def by (rule afterD [OF advancing.srv_loop_turn_R])

section \<open>Tunnels and bridges\<close>

text \<open>The control channel \<open>k\<close> has the bridge closer \<open>b\<close> in its table, under the id \<open>i\<close>.\<close>

definition has_closer :: "NServer \<Rightarrow> nat \<Rightarrow> bytes \<Rightarrow> nat \<Rightarrow> bool" where
  "has_closer w k i b \<longleftrightarrow> (case scs w k of None \<Rightarrow> False | Some x \<Rightarrow> map_of (bridge_closers x) i = Some b)"

definition in_table :: "NServer \<Rightarrow> nat \<Rightarrow> bool" where
  "in_table w b \<longleftrightarrow> (\<exists>k i. has_closer w k i b)"

text \<open>
  The table of tunnels has live control channels only; a control channel's table has live bridge
  closers only, each under its own id and belonging to that channel; and the count of every closer
  is the number of its owners: one for being in a table, and \<open>held b\<close> for the code that is running.
\<close>

definition tunnels_ok :: "(nat \<Rightarrow> nat) \<Rightarrow> NServer \<Rightarrow> bool" where
  "tunnels_ok held w \<longleftrightarrow>
     (\<forall>n k. map_of (sc_map w) n = Some k \<longrightarrow> scs w k \<noteq> None)
     \<and> (\<forall>k. scs w k \<noteq> None \<longrightarrow> k < next_sc w)
     \<and> (\<forall>b. bridges w b \<noteq> None \<longrightarrow> b < next_bridge w)
     \<and> (\<forall>k i b. has_closer w k i b \<longrightarrow>
          (\<exists>y. bridges w b = Some y \<and> bridge_id y = i \<and> delete_bridge y = Some k))
     \<and> (\<forall>b. 0 < held b \<longrightarrow> bridges w b \<noteq> None)
     \<and> (\<forall>b y. bridges w b = Some y \<longrightarrow>
          bc_count y = held b + of_bool (in_table w b) \<and> 0 < bc_count y)"

text \<open>Steps of the running code, which may take or give up ownership of a closer.\<close>

definition owner_step :: "(nat \<Rightarrow> nat) \<Rightarrow> (nat \<Rightarrow> nat) \<Rightarrow> NServer \<Rightarrow> NServer \<Rightarrow> bool" where
  "owner_step held held' w w' \<longleftrightarrow> (tunnels_ok held w \<longrightarrow> tunnels_ok held' w'
     \<and> (\<forall>n k. map_of (sc_map w) n = Some k \<longrightarrow> map_of (sc_map w') n = Some k))"

definition tunnels_step :: "NServer \<Rightarrow> NServer \<Rightarrow> bool" where
  "tunnels_step w w' \<longleftrightarrow> (\<forall>held. owner_step held held w w')"

text \<open>Most of the code leaves the tables alone.\<close>

definition same_tunnels :: "NServer \<Rightarrow> NServer \<Rightarrow> bool" where
  "same_tunnels w w' \<longleftrightarrow> sc_map w' = sc_map w \<and> scs w' = scs w \<and> next_sc w' = next_sc w
     \<and> bridges w' = bridges w \<and> next_bridge w' = next_bridge w"

lemma same_tunnelsD:
  assumes "same_tunnels w w'"
  shows "sc_map w' = sc_map w" and "scs w' = scs w" and "next_sc w' = next_sc w"
    and "bridges w' = bridges w" and "next_bridge w' = next_bridge w"
  using assms by (simp_all add: same_tunnels_def)

interpretation outside: server_frame same_tunnels
  by unfold_locales (auto simp: same_tunnels_def)

lemma tunnels_step_same: "same_tunnels w w' \<Longrightarrow> tunnels_step w w'"
  unfolding tunnels_step_def owner_step_def tunnels_ok_def in_table_def has_closer_def
  by (simp only: same_tunnelsD) blast

lemma owner_trans: "owner_step f g u v \<Longrightarrow> owner_step g h v w \<Longrightarrow> owner_step f h u w"
  by (simp add: owner_step_def)

lemma owner_keep: "tunnels_step w w' \<Longrightarrow> owner_step f f w w'"
  by (simp add: tunnels_step_def)

interpretation tunnels: server_frame tunnels_step
proof
  fix u v w :: NServer
  show "tunnels_step u v \<Longrightarrow> tunnels_step v w \<Longrightarrow> tunnels_step u w"
    unfolding tunnels_step_def by (blast intro: owner_trans)
qed (simp_all add: tunnels_step_same outside.R_create outside.R_destroy)

lemma tunnels_okD:
  assumes "tunnels_ok held w"
  shows "map_of (sc_map w) n = Some k \<Longrightarrow> scs w k \<noteq> None"
    and "scs w k = Some x \<Longrightarrow> k < next_sc w"
    and "bridges w b = Some y \<Longrightarrow> b < next_bridge w"
    and "has_closer w k i b \<Longrightarrow> \<exists>y. bridges w b = Some y \<and> bridge_id y = i \<and> delete_bridge y = Some k"
    and "0 < held b \<Longrightarrow> bridges w b \<noteq> None"
    and "bridges w b = Some y \<Longrightarrow> bc_count y = held b + of_bool (in_table w b)"
    and "bridges w b = Some y \<Longrightarrow> 0 < bc_count y"
  using assms unfolding tunnels_ok_def by blast+

lemma owner_stepI:
  assumes "\<And>n k. map_of (sc_map w) n = Some k \<Longrightarrow> map_of (sc_map w') n = Some k"
    and "\<And>n k. tunnels_ok f w \<Longrightarrow> map_of (sc_map w') n = Some k \<Longrightarrow> scs w' k \<noteq> None"
    and "\<And>k x. tunnels_ok f w \<Longrightarrow> scs w' k = Some x \<Longrightarrow> k < next_sc w'"
    and "\<And>b y. tunnels_ok f w \<Longrightarrow> bridges w' b = Some y \<Longrightarrow> b < next_bridge w'"
    and "\<And>k i b. tunnels_ok f w \<Longrightarrow> has_closer w' k i b \<Longrightarrow>
      \<exists>y. bridges w' b = Some y \<and> bridge_id y = i \<and> delete_bridge y = Some k"
    and "\<And>b. tunnels_ok f w \<Longrightarrow> 0 < g b \<Longrightarrow> bridges w' b \<noteq> None"
    and "\<And>b y. tunnels_ok f w \<Longrightarrow> bridges w' b = Some y \<Longrightarrow>
      bc_count y = g b + of_bool (in_table w' b) \<and> 0 < bc_count y"
  shows "owner_step f g w w'"
  unfolding owner_step_def tunnels_ok_def [of g] using assms by blast

lemma NServer_fields_put [simp]:
  "next_sc (put_sc k x w) = next_sc w" "next_bridge (put_sc k x w) = next_bridge w"
  "next_sc (put_bridge b y w) = next_sc w" "next_bridge (put_bridge b y w) = next_bridge w"
  by (simp_all add: put_sc_def put_bridge_def)

lemma has_closer_simps [simp]:
  "has_closer (put_bridge b' z w) k i b = has_closer w k i b"
  "has_closer (w\<lparr>bridges := f\<rparr>) k i b = has_closer w k i b"
  "has_closer (w\<lparr>next_bridge := m\<rparr>) k i b = has_closer w k i b"
  "has_closer (w\<lparr>next_sc := m\<rparr>) k i b = has_closer w k i b"
  "has_closer (w\<lparr>sc_map := t\<rparr>) k i b = has_closer w k i b"
  "has_closer (put_sc j x w) k i b =
     (if k = j then map_of (bridge_closers x) i = Some b else has_closer w k i b)"
  "has_closer (w\<lparr>scs := (scs w)(j := None)\<rparr>) k i b = (k \<noteq> j \<and> has_closer w k i b)"
  by (simp_all add: has_closer_def put_bridge_def put_sc_def)

lemma in_table_simps [simp]:
  "in_table (put_bridge b' z w) b = in_table w b" "in_table (w\<lparr>bridges := f\<rparr>) b = in_table w b"
  "in_table (w\<lparr>next_bridge := m\<rparr>) b = in_table w b" "in_table (w\<lparr>next_sc := m\<rparr>) b = in_table w b"
  "in_table (w\<lparr>sc_map := t\<rparr>) b = in_table w b"
  by (simp_all add: in_table_def)

lemma in_tableI: "has_closer w k i b \<Longrightarrow> in_table w b"
  by (auto simp: in_table_def)

lemma has_closer_Some: "scs w k = Some x \<Longrightarrow> has_closer w k i b \<longleftrightarrow> map_of (bridge_closers x) i = Some b"
  by (simp add: has_closer_def)

lemma owner_holds:
  assumes b: "bridges w b = Some y"
  shows "owner_step f (f(b := Suc (f b))) w (put_bridge b (y\<lparr>bc_count := bc_count y + 1\<rparr>) w)"
  by (rule owner_stepI) (use b in \<open>auto split: if_splits dest: tunnels_okD\<close>)

lemma owner_drops:
  assumes b: "bridges w b = Some y" and more: "\<not> bc_count y \<le> 1"
  shows "owner_step (f(b := Suc (f b))) f w (put_bridge b (y\<lparr>bc_count := bc_count y - 1\<rparr>) w)"
  by (rule owner_stepI) (use b more in \<open>auto split: if_splits dest: tunnels_okD\<close>)

lemma last_owner_drops:
  assumes b: "bridges w b = Some y" and last: "bc_count y \<le> 1"
  shows "owner_step (f(b := Suc (f b))) f w (w\<lparr>bridges := (bridges w)(b := None)\<rparr>)"
proof -
  have own: "f b = 0 \<and> \<not> in_table w b" if "tunnels_ok (f(b := Suc (f b))) w"
    using tunnels_okD(6) [OF that b] last by (cases "in_table w b") simp_all
  show ?thesis
    by (rule owner_stepI) (auto split: if_splits dest: tunnels_okD own in_tableI)
qed

lemma owner_creates:
  assumes "bc_count y = 1" and "delete_bridge y = None"
  shows "owner_step f (f(next_bridge w := Suc (f (next_bridge w)))) w
    ((put_bridge (next_bridge w) y w)\<lparr>next_bridge := Suc (next_bridge w)\<rparr>)"
proof -
  have "bridges w (next_bridge w) = None" if "tunnels_ok f w"
    using tunnels_okD(3) [OF that] by (cases "bridges w (next_bridge w)") auto
  moreover from this have "f (next_bridge w) = 0 \<and> \<not> in_table w (next_bridge w)" if "tunnels_ok f w"
    using tunnels_okD(4,5) [OF that] that by (fastforce simp: in_table_def)
  ultimately show ?thesis
    by (intro owner_stepI) (use assms in \<open>auto split: if_splits dest: tunnels_okD simp: less_Suc_eq\<close>)
qed

text \<open>What happens to the tables: a closer gets its channel, is entered, is erased.\<close>

lemma closer_assigned:
  assumes b: "bridges w b = Some y" and new: "delete_bridge y = None"
  shows "owner_step f f w (put_bridge b (y\<lparr>delete_bridge := Some k\<rparr>) w)"
proof -
  have "\<not> has_closer w k' i b" if "tunnels_ok f w" for k' i
    using tunnels_okD(4) [OF that] b new by fastforce
  then show ?thesis
    by (intro owner_stepI) (use b in \<open>auto split: if_splits dest: tunnels_okD\<close>)
qed

lemma closer_unique:
  assumes "tunnels_ok f w" and "has_closer w k i b" and "has_closer w k' i' b"
  shows "k' = k \<and> i' = i"
  using tunnels_okD(4) [OF assms(1,2)] tunnels_okD(4) [OF assms(1,3)] by auto

lemma has_closer_inj: "has_closer w k i b \<Longrightarrow> has_closer w k i b' \<Longrightarrow> b' = b"
  by (auto simp: has_closer_def split: option.splits)

lemma closer_entered:
  assumes k: "scs w k = Some x" and b: "bridges w b = Some y"
    and y: "bridge_id y = i" "delete_bridge y = Some k" and free: "map_of (bridge_closers x) i = None"
  shows "owner_step f f w (put_bridge b (y\<lparr>bc_count := bc_count y + 1\<rparr>)
    (put_sc k (x\<lparr>bridge_closers := (i, b) # bridge_closers x\<rparr>) w))"
proof -
  define w' where "w' = put_bridge b (y\<lparr>bc_count := bc_count y + 1\<rparr>)
    (put_sc k (x\<lparr>bridge_closers := (i, b) # bridge_closers x\<rparr>) w)"
  have fields: "sc_map w' = sc_map w" "next_sc w' = next_sc w" "next_bridge w' = next_bridge w"
      "scs w' = (scs w)(k \<mapsto> x\<lparr>bridge_closers := (i, b) # bridge_closers x\<rparr>)"
      "bridges w' = (bridges w)(b \<mapsto> y\<lparr>bc_count := bc_count y + 1\<rparr>)"
    by (simp_all add: w'_def)
  have has: "has_closer w' k' i' b' \<longleftrightarrow> has_closer w k' i' b' \<or> (k' = k \<and> i' = i \<and> b' = b)" for k' i' b'
    using free by (auto simp: w'_def has_closer_Some [OF k])
  have "\<not> in_table w b" if "tunnels_ok f w"
    using tunnels_okD(4) [OF that] b y free by (fastforce simp: in_table_def has_closer_Some [OF k])
  moreover have "in_table w' b' \<longleftrightarrow> in_table w b' \<or> b' = b" for b'
    unfolding in_table_def has by blast
  ultimately have "owner_step f f w w'"
    by (intro owner_stepI) (use k b y in \<open>auto simp: has fields split: if_splits dest: tunnels_okD in_tableI\<close>)
  then show ?thesis unfolding w'_def .
qed

lemma closer_erased:
  assumes k: "scs w k = Some x" and b: "map_of (bridge_closers x) i = Some b"
  shows "owner_step f (f(b := Suc (f b))) w
    (put_sc k (x\<lparr>bridge_closers := AList.delete i (bridge_closers x)\<rparr>) w)"
proof -
  define w' where "w' = put_sc k (x\<lparr>bridge_closers := AList.delete i (bridge_closers x)\<rparr>) w"
  have fields: "sc_map w' = sc_map w" "next_sc w' = next_sc w" "next_bridge w' = next_bridge w"
      "scs w' = (scs w)(k \<mapsto> x\<lparr>bridge_closers := AList.delete i (bridge_closers x)\<rparr>)"
      "bridges w' = bridges w"
    by (simp_all add: w'_def)
  have has: "has_closer w' k' i' b' \<longleftrightarrow> has_closer w k' i' b' \<and> \<not> (k' = k \<and> i' = i)" for k' i' b'
    by (auto simp: w'_def has_closer_Some [OF k] AList.delete_conv')
  have e: "has_closer w k i b" by (simp add: has_closer_Some [OF k] b)
  have in_table: "in_table w' b' \<longleftrightarrow> in_table w b' \<and> b' \<noteq> b" if "tunnels_ok f w" for b'
    unfolding in_table_def has using closer_unique [OF that e] has_closer_inj [OF e] by blast
  have "owner_step f (f(b := Suc (f b))) w w'"
    by (intro owner_stepI)
       (use k e in \<open>auto simp: has fields in_table split: if_splits dest: tunnels_okD in_tableI\<close>)
  then show ?thesis unfolding w'_def .
qed

text \<open>What happens to control channels: a queue changes, one is opened, registered, given up.\<close>

lemma same_closers:
  assumes k: "scs w k = Some x" and same: "bridge_closers x' = bridge_closers x"
  shows "tunnels_step w (put_sc k x' w)"
proof -
  have has: "has_closer (put_sc k x' w) = has_closer w"
    by (auto simp: fun_eq_iff has_closer_Some [OF k] same)
  then have "in_table (put_sc k x' w) = in_table w" by (auto simp: fun_eq_iff in_table_def)
  with has show ?thesis
    unfolding tunnels_step_def
    by (intro allI owner_stepI) (use k in \<open>auto split: if_splits dest: tunnels_okD simp del: has_closer_simps\<close>)
qed

lemma channel_opened:
  assumes new: "bridge_closers x = []"
  shows "tunnels_step w ((put_sc (next_sc w) x w)\<lparr>next_sc := Suc (next_sc w)\<rparr>)"
proof -
  define w' where "w' = (put_sc (next_sc w) x w)\<lparr>next_sc := Suc (next_sc w)\<rparr>"
  have fields: "sc_map w' = sc_map w" "next_sc w' = Suc (next_sc w)" "next_bridge w' = next_bridge w"
      "scs w' = (scs w)(next_sc w \<mapsto> x)" "bridges w' = bridges w"
    by (simp_all add: w'_def)
  have has: "has_closer w' = has_closer w" if "tunnels_ok f w" for f
    using tunnels_okD(2) [OF that] new
    by (fastforce simp: fun_eq_iff w'_def has_closer_def put_sc_def split: option.splits)
  then have "in_table w' = in_table w" if "tunnels_ok f w" for f
    using that by (simp add: fun_eq_iff in_table_def)
  with has have "tunnels_step w w'"
    unfolding tunnels_step_def
    by (intro allI owner_stepI)
       (auto simp: fields less_Suc_eq split: if_splits dest: tunnels_okD)
  then show ?thesis unfolding w'_def .
qed

lemma tunnel_registered:
  assumes "scs w k \<noteq> None" and "map_of (sc_map w) nonce = None"
  shows "tunnels_step w (w\<lparr>sc_map := (nonce, k) # sc_map w\<rparr>)"
  unfolding tunnels_step_def
  by (intro allI owner_stepI) (use assms in \<open>auto split: if_splits dest: tunnels_okD\<close>)

lemma channel_given_up:
  assumes k: "scs w k = Some x" and none: "bridge_closers x = []"
    and unused: "\<And>nonce. map_of (sc_map w) nonce \<noteq> Some k"
  shows "tunnels_step w (w\<lparr>scs := (scs w)(k := None)\<rparr>)"
proof -
  have has: "has_closer (w\<lparr>scs := (scs w)(k := None)\<rparr>) = has_closer w"
    using k none by (auto simp: fun_eq_iff has_closer_Some [OF k])
  then have "in_table (w\<lparr>scs := (scs w)(k := None)\<rparr>) = in_table w"
    by (auto simp: fun_eq_iff in_table_def)
  with has show ?thesis
    unfolding tunnels_step_def
    by (intro allI owner_stepI)
       (use unused in \<open>auto split: if_splits dest: tunnels_okD simp del: has_closer_simps\<close>)
qed

section \<open>The handlers keep the tables\<close>

lemma SControlChannel_new_opens:
  assumes "SControlChannel_new E c addr backlog w = Inr (k, w')"
  obtains w3 x where "same_tunnels w w3" and "k = next_sc w"
    and "w' = (put_sc k x w3)\<lparr>next_sc := Suc k\<rparr>" and "bridge_closers x = []" and "wait_handle_visitors x = []"
proof -
  obtain w1 s w2 w3 where k: "k = next_sc w"
      and "shared_copy c w = Inr w1" "Server_new E addr backlog w1 = Inr (s, w2)"
      "bind_on_connect s (Cb_handle_new_outside k) w2 = Inr w3"
      and w': "w' = (put_sc k \<lparr>ncx_client_conn = c, proxy_server = s, wait_handle_visitors = [],
        bridge_closers = []\<rparr> w3)\<lparr>next_sc := Suc k\<rparr>"
    using assms by (auto simp: SControlChannel_new_def bindR_eq_Inr Let_def)
  then have "same_tunnels w w1" "same_tunnels w1 w2" "same_tunnels w2 w3"
    using outside.shared_copy_R outside.Server_new_R outside.modify_server_R
    unfolding bind_on_connect_def by (blast dest: afterD)+
  then have "same_tunnels w w3" by (blast intro: outside.R_trans)
  then show ?thesis by (rule that [OF _ k w']) simp_all
qed

lemma SControlChannel_destroy_unused:
  assumes k: "scs w k = Some x" "bridge_closers x = []" "wait_handle_visitors x = []"
    and unused: "\<And>nonce. map_of (sc_map w) nonce \<noteq> Some k"
  shows "after tunnels_step w (SControlChannel_destroy E H k w)"
  unfolding after_def
proof (intro allI impI)
  fix w'
  assume "SControlChannel_destroy E H k w = Inr w'"
  then obtain w3 w4 where "Server_destroy E (proxy_server x) w = Inr w3"
      "shared_drop E (ncx_client_conn x) w3 = Inr w4" and w': "w' = w4\<lparr>scs := (scs w4)(k := None)\<rparr>"
    using k by (auto simp: SControlChannel_destroy_def bindR_eq_Inr)
  then have same: "same_tunnels w w4"
    by (blast dest: afterD [OF outside.Server_destroy_R] afterD [OF outside.shared_drop_R]
        intro: outside.R_trans)
  have "tunnels_step w4 w'"
    unfolding w' by (rule channel_given_up [of w4 k x]) (use k unused in \<open>simp_all add: same_tunnelsD [OF same]\<close>)
  then show "tunnels_step w w'" by (rule tunnels.R_trans [OF tunnels_step_same [OF same]])
qed

lemma after_keep: "after tunnels_step w m \<Longrightarrow> after (owner_step f f) w m"
  by (auto simp: after_def intro: owner_keep)

lemma after_owner:
  "owner_step f g w w1 \<Longrightarrow> after (owner_step g h) w1 m \<Longrightarrow> after (owner_step f h) w m"
  by (auto simp: after_def intro: owner_trans)

lemma after_owner_bind:
  assumes "after (owner_step f g) w m" and "\<And>w1. m = Inr w1 \<Longrightarrow> after (owner_step g h) w1 (k w1)"
  shows "after (owner_step f h) w (bindR m k)"
  using assms by (cases m) (auto intro: after_owner)

lemma after_tunnels: "(\<And>f. after (owner_step f f) w m) \<Longrightarrow> after tunnels_step w m"
  by (simp add: after_def tunnels_step_def)

locale tunnel_keeping = server_evolution tunnels_step H for H :: srv_hooks
begin

lemma lock_force_close_keeps: "after tunnels_step w (lock_force_close E H c w)"
  by (simp add: lock_force_close_def holding_R force_close_R)

text \<open>A running owner gives its closer up.\<close>

lemma bridge_drop_keeps: "after (owner_step (f(b := Suc (f b))) f) w (bridge_drop E H b w)"
proof (cases "bridges w b")
  case (Some y)
  show ?thesis
  proof (cases "bc_count y \<le> 1")
    case True
    have "after tunnels_step v (bindR (lock_force_close E H i v) (lock_force_close E H j))" for i j v
      by (intro after_bind lock_force_close_keeps)
    then show ?thesis
      using Some True
      by (simp add: bridge_drop_def BridgeCloser_destroy_def after_owner [OF last_owner_drops after_keep])
  next
    case False
    then show ?thesis using Some by (simp add: bridge_drop_def owner_drops del: One_nat_def)
  qed
qed (simp add: bridge_drop_def the_bridge_def)

lemma erase_bridge_closer_keeps: "after tunnels_step w (erase_bridge_closer E H k i w)"
proof (rule after_tunnels)
  fix f
  show "after (owner_step f f) w (erase_bridge_closer E H k i w)"
  proof (cases "scs w k")
    case (Some x)
    then show ?thesis
      by (cases "map_of (bridge_closers x) i")
         (simp_all add: erase_bridge_closer_def owner_keep after_owner [OF closer_erased bridge_drop_keeps])
  qed (simp add: erase_bridge_closer_def the_sc_def)
qed

lemma cut_off_bridge_keeps: "after tunnels_step w (cut_off_bridge E H b w)"
  unfolding cut_off_bridge_def
  by (rule after_read) (simp add: erase_bridge_closer_keeps split: option.split)

lemma cut_bridge_cb_keeps: "after tunnels_step w (cut_bridge_cb E H b w)"
proof (cases "bridges w b")
  case (Some y)
  show ?thesis
    unfolding cut_bridge_cb_def Some option.case
    by (intro after_tunnels after_owner_bind [OF after_owner [OF owner_holds [OF Some]
          after_keep [OF cut_off_bridge_keeps]]] bridge_drop_keeps)
qed (simp add: cut_bridge_cb_def)

lemma handle_new_outside_connection_keeps:
  "after tunnels_step w (handle_new_outside_connection E H k c w)"
  unfolding handle_new_outside_connection_def Let_def
proof (intro after_bind after_read shared_copy_R)
  fix x w1
  assume x: "the_sc k w = Inr x" and w1: "shared_copy c w = Inr w1"
  have "scs w1 k = Some x"
    using x same_tunnelsD(2) [OF afterD [OF outside.shared_copy_R w1]]
    by (simp add: the_sc_def split: option.splits)
  then show "after tunnels_step w1 (Send E H (ncx_client_conn x)
      (framed_ControlChannelCmd (wire E) (set_control_channel_cmd CREATE_DATA_CHANNEL ControlChannelCmd_new))
      (put_sc k (x\<lparr>wait_handle_visitors := wait_handle_visitors x @ [c]\<rparr>) w1))"
    by (rule after_from [OF same_closers Send_R]) simp
qed

lemma forward_cb_keeps: "after tunnels_step w (forward_cb E H p c w)"
  unfolding forward_cb_def by (rule after_read) (simp add: relay_R)

lemma handle_control_channel_hello_keeps:
  "after tunnels_step w (handle_control_channel_hello E H c name port w)"
proof -
  obtain nonce w1 where n: "GenerateUUIDAsString E w = (nonce, w1)" by fastforce
  then have w1: "tunnels_step w w1" by (auto simp: GenerateUUIDAsString_def sysw_simp)
  have new: "after tunnels_step w2 (if map_of (sc_map w3) nonce = None
      then Inr (w3\<lparr>sc_map := (nonce, k) # sc_map w3\<rparr>) else SControlChannel_destroy E H k w3)"
    if sc: "SControlChannel_new E c addr 256 w2 = Inr (k, w3)" for addr w2 k w3
  proof -
    obtain v x where same: "same_tunnels w2 v" and k: "k = next_sc w2"
        and w3: "w3 = (put_sc k x v)\<lparr>next_sc := Suc k\<rparr>" and x: "bridge_closers x = []" "wait_handle_visitors x = []"
      using sc by (rule SControlChannel_new_opens)
    have "tunnels_step v w3"
      unfolding w3 k same_tunnelsD(3) [OF same, symmetric] by (rule channel_opened) (rule x)
    then have open_w3: "tunnels_step w2 w3" by (rule R_trans [OF tunnels_step_same [OF same]])
    have sc_k: "scs w3 k = Some x" by (simp add: w3)
    show ?thesis
    proof (rule after_tunnels)
      fix f
      show "after (owner_step f f) w2 (if map_of (sc_map w3) nonce = None
        then Inr (w3\<lparr>sc_map := (nonce, k) # sc_map w3\<rparr>) else SControlChannel_destroy E H k w3)"
      proof (cases "tunnels_ok f w2")
        case True
        have "map_of (sc_map w3) n \<noteq> Some k" for n
          using tunnels_okD(1) [OF True, of n k] tunnels_okD(2) [OF True, of k]
          by (auto simp: w3 k same_tunnelsD [OF same])
        then have "after tunnels_step w3 (SControlChannel_destroy E H k w3)"
          by (rule SControlChannel_destroy_unused [OF sc_k x])
        then show ?thesis
          using R_trans [OF open_w3 tunnel_registered [of w3 k nonce]] sc_k
            after_from [OF open_w3] by (auto intro: after_keep owner_keep)
      qed (simp add: after_def owner_step_def)
    qed
  qed
  show ?thesis
    unfolding handle_control_channel_hello_def n Let_def prod.case
    by (intro after_from [OF w1] after_bind Send_R after_read) (clarify, rule new)
qed

lemma register_bridge_closer_keeps:
  assumes "bridges w b = Some y" and "bridge_id y = i" and "delete_bridge y = Some k"
  shows "after (owner_step f f) w (register_bridge_closer k i b w)"
  using closer_entered [OF _ assms] assms(1)
  by (auto simp: register_bridge_closer_def the_sc_def owner_keep split: option.split)

lemma BridgeCloser_new_creates:
  assumes "BridgeCloser_new E v c w = (b, w')"
  obtains x where "owner_step f (f(b := Suc (f b))) w w'" and "bridges w' b = Some x" and "delete_bridge x = None"
proof -
  obtain h i where b: "b = next_bridge w" and
    w': "w' = (put_bridge b \<lparr>bridge_id = i, bridge_inside = v, bridge_outside = c, delete_bridge = None,
      bc_count = 1\<rparr> (w\<lparr>hist := h\<rparr>))\<lparr>next_bridge := Suc b\<rparr>"
    using assms by (auto simp: BridgeCloser_new_def GenerateUUIDAsString_def sysw_simp Let_def)
  have "owner_step f (f(b := Suc (f b))) (w\<lparr>hist := h\<rparr>) w'"
    unfolding w' b using owner_creates [of _ f "w\<lparr>hist := h\<rparr>"] by simp
  then have "owner_step f (f(b := Suc (f b))) w w'"
    by (rule owner_trans [OF owner_keep [OF R_hist]])
  moreover have "\<exists>x. bridges w' b = Some x \<and> delete_bridge x = None" by (simp add: w')
  ultimately show ?thesis using that by blast
qed

lemma pop_visitor_keeps: "pop_visitor k w = Inr (v, w') \<Longrightarrow> tunnels_step w w'"
  by (auto simp: pop_visitor_def the_sc_def same_closers split: option.splits list.split_asm)

lemma handle_data_channel_hello_keeps: "after tunnels_step w (handle_data_channel_hello E H c nonce w)"
  unfolding after_def
proof (intro allI impI)
  fix w'
  assume "handle_data_channel_hello E H c nonce w = Inr w'"
  then show "tunnels_step w w'"
  proof (cases rule: data_channel_hello_steps)
    case (1 k v w1 w2 w3 b w4 x w6 w7 w8 w9 y w10 w11)
    let ?x = "x\<lparr>delete_bridge := Some k\<rparr>"
    let ?w5 = "put_bridge b ?x w4"
    have "same_tunnels ?w5 w7"
      by (rule outside.R_trans [OF afterD [OF outside.set_handles_R(4) 1(7)]
            afterD [OF outside.set_handles_R(4) 1(8)]])
    then have b7: "tunnels_step ?w5 w7" "bridges w7 b = Some ?x"
      by (simp_all add: tunnels_step_same same_tunnelsD)
    have "after tunnels_step w9 (if 0 < readAbleBytes (input_buffer y) then handle_message E H v w9 else Inr w9)"
      by (simp add: handle_message_R)
    then have w10: "tunnels_step w9 w10" using 1(12) by (rule afterD)
    have w3: "tunnels_step w w3"
      by (rule R_trans [OF R_trans [OF pop_visitor_keeps [OF 1(2)] afterD [OF set_handles_R(2) 1(3)]]
            afterD [OF set_handles_R(2) 1(4)]])
    show ?thesis
      unfolding tunnels_step_def
    proof
      fix f
      let ?g = "f(b := Suc (f b))"
      have "owner_step f ?g w3 w4" "delete_bridge x = None"
        using BridgeCloser_new_creates [OF 1(5), of f] 1(6) by auto
      then have "owner_step f ?g w w4" "owner_step ?g ?g w4 ?w5"
        using owner_trans [OF owner_keep [OF w3]] closer_assigned [OF 1(6)] by blast+
      moreover have "owner_step ?g ?g w7 w8"
        using register_bridge_closer_keeps [OF b7(2)] by (rule afterD [OF _ 1(9)]) simp_all
      moreover have "tunnels_step w8 w10" by (rule R_trans [OF afterD [OF Send_R 1(10)] w10])
      moreover have "owner_step ?g f w10 w11" using bridge_drop_keeps 1(13) by (rule afterD)
      moreover have "tunnels_step w11 w'" using shared_drop_R 1(14) by (rule afterD)
      ultimately show "owner_step f f w w'" using b7(1) by (blast intro: owner_trans owner_keep)
    qed
  qed
qed

lemma handle_new_connection_keeps: "after tunnels_step w (handle_new_connection E H c w)"
  unfolding handle_new_connection_def
  by (rule after_consume)
     (simp add: handle_control_channel_hello_keeps handle_data_channel_hello_keeps Let_def split: option.split)

lemma closures_keep:
  "after tunnels_step w (case cb of
      Cb_handle_new_connection \<Rightarrow>
        (case a of Some c \<Rightarrow> handle_new_connection E H c w | None \<Rightarrow> Inl Undefined_Behaviour)
    | Cb_handle_new_outside k \<Rightarrow>
        (case a of Some c \<Rightarrow> handle_new_outside_connection E H k c w | None \<Rightarrow> Inl Undefined_Behaviour)
    | Cb_forward peer \<Rightarrow>
        (case a of Some c \<Rightarrow> forward_cb E H peer c w | None \<Rightarrow> Inl Undefined_Behaviour)
    | Cb_cut_bridge b \<Rightarrow> cut_bridge_cb E H b w)"
  by (simp add: handle_new_connection_keeps handle_new_outside_connection_keeps forward_cb_keeps
      cut_bridge_cb_keeps split: srv_cb.split option.split)

end

lemma keeping_hooks:
  assumes "\<And>cb a w. after tunnels_step w (srv_run_cb E n cb a w)"
  shows "tunnel_keeping (srv_hooks E n)"
  using assms by unfold_locales (simp_all add: tunnels.srv_run_close_R)

lemma srv_run_cb_keeps: "after tunnels_step w (srv_run_cb E n cb a w)"
proof (induction n arbitrary: cb a w)
  case (Suc n)
  show ?case
    using tunnel_keeping.closures_keep [OF keeping_hooks [OF Suc]]
    by (simp add: srv_hooks_def [symmetric] Let_def)
qed simp

interpretation keeping: tunnel_keeping "srv_hooks E n" for E n
  by (rule keeping_hooks) (rule srv_run_cb_keeps)

lemma srv_turn_keeps: "srv_turn E n w = Inr w' \<Longrightarrow> tunnels_step w w'"
  unfolding srv_turn_def by (rule afterD [OF keeping.srv_loop_turn_R])

section \<open>Runs of the server\<close>

text \<open>The states a server goes through, turn by turn; the nesting of callbacks is as deep as it needs to be.\<close>

inductive served :: "env \<Rightarrow> NServer \<Rightarrow> NServer \<Rightarrow> bool" for E :: env and w :: NServer where
  served_start: "served E w w"
| served_turn: "served E w v \<Longrightarrow> srv_turn E n v = Inr w' \<Longrightarrow> served E w w'"

lemma served_advances: "served E w w' \<Longrightarrow> conns_evolve w w'"
  by (induction rule: served.induct) (auto intro: evolving.R_trans srv_turn_advances)

lemma served_keeps: "served E w w' \<Longrightarrow> tunnels_step w w'"
  by (induction rule: served.induct) (auto intro: tunnels.R_trans srv_turn_keeps)

lemma EventLoop_new_same: "EventLoop_new E w = Inr w' \<Longrightarrow> same_tunnels w w'"
  by (auto simp: EventLoop_new_def Epoll_new_def bindR_eq_Inr sysw_simp Let_def errif_def same_tunnels_def
      set_read_callback_def enableRead_def Epoll_update_channel_def split: if_splits)

lemma NServer_new_tunnels:
  assumes "NServer_new E addr backlog w = Inr w'"
  shows "scs w' = scs w" and "bridges w' = bridges w" and "sc_map w' = []"
proof -
  obtain w1 s w2 where w1: "EventLoop_new E (w\<lparr>server_addr := addr, args_backlog := backlog\<rparr>) = Inr w1"
    and w2: "Server_new E (server_addr w1) (args_backlog w1) w1 = Inr (s, w2)"
    and w': "bind_on_message s Cb_handle_new_connection (w2\<lparr>ncx_acceptor := s, sc_map := []\<rparr>) = Inr w'"
    using assms by (auto simp: NServer_new_def bindR_eq_Inr)
  note same = same_tunnelsD [OF EventLoop_new_same [OF w1]] same_tunnelsD [OF outside.Server_new_R [OF w2]]
    same_tunnelsD [OF afterD [OF outside.modify_server_R w' [unfolded bind_on_message_def]]]
  show "scs w' = scs w" "bridges w' = bridges w" "sc_map w' = []"
    by (simp_all add: same)
qed

lemma NServer_new_tunnels_ok:
  assumes "NServer_new E addr backlog w = Inr w'" and "scs w = Map.empty" and "bridges w = Map.empty"
  shows "tunnels_ok (\<lambda>_. 0) w'"
  by (simp add: tunnels_ok_def has_closer_def in_table_def NServer_new_tunnels [OF assms(1)] assms(2,3))

lemma tunnels_ok_at_rest:
  assumes "tunnels_ok (\<lambda>_. 0) w" and "bridges w b = Some y"
  obtains k x where "delete_bridge y = Some k" and "scs w k = Some x"
    and "map_of (bridge_closers x) (bridge_id y) = Some b" and "bc_count y = 1"
proof -
  have "bc_count y = 1" "in_table w b"
    using tunnels_okD(6,7) [OF assms] by (cases "in_table w b"; simp)+
  then obtain k i where has: "has_closer w k i b" unfolding in_table_def by blast
  then have "delete_bridge y = Some k" "bridge_id y = i"
    using tunnels_okD(4) [OF assms(1)] assms(2) by fastforce+
  with has \<open>bc_count y = 1\<close> show ?thesis
    using that by (auto simp: has_closer_def split: option.splits)
qed

end
