(* ===== verification/ClientInvariant.thy ===== *)
theory ClientInvariant
  imports NcxClient Evolution
begin

text \<open>
  What every turn of the tunnel client keeps: the connections of both ends of its tunnels only
  advance, whatever the kernel answers and whatever the server sends.
\<close>

section \<open>A process with clients\<close>

locale client_frame = conn_evolution R
  for R :: "('cb, 'z) cli_world_scheme \<Rightarrow> ('cb, 'z) cli_world_scheme \<Rightarrow> bool" +
  assumes R_clients [simp]: "R w (w\<lparr>clients := ks\<rparr>)"
    and R_next_client [simp]: "R w (w\<lparr>next_client := n\<rparr>)"
begin

lemma R_put_client [simp]: "R w (put_client k x w)"
  by (simp add: put_client_def)

lemma modify_client_R: "after R w (modify_client k f w)"
  unfolding modify_client_def by (rule after_read) simp

lemma set_connector_R: "after R w (set_connector k f w)"
  unfolding set_connector_def by (rule modify_client_R)

lemma after_tid:
  "(\<And>t w1. current_tid E w = (t, w1) \<Longrightarrow> after R w1 (k (loop_tid w1 = t) w1)) \<Longrightarrow>
   after R w (let (here, w1) = isInEpollLoop E w in k here w1)"
  unfolding isInEpollLoop_def
  by (cases "current_tid E w") (simp add: after_from [OF current_tid_R])

lemma removeAndResetChannel_R:
  assumes "removeAndResetChannel E k w = Inr (f, w')"
  shows "R w w'"
proof -
  obtain x ch where x: "the_client k w = Inr x" "cn_channel (cl_connector x) = Some ch"
    using assms by (auto simp: removeAndResetChannel_def bindR_eq_Inr split: option.split_asm)
  obtain ch1 w1 where ch1: "disableAll E (Chan_connector k) ch w = (ch1, w1)" by fastforce
  obtain w3 where
      w3: "set_connector k (\<lambda>cn. cn\<lparr>cn_channel := Some ch1\<rparr>) (Epoll_delete_channel E (Chan_connector k) ch1 w1) = Inr w3"
      and w': "run_on_onwer_thread E (Task_resetChannel k) (resetChannel k) w3 = Inr w'"
    using assms x ch1 by (auto simp: removeAndResetChannel_def bindR_eq_Inr Let_def)
  from ch1 obtain h where "w1 = w\<lparr>hist := h\<rparr>" unfolding disableAll_def by (blast dest: Epoll_update_channel_R)
  then have "R w w1" by simp
  moreover have "R w1 (Epoll_delete_channel E (Chan_connector k) ch1 w1)"
    by (simp add: Epoll_delete_channel_def)
  moreover have "after R w3 (run_on_onwer_thread E (Task_resetChannel k) (resetChannel k) w3)"
    by (rule run_on_onwer_thread_R) (simp add: resetChannel_def set_connector_R)
  ultimately show ?thesis
    using afterD [OF set_connector_R w3] afterD [OF _ w'] by (blast intro: R_trans)
qed

lemma stopInLoop_R: "after R w (stopInLoop E k w)"
  unfolding stopInLoop_def
proof (rule after_read)
  fix x
  have "after R v (bindR (removeAndResetChannel E k v) (\<lambda>(f, v1). Inr (v1\<lparr>hist := Close E f (hist v1)\<rparr>)))" for v
    by (rule after_read) (auto intro: R_trans [OF removeAndResetChannel_R R_hist])
  then show "after R w (if cn_state (cl_connector x) = kConnecting then
      bindR (set_connector k (\<lambda>cn. cn\<lparr>cn_state := kDisconnected\<rparr>) w) (\<lambda>w1.
      bindR (removeAndResetChannel E k w1) (\<lambda>(f, v1). Inr (v1\<lparr>hist := Close E f (hist v1)\<rparr>)))
      else Inr w)"
    by (simp add: after_bind [OF set_connector_R])
qed

lemma Client_new_R: "Client_new E addr w = Inr (k, w') \<Longrightarrow> R w w'"
  by (auto simp: Client_new_def bindR_eq_Inr Let_def
      intro: R_trans [OF R_trans [OF R_hist R_put_client] R_next_client])

lemma set_cbs_R:
  "after R w (set_on_connect_cb k cb w)" "after R w (set_on_message_cb k cb w)"
  "after R w (set_on_disconnect_cb k cb w)"
  unfolding set_on_connect_cb_def set_on_message_cb_def set_on_disconnect_cb_def
  by (rule after_read, simp add: Let_def after_from [OF R_put_client set_handles_R(1)]
      after_from [OF R_put_client set_handles_R(2)] split: option.split)+
     (rule modify_client_R)

lemma remove_connection_R: "after R w (remove_connection E c w)"
  unfolding remove_connection_def by (intro run_bound_R ConnectionConstructor_R)

lemma removeConnection_R:
  assumes rc: "\<And>cb a v. after R v (rc cb a v)"
  shows "after R w (removeConnection E rc k c w)"
  unfolding removeConnection_def
  by (rule after_tid, intro after_bind after_read after_from [OF R_put_client shared_drop_R]
      run_bound_R ConnectionConstructor_R modify_client_R)
     (simp add: rc split: option.split)

lemma cli_run_close_R: "(\<And>cb a v. after R v (rc cb a v)) \<Longrightarrow> after R w (cli_run_close E rc cb c w)"
  by (cases cb) (simp_all add: cli_run_close_def removeConnection_R remove_connection_R)

lemma cli_set_revs_R: "after R w (cli_set_revs p ev w)"
  by (cases p) (simp_all add: cli_set_revs_def modify_R conn_le_def)

end

locale client_evolution = client_frame R + hooks_evolution R H
  for R :: "('cb, 'z) cli_world_scheme \<Rightarrow> ('cb, 'z) cli_world_scheme \<Rightarrow> bool"
    and H :: "('cb, ('cb, 'z) cli_world_scheme) hooks"
begin

lemma newConnection_R: "after R w (newConnection E H k f w)"
  unfolding newConnection_def
proof (rule after_tid, rule after_read)
  fix t and w0 :: "('cb, 'z) cli_world_scheme"
  obtain l h1 where l: "getLocalAddr E f (hist w0) = (l, h1)" by fastforce
  obtain p h2 where p: "getPeerAddr E f h1 = (p, h2)" by fastforce
  let ?rest = "\<lambda>c w2. bindR (set_nonblocking E c w2) (\<lambda>w3.
      bindR (the_client k w3) (\<lambda>x.
      bindR (set_conn_handle c (cl_on_connect x) w3) (\<lambda>w4.
      bindR (set_message_handle c (cl_on_message x) w4) (\<lambda>w5.
      bindR (set_close_handle c (Cb_removeConnection k) w5) (\<lambda>w6.
      bindR (shared_copy c w6) (\<lambda>w7.
      let w8 = put_client k (x\<lparr>cl_conn := Some c\<rparr>) w7 in
      bindR (case cl_conn x of None \<Rightarrow> Inr w8 | Some old \<Rightarrow> shared_drop E old w8) (\<lambda>w9.
      bindR (ConnectionEstablished E H c w9) (shared_drop E c))))))))"
  have rest: "after R w2 (?rest c w2)" if x: "conns w2 c = Some x" "c_state x = CONNECTING" for c w2 x
    unfolding Let_def
  proof (intro after_bind after_read set_nonblocking_R set_handles_R shared_copy_R shared_drop_R)
    fix w3 k' w4 w5 w6 w7
    show "after R w7 (case cl_conn k' of None \<Rightarrow> Inr (put_client k (k'\<lparr>cl_conn := Some c\<rparr>) w7)
        | Some old \<Rightarrow> shared_drop E old (put_client k (k'\<lparr>cl_conn := Some c\<rparr>) w7))"
      by (simp add: after_from [OF R_put_client shared_drop_R] split: option.split)
    fix w9
    assume "set_nonblocking E c w2 = Inr w3" "set_conn_handle c (cl_on_connect k') w3 = Inr w4"
      "set_message_handle c (cl_on_message k') w4 = Inr w5"
      "set_close_handle c (Cb_removeConnection k) w5 = Inr w6" "shared_copy c w6 = Inr w7"
    then have w7: "\<exists>y. conns w7 c = Some y \<and> c_state y = CONNECTING"
      using x by (auto simp: set_nonblocking_def sysw_simp set_conn_handle_def set_message_handle_def
          set_close_handle_def)
    assume "(case cl_conn k' of None \<Rightarrow> Inr (put_client k (k'\<lparr>cl_conn := Some c\<rparr>) w7)
        | Some old \<Rightarrow> shared_drop E old (put_client k (k'\<lparr>cl_conn := Some c\<rparr>) w7)) = Inr w9"
    then have "conns w9 c = Some y \<Longrightarrow> c_state y = CONNECTING" for y
      using w7 by (auto simp: shared_drop_def Connection_destroy_def deref_def sysw_simp
          split: option.split_asm if_splits)
    then show "after R w9 (ConnectionEstablished E H c w9)"
      by (auto intro: ConnectionEstablished_R)
  qed
  have "after R w1 (let (c, w2) = Connection_new E f l p w1 in ?rest c w2)" for w1
  proof -
    obtain c w2 where c: "Connection_new E f l p w1 = (c, w2)" by fastforce
    with Connection_new_R(2) [OF c] show ?thesis
      using rest by (auto simp del: split_paired_Ex intro: after_from [OF Connection_new_R(1) [OF c]])
  qed
  then show "after R w0 (let (l, h1) = getLocalAddr E f (hist w0); (p, h2) = getPeerAddr E f h1 in
      bindR (modify_client k (\<lambda>x. x\<lparr>next_conn_id := next_conn_id x + 1\<rparr>) (w0\<lparr>hist := h2\<rparr>)) (\<lambda>w1.
      let (c, w2) = Connection_new E f l p w1 in ?rest c w2))"
    unfolding l p Let_def [of "(l, h1)"] Let_def [of "(p, h2)"] prod.case
    by (rule after_bind [OF after_from [OF R_hist modify_client_R]])
qed

lemma Connector_connect_R: "Connector_connect E k w = Inr (f, w') \<Longrightarrow> R w w'"
  by (auto simp: Connector_connect_def bindR_eq_Inr Let_def)

lemma startInLoop_R: "after R w (startInLoop E H k w)"
  unfolding startInLoop_def
proof (intro after_read)
  fix x
  have "after R w (bindR (Connector_connect E k w) (\<lambda>(f, w1).
      bindR (set_connector k (\<lambda>cn. cn\<lparr>cn_state := kConnected\<rparr>) w1) (newConnection E H k f)))"
    by (rule after_read, clarify, rule after_from [OF Connector_connect_R], assumption)
       (intro after_bind set_connector_R newConnection_R)
  then show "after R w (if connect_flag (cl_connector x) then bindR (Connector_connect E k w) (\<lambda>(f, w1).
      bindR (set_connector k (\<lambda>cn. cn\<lparr>cn_state := kConnected\<rparr>) w1) (newConnection E H k f)) else Inr w)"
    by simp
qed

lemma Client_connect_R: "after R w (Client_connect E H k w)"
proof -
  have start: "after R v (Connector_start E H k v)" for v
    unfolding Connector_start_def by (intro after_bind set_connector_R run_on_onwer_thread_R startInLoop_R)
  show ?thesis
    unfolding Client_connect_def by (intro after_read) (simp add: after_from [OF R_put_client start])
qed

lemma Client_destroy_R: "after R w (Client_destroy E H k w)"
  unfolding Client_destroy_def
proof (rule after_read, rule after_bind)
  fix x :: "'cb client" and w4
  have unique: "after R v (if b then force_close E H c v else Inr v)" for b c v
    by (simp add: force_close_R)
  show "after R w (case cl_conn x of None \<Rightarrow> Inr w
      | Some c \<Rightarrow> bindR (deref c w) (\<lambda>y. let unique = use_count y = 1 in
          bindR (shared_copy c w) (\<lambda>w1.
          bindR (run_bound E c (Task_set_close_handle c) (set_close_handle c Cb_remove_connection) w1) (\<lambda>w2.
          bindR (if unique then force_close E H c w2 else Inr w2) (\<lambda>w3.
          bindR (shared_drop E c w3) (shared_drop E c))))))"
    unfolding Let_def
    by (cases "cl_conn x") (simp, simp only: option.case, intro after_bind after_read shared_copy_R
        run_bound_R set_handles_R unique shared_drop_R)
  show "after R w4 (Inr (w4\<lparr>hist := TcpSocket_destroy E (cn_socket (cl_connector x)) (hist w4),
      clients := (clients w4)(k := None)\<rparr>))"
    using R_trans [OF R_hist R_clients] by simp
qed

lemma cli_handle_event_R: "after R w (cli_handle_event E H p w)"
  by (cases p)
     (auto simp: cli_handle_event_def wakeup_callback_def intro!: conn_handle_event_R handle_event_guard_R)

lemma cli_run_task_R: "after R w (cli_run_task E H t w)"
  by (cases t)
     (auto simp: cli_run_task_def resetChannel_def
       intro: after_bind handle_close_R ConnectionConstructor_R shared_drop_R set_handles_R startInLoop_R
         stopInLoop_R set_connector_R)

lemma cli_loop_turn_R:
  "after R w (loop_turn E cli_set_revs (cli_handle_event E H) (cli_run_task E H) w)"
  by (intro loop_turn_R cli_set_revs_R cli_handle_event_R cli_run_task_R)

end

section \<open>The tunnel client\<close>

text \<open>The closures that leave the program's own tables alone.\<close>

locale nclient_hooks = client_evolution R H
  for R :: "NClient \<Rightarrow> NClient \<Rightarrow> bool" and H :: cli_hooks
begin

lemma do_data_channel_handshake_R: "after R w (do_data_channel_handshake E H d c w)"
  unfolding do_data_channel_handshake_def Let_def by (intro after_bind after_read Send_R set_handles_R)

lemma do_data_channel_transforward_R: "after R w (do_data_channel_transforward E H d w)"
  unfolding do_data_channel_transforward_def
  by (intro after_bind after_read set_cbs_R Client_connect_R)
     (auto split: option.split intro!: after_read holding_R handle_message_R)

lemma wait_data_channel_start_cmd_R: "after R w (wait_data_channel_start_cmd E H d c w)"
  unfolding wait_data_channel_start_cmd_def
  by (rule after_consume) (simp add: do_data_channel_transforward_R Let_def split: option.split)

lemma forward_to_client_R: "after R w (forward_to_client E H k c w)"
  unfolding forward_to_client_def
  by (rule after_read) (auto split: option.split intro!: after_read relay_R)

lemma do_control_channel_handshake_R: "after R w (do_control_channel_handshake E H j c w)"
  unfolding do_control_channel_handshake_def Let_def by (intro after_bind after_read set_cbs_R Send_R)

lemma GenerateUUID_R: "GenerateUUIDAsString E w = (i, w1) \<Longrightarrow> R w w1"
  by (auto simp: GenerateUUIDAsString_def sysw_simp)

end

lemma DataChannel_new_steps:
  assumes "DataChannel_new E H addr service nonce w = Inr (d, w')"
  obtains i w1 k1 w2 k2 w3 w5 w6 w7 where "d = next_dc w" and "GenerateUUIDAsString E w = (i, w1)"
    and "Client_new E addr w1 = Inr (k1, w2)" and "Client_new E service w2 = Inr (k2, w3)"
    and "set_on_connect_cb k1 (Cb_data_handshake d) ((put_dc d \<lparr>channel_id = i, dc_nonce = nonce, server_client = k1,
          service_client = k2, data_channel_delete = None\<rparr> w3)\<lparr>next_dc := Suc d\<rparr>) = Inr w5"
    and "set_on_message_cb k1 (Cb_wait_start d) w5 = Inr w6"
    and "set_on_disconnect_cb k1 (Cb_delete_data d) w6 = Inr w7"
    and "Client_connect E H k1 w7 = Inr w'"
proof -
  obtain i w1 where "GenerateUUIDAsString E w = (i, w1)" by fastforce
  then show ?thesis
    using assms by (auto simp: DataChannel_new_def bindR_eq_Inr Let_def intro: that)
qed

locale nclient_evolution = nclient_hooks R H
  for R :: "NClient \<Rightarrow> NClient \<Rightarrow> bool" and H :: cli_hooks +
  assumes R_cc_map [simp]: "R w (w\<lparr>cc_map := m\<rparr>)"
    and R_ccs [simp]: "R w (w\<lparr>ccs := f\<rparr>)" and R_next_cc [simp]: "R w (w\<lparr>next_cc := j\<rparr>)"
    and R_dcs [simp]: "R w (w\<lparr>dcs := g\<rparr>)" and R_next_dc [simp]: "R w (w\<lparr>next_dc := d\<rparr>)"
begin

lemma R_puts [simp]: "R w (put_cc j x w)" "R w (put_dc d y w)"
  by (simp_all add: put_cc_def put_dc_def)

lemma DataChannel_new_R:
  assumes "DataChannel_new E H addr service nonce w = Inr (d, w')"
  shows "R w w'"
  using assms
proof (cases rule: DataChannel_new_steps)
  case (1 i w1 k1 w2 k2 w3 w5 w6 w7)
  show ?thesis
    by (rule GenerateUUID_R [OF 1(2), THEN R_trans, OF Client_new_R [OF 1(3)], THEN R_trans, OF Client_new_R [OF 1(4)],
          THEN R_trans, OF R_puts(2), THEN R_trans, OF R_next_dc, THEN R_trans, OF afterD [OF set_cbs_R(1) 1(5)],
          THEN R_trans, OF afterD [OF set_cbs_R(2) 1(6)], THEN R_trans, OF afterD [OF set_cbs_R(3) 1(7)],
          THEN R_trans, OF afterD [OF Client_connect_R 1(8)]])
qed

lemma DataChannel_destroy_R: "after R w (DataChannel_destroy E H d w)"
  unfolding DataChannel_destroy_def
  by (intro after_bind after_read Client_destroy_R) simp

lemma CControlChannel_destroy_R: "after R w (CControlChannel_destroy E H j w)"
  unfolding CControlChannel_destroy_def
  by (intro after_bind after_read after_foldR Client_destroy_R) (simp_all add: split_def DataChannel_destroy_R)

lemma register_control_channel_R: "after R w (register_control_channel E H old new w)"
  unfolding register_control_channel_def Let_def
  by (rule after_bind)
     (simp_all add: after_from [OF R_cc_map CControlChannel_destroy_R] split: option.split)

lemma handle_control_channel_hello_c_R: "after R w (handle_control_channel_hello_c E H j nonce w)"
  unfolding handle_control_channel_hello_c_def
proof (intro after_bind after_read)
  fix x
  show "after R w (if register_set x then register_control_channel E H (cc_id x) nonce w else Inr w)"
    by (simp add: register_control_channel_R)
qed simp

lemma wait_control_channel_hello_R: "after R w (wait_control_channel_hello E H j c w)"
proof -
  have "after R v (bindR (if t then handle_control_channel_hello_c E H j nonce v else Inr v) (\<lambda>w2.
      bindR (the_cc j w2) (\<lambda>y. set_on_message_cb (control_client y) (Cb_wait_server_cmd j) w2)))" for t nonce v
    by (intro after_bind after_read set_cbs_R) (simp add: handle_control_channel_hello_c_R)
  then show ?thesis
    unfolding wait_control_channel_hello_def
    by (intro after_consume) (simp add: Let_def split: option.split)
qed

lemma delete_data_channel_R: "after R w (delete_data_channel E H d w)"
  unfolding delete_data_channel_def
  by (rule after_read)
     (auto split: option.split intro!: after_read after_from [OF R_puts(1) DataChannel_destroy_R])

lemma handle_cmd_create_datachannel_R: "after R w (handle_cmd_create_datachannel E H j w)"
  unfolding handle_cmd_create_datachannel_def
proof (rule after_read, rule after_read, clarify, rule after_from [OF DataChannel_new_R], assumption)
  fix d w1
  have enter: "after R v (bindR (the_cc j v) (\<lambda>z. if map_of (data_pool z) i = None
      then Inr (put_cc j (z\<lparr>data_pool := (i, d) # data_pool z\<rparr>) v) else DataChannel_destroy E H d v))" for i v
    by (rule after_read) (simp add: DataChannel_destroy_R)
  show "after R w1 (bindR (the_dc d w1) (\<lambda>y.
      let w2 = put_dc d (y\<lparr>data_channel_delete := Some j\<rparr>) w1; i = channel_id y in
      bindR (the_cc j w2) (\<lambda>z.
        if map_of (data_pool z) i = None then Inr (put_cc j (z\<lparr>data_pool := (i, d) # data_pool z\<rparr>) w2)
        else DataChannel_destroy E H d w2)))"
    unfolding Let_def
    by (rule after_read) (rule after_from [OF R_puts(2) enter])
qed

lemma wait_server_cmd_R: "after R w (wait_server_cmd E H j c w)"
  unfolding wait_server_cmd_def
  by (rule after_consume) (simp add: handle_cmd_create_datachannel_R Let_def split: option.split)

lemmas closures_R = do_control_channel_handshake_R wait_control_channel_hello_R wait_server_cmd_R
  do_data_channel_handshake_R wait_data_channel_start_cmd_R forward_to_client_R delete_data_channel_R

end

interpretation client_advancing: client_frame conns_evolve
  by unfold_locales (simp_all add: conns_evolve_same)

lemma client_advancing_hooks:
  assumes "\<And>cb a w. after conns_evolve w (cli_run_cb E n cb a w)"
  shows "nclient_evolution conns_evolve (cli_hooks E n)"
  using assms
  by unfold_locales (simp_all add: conns_evolve_same cli_hooks_def client_advancing.cli_run_close_R)

lemma cli_run_cb_advances: "after conns_evolve w (cli_run_cb E n cb a w)"
proof (induction n arbitrary: cb a w)
  case (Suc n)
  note closures = nclient_evolution.closures_R [OF client_advancing_hooks [OF Suc]]
  show ?case
    by (cases cb; cases a)
       (simp_all add: cli_hooks_def [symmetric] Let_def closures after_read)
qed simp

interpretation client_advancing: nclient_evolution conns_evolve "cli_hooks E n" for E n
  by (rule client_advancing_hooks) (rule cli_run_cb_advances)

lemma cli_turn_advances: "cli_turn E n w = Inr w' \<Longrightarrow> conns_evolve w w'"
  unfolding cli_turn_def by (rule afterD [OF client_advancing.cli_loop_turn_R])

inductive tunnelled :: "env \<Rightarrow> NClient \<Rightarrow> NClient \<Rightarrow> bool" for E :: env and w :: NClient where
  tunnelled_start: "tunnelled E w w"
| tunnelled_turn: "tunnelled E w v \<Longrightarrow> cli_turn E n v = Inr w' \<Longrightarrow> tunnelled E w w'"

lemma tunnelled_advances: "tunnelled E w w' \<Longrightarrow> conns_evolve w w'"
  by (induction rule: tunnelled.induct) (auto intro: evolving.R_trans cli_turn_advances)

end
