(* ===== verification/TunnelStream.thy ===== *)
theory TunnelStream
  imports NcxServerBridge NcxClient "HOL-Library.Sublist"
begin

text \<open>
  The byte stream through a tunnel. Both programs forward with the same shape of closure: when input
  arrives on one end, everything in its buffer is relayed to the other. The locale \<open>forwarding\<close>
  states what such a closure does; its lemmas say that any number of input events moves every byte
  read from one socket to the other, in order and once. It holds for the closure of the server's
  bridges and for both closures of the client's data channels.
\<close>

section \<open>Bytes read\<close>

text \<open>The bytes the kernel has handed out on a descriptor, in order, and those between two points.\<close>

fun got :: "history \<Rightarrow> int \<Rightarrow> bytes" where
  "got [] f = []"
| "got ((c, r) # h) f =
     got h f @ (case c of Sys_read f' n \<Rightarrow> if f' = f \<and> 0 < ret r then data r else [] | _ \<Rightarrow> [])"

definition newly_got :: "history \<Rightarrow> history \<Rightarrow> int \<Rightarrow> bytes" where
  "newly_got h h' f = drop (length (got h f)) (got h' f)"

lemma incoming_got: "incoming E f n h = Some (d, e, h') \<Longrightarrow> got h' f = got h f @ d"
proof (induction n arbitrary: h d)
  case (Suc n)
  let ?r = "kern E h (Sys_read f 1024)"
  let ?h1 = "(Sys_read f 1024, ?r) # h"
  show ?case
    using Suc.prems Suc.IH [of ?h1] by (auto simp: Let_def split: if_splits)
qed simp

lemma got_wrote [simp]: "got (wrote E f bs h) = got h"
  by (simp add: wrote_def fun_eq_iff)

text \<open>
  A peer that stays: whenever the socket is read, some bytes are there and then no more for now, few
  enough for the read loop and for a vector.
\<close>

definition streams :: "env \<Rightarrow> int \<Rightarrow> bool" where
  "streams E f \<longleftrightarrow> reads_wf E f \<and>
     (\<forall>h. \<exists>d h'. incoming E f (loop_fuel E) h = Some (d, Read_again, h') \<and> length d < 2 ^ 62)"

section \<open>Two ends joined by a closure\<close>

definition idle_in :: "buffer \<Rightarrow> bool" where
  "idle_in b \<longleftrightarrow> buf_ok b \<and> contents b = [] \<and> write_index b = kPrePendIndex"

definition linked ::
  "nat \<Rightarrow> nat \<Rightarrow> 'cb \<Rightarrow> int \<Rightarrow> int \<Rightarrow> ('cb, 'z) conn_world_scheme \<Rightarrow> bool" where
  "linked c p cb f g w \<longleftrightarrow> c \<noteq> p \<and> (\<exists>x y. conns w c = Some x \<and> conns w p = Some y
     \<and> on_message x = Some cb \<and> client_fd x = f \<and> client_fd y = g \<and> input_event c x
     \<and> 1 \<le> use_count x \<and> 1 \<le> use_count y \<and> idle_in (input_buffer x) \<and> idle_in (output_buffer y))"

definition repeat :: "nat \<Rightarrow> ('w \<Rightarrow> 'w res) \<Rightarrow> 'w \<Rightarrow> 'w res" where
  "repeat k event w = foldR (\<lambda>_. event) [0..<k] w"

lemma idle_room: "idle_in b \<Longrightarrow> n < 2 ^ 62 \<Longrightarrow> room b n"
  by (simp add: idle_in_def room_def kPrePendIndex_def max_size_def)

lemma RetrieveAll_idle: "buf_ok b \<Longrightarrow> idle_in (RetrieveAll b)"
  using RetrieveAll_ok [of b] by (simp add: idle_in_def) (simp add: RetrieveAll_def)

text \<open>Something that moves bytes from a source to a sink, whatever else it does.\<close>

locale byte_mover =
  fixes event :: "'w \<Rightarrow> 'w res" and ready :: "'w \<Rightarrow> bool" and inp out :: "'w \<Rightarrow> bytes"
  assumes moves: "ready w \<Longrightarrow>
    \<exists>w' d. event w = Inr w' \<and> ready w' \<and> inp w' = inp w @ d \<and> out w' = out w @ d"
begin

lemma repeat_moves:
  assumes "ready w"
  obtains w' d where "repeat k event w = Inr w'" and "ready w'" and "inp w' = inp w @ d" and "out w' = out w @ d"
proof -
  have "\<exists>w' d. repeat k event w = Inr w' \<and> ready w' \<and> inp w' = inp w @ d \<and> out w' = out w @ d"
  proof (induction k)
    case (Suc k)
    then obtain w1 d1 where w1: "repeat k event w = Inr w1" "ready w1" "inp w1 = inp w @ d1" "out w1 = out w @ d1"
      by blast
    obtain w2 d2 where "event w1 = Inr w2" "ready w2" "inp w2 = inp w1 @ d2" "out w2 = out w1 @ d2"
      using moves [OF w1(2)] by blast
    then show ?case
      using w1 by (intro exI [of _ w2] exI [of _ "d1 @ d2"]) (simp add: repeat_def foldR_append)
  qed (use assms in \<open>simp add: repeat_def\<close>)
  with that show ?thesis by blast
qed

end

text \<open>
  One input event of a connection that streams: what has come in is in the buffer when the message
  callback runs, with two more references to the connection; they are gone afterwards.
\<close>

lemma message_event:
  assumes c: "conns w c = Some x" "on_message x = Some cb" "input_event c x" "1 \<le> use_count x"
    and ib: "idle_in (input_buffer x)" and str: "streams E (client_fd x)"
  obtains d h' b where "incoming E (client_fd x) (loop_fuel E) (hist w) = Some (d, Read_again, h')" and "length d < 2 ^ 62"
    and "buf_ok b" and "contents b = d" and "d = [] \<Longrightarrow> idle_in b"
    and "\<And>v z. run_cb H cb (Some c) (put_conn c (x\<lparr>input_buffer := b, use_count := use_count x + 2\<rparr>) (w\<lparr>hist := h'\<rparr>)) = Inr v
      \<Longrightarrow> conns v c = Some z \<Longrightarrow> use_count z = use_count x + 2 \<Longrightarrow> c_channel z = c_channel x
      \<Longrightarrow> conn_handle_event E H c w = Inr (put_conn c (z\<lparr>use_count := use_count x\<rparr>) v)"
proof -
  obtain d h' where inc: "incoming E (client_fd x) (loop_fuel E) (hist w) = Some (d, Read_again, h')"
    and d: "length d < 2 ^ 62" and wf: "reads_wf E (client_fd x)" using str unfolding streams_def by blast
  let ?x1 = "x\<lparr>use_count := use_count x + 1\<rparr>"
  let ?w1 = "put_conn c ?x1 w"
  have "buf_ok (input_buffer ?x1)" "contents (input_buffer ?x1) = []" "room (input_buffer ?x1) (length d)"
    using ib idle_room [OF ib d] by (simp_all add: idle_in_def)
  then obtain b where b: "buf_ok b" "contents b = d" "unat (write_index b) \<le> unat (write_index (input_buffer x)) + length d"
      "ReadNonBlocking E H (loop_fuel E) c ?w1 = Inr (put_conn c (?x1\<lparr>input_buffer := b\<rparr>) (?w1\<lparr>hist := h'\<rparr>))"
    using ReadNonBlocking_incoming [of E "client_fd x" "loop_fuel E" ?w1 d Read_again h' c ?x1 H] inc wf by auto
  have idle_b: "idle_in b" if "d = []"
    using that b(1-3) ib buf_okD(1,2) [OF b(1)]
    by (simp add: idle_in_def kPrePendIndex_def word_unat_eq_iff)
  show ?thesis
  proof (rule that [OF inc d b(1,2) idle_b])
    fix v z
    assume run: "run_cb H cb (Some c) (put_conn c (x\<lparr>input_buffer := b, use_count := use_count x + 2\<rparr>) (w\<lparr>hist := h'\<rparr>)) = Inr v"
      and z: "conns v c = Some z" "use_count z = use_count x + 2" "c_channel z = c_channel x"
    let ?v = "put_conn c (z\<lparr>use_count := use_count x + 1\<rparr>) v"
    have "handle_message E H c (put_conn c (?x1\<lparr>input_buffer := b\<rparr>) (?w1\<lparr>hist := h'\<rparr>)) = Inr ?v"
      using run z c(2) by (simp add: handle_message_def holding_def)
    then have hd: "handle_data_in E H c ?w1 = Inr ?v" using b(4) by (simp add: handle_data_in_def)
    have "tie (c_channel x) = Some c" "got_in (c_channel x)" "\<not> got_out (c_channel x)"
        "read_callback (c_channel x) = Some Cb_handle_data_in"
      using c(3) by (simp_all add: input_event_def)
    then have "conn_handle_event E H c w = shared_drop E c ?v"
      using z(3) by (intro conn_handle_event_in [OF c(1) _ _ _ hd, of "z\<lparr>use_count := use_count x + 1\<rparr>"]) simp_all
    then show "conn_handle_event E H c w = Inr (put_conn c (z\<lparr>use_count := use_count x\<rparr>) v)"
      using c(4) by simp
  qed
qed

locale forwarding =
  fixes E :: env and H H' :: "('cb, ('cb, 'z) conn_world_scheme) hooks" and cb :: 'cb
    and c p :: nat and side :: "('cb, 'z) conn_world_scheme \<Rightarrow> bool"
  assumes relays: "side w \<Longrightarrow> conns w c = Some x \<Longrightarrow> conns w p = Some y \<Longrightarrow>
      buf_ok (input_buffer x) \<Longrightarrow> contents (input_buffer x) \<noteq> [] \<Longrightarrow>
      run_cb H cb (Some c) w = relay E H' p c w"
    and rests: "side w \<Longrightarrow> conns w c = Some x \<Longrightarrow> buf_ok (input_buffer x) \<Longrightarrow>
      contents (input_buffer x) = [] \<Longrightarrow> run_cb H cb (Some c) w = Inr w"
    and side_put_conn: "side (put_conn d z w) = side w"
    and side_hist: "side (w\<lparr>hist := h\<rparr>) = side w"
begin

text \<open>The closure writes all that is in the buffer to the other end.\<close>

lemma closure_moves:
  assumes side: "side w" and c: "conns w c = Some x" and p: "conns w p = Some y" and ne: "c \<noteq> p" "1 \<le> use_count y"
    and ib: "buf_ok (input_buffer x)" "length (contents (input_buffer x)) < 2 ^ 62"
    and ob: "idle_in (output_buffer y)" and acc: "accepts_all E (client_fd y)" and fuel: "0 < loop_fuel E"
  obtains ib' ob' where "run_cb H cb (Some c) w =
      Inr (put_conn p (y\<lparr>output_buffer := ob'\<rparr>) (put_conn c (x\<lparr>input_buffer := ib'\<rparr>)
        (w\<lparr>hist := wrote E (client_fd y) (contents (input_buffer x)) (hist w)\<rparr>)))"
    and "buf_ok ib'" and "contents ib' = []" and "idle_in ob'"
    and "contents (input_buffer x) \<noteq> [] \<Longrightarrow> idle_in ib'" and "contents (input_buffer x) = [] \<Longrightarrow> ib' = input_buffer x"
proof (cases "contents (input_buffer x) = []")
  case True
  have "put_conn p y (put_conn c x w) = w" using c p ne(1) by simp
  with True show ?thesis
    using that [of "output_buffer y" "input_buffer x"] rests [OF side c ib(1) True] ib ob
    by (simp add: wrote_def)
next
  case False
  have room: "room (output_buffer y) (length (contents (input_buffer x)))"
    using ob ib(2) by (rule idle_room)
  have o: "buf_ok (output_buffer y)" "contents (output_buffer y) = []" using ob by (simp_all add: idle_in_def)
  show ?thesis
  proof (rule relay_delivers [OF c p ne ib(1) o room acc fuel, of H'])
    fix b
    assume "relay E H' p c w =
      Inr (put_conn p (y\<lparr>output_buffer := b\<rparr>)
        (put_conn c (x\<lparr>input_buffer := RetrieveAll (input_buffer x)\<rparr>)
          (w\<lparr>hist := wrote E (client_fd y) (contents (input_buffer x)) (hist w)\<rparr>)))"
      "buf_ok b" "contents b = []" "write_index b = kPrePendIndex"
    then show ?thesis
      using that [of b "RetrieveAll (input_buffer x)"] relays [OF side c p ib(1) False] False
        RetrieveAll_idle [OF ib(1)] by (simp add: idle_in_def)
  qed
qed

text \<open>One input event: what was read on one end has been written on the other, and both are idle again.\<close>

lemma event_moves:
  assumes side: "side w" and link: "linked c p cb f g w" and str: "streams E f"
    and acc: "accepts_all E g" and fuel: "0 < loop_fuel E"
  obtains w' d where "conn_handle_event E H c w = Inr w'" and "linked c p cb f g w'" and "side w'"
    and "got (hist w') f = got (hist w) f @ d" and "sent (hist w') g = sent (hist w) g @ d"
proof -
  obtain x y where c: "conns w c = Some x" and p: "conns w p = Some y" and ne: "c \<noteq> p"
    and x: "on_message x = Some cb" "client_fd x = f" "input_event c x" "1 \<le> use_count x" "idle_in (input_buffer x)"
    and y: "client_fd y = g" "1 \<le> use_count y" "idle_in (output_buffer y)"
    using link by (auto simp: linked_def)
  obtain d h' b where inc: "incoming E f (loop_fuel E) (hist w) = Some (d, Read_again, h')" and d: "length d < 2 ^ 62"
    and b: "buf_ok b" "contents b = d" and idle_b: "d = [] \<Longrightarrow> idle_in b"
    and event: "\<And>v z. run_cb H cb (Some c) (put_conn c (x\<lparr>input_buffer := b, use_count := use_count x + 2\<rparr>) (w\<lparr>hist := h'\<rparr>)) = Inr v
      \<Longrightarrow> conns v c = Some z \<Longrightarrow> use_count z = use_count x + 2 \<Longrightarrow> c_channel z = c_channel x
      \<Longrightarrow> conn_handle_event E H c w = Inr (put_conn c (z\<lparr>use_count := use_count x\<rparr>) v)"
    by (rule message_event [OF c x(1,3,4,5), of E H]) (use str x(2) in auto)
  let ?x2 = "x\<lparr>input_buffer := b, use_count := use_count x + 2\<rparr>"
  let ?w2 = "put_conn c ?x2 (w\<lparr>hist := h'\<rparr>)"
  obtain ib' ob' where m: "run_cb H cb (Some c) ?w2 =
      Inr (put_conn p (y\<lparr>output_buffer := ob'\<rparr>) (put_conn c (?x2\<lparr>input_buffer := ib'\<rparr>)
        (?w2\<lparr>hist := wrote E g d h'\<rparr>)))"
      and ib': "idle_in ib'" and ob': "idle_in ob'"
  proof (rule closure_moves [of ?w2 ?x2 y])
    fix ib' ob'
    assume "contents (input_buffer ?x2) \<noteq> [] \<Longrightarrow> idle_in ib'" "contents (input_buffer ?x2) = [] \<Longrightarrow> ib' = input_buffer ?x2"
      "run_cb H cb (Some c) ?w2 =
        Inr (put_conn p (y\<lparr>output_buffer := ob'\<rparr>) (put_conn c (?x2\<lparr>input_buffer := ib'\<rparr>)
          (?w2\<lparr>hist := wrote E (client_fd y) (contents (input_buffer ?x2)) (hist ?w2)\<rparr>)))" "idle_in ob'"
    then show ?thesis using that [of ob' ib'] b(2) y(1) idle_b by (cases "d = []") simp_all
  qed (use side ne p y acc fuel b(1,2) d in \<open>auto simp: side_put_conn side_hist\<close>)
  let ?v = "put_conn p (y\<lparr>output_buffer := ob'\<rparr>) (w\<lparr>hist := wrote E g d h'\<rparr>)"
  have ev: "conn_handle_event E H c w = Inr (put_conn c (x\<lparr>input_buffer := ib'\<rparr>) ?v)"
    using event [OF m, of "?x2\<lparr>input_buffer := ib'\<rparr>"] ne by simp
  show ?thesis
  proof (rule that [OF ev])
    show "linked c p cb f g (put_conn c (x\<lparr>input_buffer := ib'\<rparr>) ?v)"
      using ne x y ib' ob' by (simp add: linked_def input_event_def)
    show "side (put_conn c (x\<lparr>input_buffer := ib'\<rparr>) ?v)" using side by (simp add: side_put_conn side_hist)
    show "got (hist (put_conn c (x\<lparr>input_buffer := ib'\<rparr>) ?v)) f = got (hist w) f @ d"
      using incoming_got [OF inc] by simp
    show "sent (hist (put_conn c (x\<lparr>input_buffer := ib'\<rparr>) ?v)) g = sent (hist w) g @ d"
      using incoming_frame [OF inc] acc by (simp add: sent_wrote)
  qed
qed

end

text \<open>Under the conditions of one event, any number of them.\<close>

definition flowing ::
  "env \<Rightarrow> (('cb, 'z) conn_world_scheme \<Rightarrow> bool) \<Rightarrow> nat \<Rightarrow> nat \<Rightarrow> 'cb \<Rightarrow> int \<Rightarrow> int
   \<Rightarrow> ('cb, 'z) conn_world_scheme \<Rightarrow> bool" where
  "flowing E side c p cb f g w \<longleftrightarrow> side w \<and> linked c p cb f g w \<and> streams E f \<and> accepts_all E g \<and> 0 < loop_fuel E"

sublocale forwarding \<subseteq> flow: byte_mover "conn_handle_event E H c" "flowing E side c p cb f g"
    "\<lambda>w. got (hist w) f" "\<lambda>w. sent (hist w) g" for f g
proof
  fix w
  assume "flowing E side c p cb f g w"
  then have flow: "side w" "linked c p cb f g w" "streams E f" "accepts_all E g" "0 < loop_fuel E"
    by (simp_all add: flowing_def)
  show "\<exists>w' d. conn_handle_event E H c w = Inr w' \<and> flowing E side c p cb f g w'
      \<and> got (hist w') f = got (hist w) f @ d \<and> sent (hist w') g = sent (hist w) g @ d"
    by (rule event_moves [OF flow]) (use flow in \<open>auto simp: flowing_def\<close>)
qed

section \<open>The closures of both programs\<close>

interpretation bridge_end: forwarding E "srv_hooks E (Suc n)" "srv_hooks E n" "Cb_forward p" c p "\<lambda>_. True" for E n c p
proof
  fix w :: NServer and x y
  assume "conns w c = Some x" "conns w p = Some y" "buf_ok (input_buffer x)" "contents (input_buffer x) \<noteq> []"
  then show "run_cb (srv_hooks E (Suc n)) (Cb_forward p) (Some c) w = relay E (srv_hooks E n) p c w"
    by (simp add: srv_run_cb_forward forward_cb_def readable_iff expired_def del: srv_run_cb.simps)
next
  fix w :: NServer and x
  assume "conns w c = Some x" "buf_ok (input_buffer x)" "contents (input_buffer x) = []"
  then show "run_cb (srv_hooks E (Suc n)) (Cb_forward p) (Some c) w = Inr w"
    by (simp add: srv_run_cb_forward forward_cb_nothing del: srv_run_cb.simps)
qed simp_all

text \<open>The connection \<open>p\<close> is what one of the two clients of the data channel \<open>d\<close> is connected with.\<close>

definition dc_peer :: "(DataChannel \<Rightarrow> nat) \<Rightarrow> nat \<Rightarrow> nat \<Rightarrow> NClient \<Rightarrow> bool" where
  "dc_peer client_of d p w \<longleftrightarrow>
     (case dcs w d of None \<Rightarrow> False
      | Some x \<Rightarrow> (case clients w (client_of x) of None \<Rightarrow> False | Some q \<Rightarrow> cl_conn q = Some p))"

lemma dc_peerE:
  assumes "dc_peer client_of d p w"
  obtains x q where "dcs w d = Some x" and "clients w (client_of x) = Some q" and "cl_conn q = Some p"
  using assms by (auto simp: dc_peer_def split: option.splits)

lemma dc_peer_frame [simp]:
  "dc_peer client_of d p (put_conn c z w) = dc_peer client_of d p w"
  "dc_peer client_of d p (w\<lparr>hist := h\<rparr>) = dc_peer client_of d p w"
  by (simp_all add: dc_peer_def put_conn_def split: option.split)

lemma dc_closures:
  "cli_run_cb E (Suc n) (Cb_to_service d) (Some c) w =
     bindR (the_dc d w) (\<lambda>x. forward_to_client E (cli_hooks E n) (service_client x) c w)"
  "cli_run_cb E (Suc n) (Cb_to_server d) (Some c) w =
     bindR (the_dc d w) (\<lambda>x. forward_to_client E (cli_hooks E n) (server_client x) c w)"
  by (simp_all only: cli_run_cb.simps Let_def cli_hooks_def [symmetric] prod.case cli_cb.case option.case)

lemma forward_to_client_relays:
  assumes "clients w k = Some q" and "cl_conn q = Some p" and "conns w c = Some x" and "buf_ok (input_buffer x)"
  shows "forward_to_client E H k c w = (if contents (input_buffer x) = [] then Inr w else relay E H p c w)"
  using assms by (simp add: forward_to_client_def readable_iff get_connection_def)

lemma dc_forwards:
  assumes "conns w c = Some x" and "buf_ok (input_buffer x)"
  shows "dc_peer service_client d p w \<Longrightarrow> run_cb (cli_hooks E (Suc n)) (Cb_to_service d) (Some c) w =
      (if contents (input_buffer x) = [] then Inr w else relay E (cli_hooks E n) p c w)"
    and "dc_peer server_client d p w \<Longrightarrow> run_cb (cli_hooks E (Suc n)) (Cb_to_server d) (Some c) w =
      (if contents (input_buffer x) = [] then Inr w else relay E (cli_hooks E n) p c w)"
proof -
  have run: "run_cb (cli_hooks E (Suc n)) = cli_run_cb E (Suc n)" by (simp add: cli_hooks_def)
  show "dc_peer service_client d p w \<Longrightarrow> run_cb (cli_hooks E (Suc n)) (Cb_to_service d) (Some c) w =
      (if contents (input_buffer x) = [] then Inr w else relay E (cli_hooks E n) p c w)"
    unfolding run dc_closures by (erule dc_peerE) (simp add: forward_to_client_relays [OF _ _ assms])
  show "dc_peer server_client d p w \<Longrightarrow> run_cb (cli_hooks E (Suc n)) (Cb_to_server d) (Some c) w =
      (if contents (input_buffer x) = [] then Inr w else relay E (cli_hooks E n) p c w)"
    unfolding run dc_closures by (erule dc_peerE) (simp add: forward_to_client_relays [OF _ _ assms])
qed

interpretation to_service: forwarding E "cli_hooks E (Suc n)" "cli_hooks E n" "Cb_to_service d" c p
    "dc_peer service_client d p" for E n c p d
  by unfold_locales (simp_all add: dc_forwards)

interpretation to_server: forwarding E "cli_hooks E (Suc n)" "cli_hooks E n" "Cb_to_server d" c p
    "dc_peer server_client d p" for E n c p d
  by unfold_locales (simp_all add: dc_forwards)

lemma newly_eq:
  assumes "got h' f = got h f @ d" and "sent k' g = sent k g @ d"
  shows "newly_got h h' f = newly_sent k k' g"
  using assms by (simp add: newly_got_def newly_sent_def)

end
