(* ===== verification/Examples.thy ===== *)
theory Examples
  imports TunnelStream ServerEvolution Config
begin

text \<open>
  The programs under \<^verbatim>\<open>example/\<close>: small clients of the library, with an event loop (\<^verbatim>\<open>echo/serv.cpp\<close>,
  \<^verbatim>\<open>echo/cli.cpp\<close>) and without one (\<^verbatim>\<open>buffer\<close>, \<^verbatim>\<open>protobuf\<close>, \<^verbatim>\<open>uuid\<close>, \<^verbatim>\<open>toml\<close>). What they print is
  the value they return; the texts around it are not kept.
\<close>

section \<open>The echo server\<close>

datatype echo_srv_cb = Cb_echo

type_synonym echo_world = "echo_srv_cb srv_world"

definition echo_message ::
  "env \<Rightarrow> (echo_srv_cb, echo_world) hooks \<Rightarrow> nat \<Rightarrow> echo_world \<Rightarrow> echo_world res" where
  "echo_message E H conn w =
     bindR (deref conn w) (\<lambda>x.
     bindR (RetrieveAllAsString (input_buffer x)) (\<lambda>(msg, buf).
       let w1 = put_conn conn (x\<lparr>input_buffer := buf\<rparr>) w
       in if msg \<noteq> [] then Send E H conn msg w1 else Inr w1))"

primrec echo_run_cb :: "env \<Rightarrow> nat \<Rightarrow> echo_srv_cb \<Rightarrow> nat option \<Rightarrow> echo_world \<Rightarrow> echo_world res" where
  "echo_run_cb E 0 = (\<lambda>cb a w. Inl Fuel_Exhausted)"
| "echo_run_cb E (Suc n) = (\<lambda>cb a w.
     case a of
       Some c \<Rightarrow> echo_message E \<lparr>run_cb = echo_run_cb E n, run_close = srv_run_close E\<rparr> c w
     | None \<Rightarrow> Inl Undefined_Behaviour)"

definition echo_hooks :: "env \<Rightarrow> nat \<Rightarrow> (echo_srv_cb, echo_world) hooks" where
  "echo_hooks E n = \<lparr>run_cb = echo_run_cb E n, run_close = srv_run_close E\<rparr>"

definition EchoServer_new ::
  "env \<Rightarrow> bytes \<Rightarrow> u16 \<Rightarrow> int \<Rightarrow> echo_world \<Rightarrow> (nat \<times> echo_world) res" where
  "EchoServer_new E ip port backlog w =
     bindR (Server_new_ip E ip port backlog w) (\<lambda>(s, w1).
     bindR (bind_on_message s Cb_echo w1) (\<lambda>w2. Inr (s, w2)))"

definition EchoServer_start :: "env \<Rightarrow> nat \<Rightarrow> nat \<Rightarrow> echo_world \<Rightarrow> echo_world option res" where
  "EchoServer_start E depth n w = Server_start E (echo_hooks E depth) n w"

text \<open>The loop is deleted when it has stopped; the server object is not.\<close>

definition echo_serv_main :: "env \<Rightarrow> nat \<Rightarrow> nat \<Rightarrow> echo_world \<Rightarrow> echo_world option res" where
  "echo_serv_main E depth n w =
     bindR (EventLoop_new E w) (\<lambda>w1.
     bindR (EchoServer_new E ''0.0.0.0'' 6666 10 w1) (\<lambda>(s, w2).
     bindR (EchoServer_start E depth n w2) (\<lambda>r. case r of
        None \<Rightarrow> Inr None
      | Some w3 \<Rightarrow> bindR (EventLoop_destroy E w3) (\<lambda>w4. Inr (Some w4)))))"

section \<open>The echo client\<close>

datatype echo_cli_cb = Cb_welcome | Cb_recv

type_synonym echo_cli_world = "echo_cli_cb cli_world"

definition echo_connected ::
  "env \<Rightarrow> (echo_cli_cb, echo_cli_world) hooks \<Rightarrow> nat \<Rightarrow> echo_cli_world \<Rightarrow> echo_cli_world res" where
  "echo_connected E H conn w = Send E H conn ''welcome to ncx!'' w"

definition echo_received ::
  "env \<Rightarrow> (echo_cli_cb, echo_cli_world) hooks \<Rightarrow> nat \<Rightarrow> echo_cli_world \<Rightarrow> echo_cli_world res" where
  "echo_received E H conn w =
     bindR (deref conn w) (\<lambda>x.
     bindR (RetrieveAllAsString (input_buffer x)) (\<lambda>(msg, buf).
     bindR (Send E H conn msg (put_conn conn (x\<lparr>input_buffer := buf\<rparr>) w)) (\<lambda>w1.
       Inr (EventLoop_stop w1))))"

primrec echo_cli_run_cb ::
  "env \<Rightarrow> nat \<Rightarrow> echo_cli_cb \<Rightarrow> nat option \<Rightarrow> echo_cli_world \<Rightarrow> echo_cli_world res" where
  "echo_cli_run_cb E 0 = (\<lambda>cb a w. Inl Fuel_Exhausted)"
| "echo_cli_run_cb E (Suc n) = (\<lambda>cb a w.
     let H = \<lparr>run_cb = echo_cli_run_cb E n, run_close = cli_run_close E (echo_cli_run_cb E n)\<rparr> in
     case a of
       Some c \<Rightarrow> (case cb of Cb_welcome \<Rightarrow> echo_connected E H c w | Cb_recv \<Rightarrow> echo_received E H c w)
     | None \<Rightarrow> Inl Undefined_Behaviour)"

definition echo_cli_hooks :: "env \<Rightarrow> nat \<Rightarrow> (echo_cli_cb, echo_cli_world) hooks" where
  "echo_cli_hooks E n = \<lparr>run_cb = echo_cli_run_cb E n, run_close = cli_run_close E (echo_cli_run_cb E n)\<rparr>"

definition EchoClient_new :: "env \<Rightarrow> sockaddr_in \<Rightarrow> echo_cli_world \<Rightarrow> (nat \<times> echo_cli_world) res" where
  "EchoClient_new E addr w =
     bindR (Client_new E addr w) (\<lambda>(k, w1).
     bindR (set_on_connect_cb k Cb_welcome w1) (\<lambda>w2.
     bindR (set_on_message_cb k Cb_recv w2) (\<lambda>w3. Inr (k, w3))))"

definition EchoClient_run ::
  "env \<Rightarrow> nat \<Rightarrow> nat \<Rightarrow> nat \<Rightarrow> echo_cli_world \<Rightarrow> echo_cli_world option res" where
  "EchoClient_run E depth n k w =
     (let H = echo_cli_hooks E depth in
      bindR (Client_connect E H k w)
        (EventLoop_run E (loop_turn E cli_set_revs (cli_handle_event E H) (cli_run_task E H)) n))"

text \<open>\<^verbatim>\<open>main\<close> up to the endless loop after the client is deleted.\<close>

definition echo_cli_main :: "env \<Rightarrow> nat \<Rightarrow> nat \<Rightarrow> echo_cli_world \<Rightarrow> echo_cli_world option res" where
  "echo_cli_main E depth n w =
     bindR (EventLoop_new E w) (\<lambda>w1.
     bindR (EchoClient_new E (InetAddress E ''0.0.0.0'' 6666) w1) (\<lambda>(k, w2).
     bindR (EchoClient_run E depth n k w2) (\<lambda>r. case r of
        None \<Rightarrow> Inr None
      | Some w3 \<Rightarrow> bindR (Client_destroy E (echo_cli_hooks E depth) k w3) (\<lambda>w4. Inr (Some w4)))))"

section \<open>Programs without a loop\<close>

definition test_message :: bytes where
  "test_message = ''hello ncx''"

definition test_buffer_main :: "bytes list res" where
  "test_buffer_main =
     bindR (Append_cstr (test_message @ [CHR 0x00]) Buffer_new) (\<lambda>b1.
     bindR (RetrieveAllAsString b1) (\<lambda>(recv1, b2).
     bindR (Append_str test_message b2) (\<lambda>b3.
     bindR (RetrieveAsString (of_nat (length test_message)) b3) (\<lambda>(recv2, b4).
       Inr [recv1, recv2]))))"

text \<open>What is printed: whether parsing succeeded, and the type of the message that was read.\<close>

definition test_hello :: "wire_lib \<Rightarrow> buffer \<Rightarrow> ((bool \<times> u32) \<times> buffer) res" where
  "test_hello W buffer =
     (let hello = set_hello_type CONTROL_CHANNEL_HELLO Hello_new;
          send_msg = SerializeAsString W (Hello_ByteSizeLong W hello) (Hello_InternalSerialize W hello)
      in bindR (Append_str send_msg buffer) (\<lambda>b1.
         bindR (RetrieveAllAsString b1) (\<lambda>(recv_msg, b2).
         let (ok, hello_recv) = parse_Hello W recv_msg
         in Inr ((ok, hello_type hello_recv), b2))))"

definition test_msg_header :: "wire_lib \<Rightarrow> nat list" where
  "test_msg_header W =
     map (\<lambda>v. let msg_header = set_message_length v MessageHeader_new
              in length (SerializeAsString W (MessageHeader_ByteSizeLong msg_header)
                   (MessageHeader_InternalSerialize W msg_header)))
       [100, 10000]"

definition test_uuid_main :: "env \<Rightarrow> 'z reactor_scheme \<Rightarrow> bytes list" where
  "test_uuid_main E w =
     (let (id_str, w1) = GenerateUUIDAsString E w; (id_str2, w2) = GenerateUUIDAsString E w1
      in [id_str, id_str2])"

text \<open>
  The configuration reader of \<^verbatim>\<open>toml/test_toml.cpp\<close>. The checks for \<^verbatim>\<open>client.server_ip\<close> and
  \<^verbatim>\<open>client.server_port\<close> stand behind a \<^verbatim>\<open>throw\<close>; a field that is missing or of another type is a
  null pointer that is followed.
\<close>

record toml_service =
  ts_name :: bytes
  ts_ip :: bytes
  ts_port :: u32
  ts_proxy :: u32

definition string_at :: "'n toml_lib \<Rightarrow> 'n \<Rightarrow> bytes \<Rightarrow> bytes res" where
  "string_at T t path =
     (case t_at_path T t path of
        Some n \<Rightarrow> if t_is_string T n then Inr (t_get_string T n) else Inl Undefined_Behaviour
      | None \<Rightarrow> Inl Undefined_Behaviour)"

definition integer_at :: "'n toml_lib \<Rightarrow> 'n \<Rightarrow> bytes \<Rightarrow> u32 res" where
  "integer_at T t path =
     (case t_at_path T t path of
        Some n \<Rightarrow> if t_is_integer T n then Inr (int_of_toml (t_get_integer T n)) else Inl Undefined_Behaviour
      | None \<Rightarrow> Inl Undefined_Behaviour)"

definition read_toml_service :: "'n toml_lib \<Rightarrow> bytes \<times> 'n \<Rightarrow> toml_service list \<Rightarrow> toml_service list res" where
  "read_toml_service T e acc =
     (if fst e = ''client'' then Inr acc
      else case t_as_table T (snd e) of
        None \<Rightarrow> Inl Undefined_Behaviour
      | Some t \<Rightarrow>
          bindR (string_at T t ''service_ip'') (\<lambda>ip.
          bindR (integer_at T t ''service_port'') (\<lambda>port.
          bindR (integer_at T t ''proxy_port'') (\<lambda>proxy.
            Inr (acc @ [\<lparr>ts_name = fst e, ts_ip = ip, ts_port = port, ts_proxy = proxy\<rparr>])))))"

definition test_toml_main :: "'n toml_lib \<Rightarrow> (bytes \<times> u32 \<times> toml_service list) res" where
  "test_toml_main T =
     (case t_parse_file T ''example_client.toml'' of
        Inl e \<Rightarrow> Inl (Thrown e)
      | Inr config \<Rightarrow>
          if t_empty T config then Inl (Thrown ''Failed To Parse Client Config File!'')
          else (case t_as_table T config of
            None \<Rightarrow> Inl Undefined_Behaviour
          | Some t \<Rightarrow>
              if t_at_path T t ''client'' = None
              then Inl (Thrown ''Failed To Parse Client Config File! [ client didn't exist !]'')
              else
                bindR (string_at T t ''client.server_ip'') (\<lambda>ip.
                bindR (integer_at T t ''client.server_port'') (\<lambda>port.
                bindR (foldR (read_toml_service T) (t_for_each T t) []) (\<lambda>services.
                  Inr (ip, port, services))))))"

section \<open>What they do\<close>

text \<open>The buffer example prints its message twice.\<close>

theorem test_buffer_prints: "test_buffer_main = Inr [test_message, test_message]"
proof -
  have len: "length test_message = 9" by (simp add: test_message_def)
  have "Append_cstr (test_message @ [CHR 0x00]) Buffer_new = Append (test_message @ [CHR 0x00]) (of_nat (length test_message)) Buffer_new"
    by (simp add: Append_cstr_def strlen_def test_message_def)
  also have "\<dots> = Append_str test_message Buffer_new"
    unfolding Append_str_def Append_def using len by (simp add: slice_def)
  finally have cstr: "Append_cstr (test_message @ [CHR 0x00]) Buffer_new = Append_str test_message Buffer_new" .
  obtain b1 where b1: "Append_str test_message Buffer_new = Inr b1" "buf_ok b1" "contents b1 = test_message"
    using Append_ok [OF buf_ok_new, of test_message] room_new [of 9] len contents_new by auto
  have "room (RetrieveAll b1) 9" by (simp add: room_def RetrieveAll_def kPrePendIndex_def max_size_def)
  then obtain b3 where b3: "Append_str test_message (RetrieveAll b1) = Inr b3" "buf_ok b3" "contents b3 = test_message"
    using Append_ok [OF RetrieveAll_ok(1) [OF b1(2)], of test_message] RetrieveAll_ok(2) len by auto
  obtain b4 where "RetrieveAsString (of_nat (length test_message)) b3 = Inr (take 9 test_message, b4)"
    using RetrieveAsString_ok [OF b3(2), of 9] b3(3) len by auto
  then show ?thesis
    using cstr b1 b3 len by (simp add: test_buffer_main_def RetrieveAllAsString_ok)
qed

text \<open>A message header takes five bytes whatever the length in it: \<^verbatim>\<open>message_length\<close> is a \<^verbatim>\<open>fixed32\<close>.\<close>

theorem test_msg_header_prints:
  assumes "protobuf_runtime W"
  shows "test_msg_header W = [5, 5]"
  using assms
  by (simp add: test_msg_header_def Let_def set_message_length_def MessageHeader_new_def
      MessageHeader_ByteSizeLong_def MessageHeader_InternalSerialize_def
      protobuf_runtime.serialize_body protobuf_runtime.fixed32_length del: One_nat_def)

text \<open>The \<^verbatim>\<open>Hello\<close> that went through the buffer is parsed, and is of the type it was given.\<close>

theorem test_hello_prints:
  assumes W: "protobuf_runtime W" "valid_utf8 W []"
  obtains b where "test_hello W Buffer_new = Inr ((True, CONTROL_CHANNEL_HELLO), b)" and "contents b = []"
proof -
  let ?h = "set_hello_type CONTROL_CHANNEL_HELLO Hello_new"
  have canonical: "Hello_canonical W ?h"
    using W(2) by (simp add: set_hello_type_def Hello_new_def Hello_canonical_def)
  have size: "Hello_ByteSizeLong W ?h \<le> 11"
    using protobuf_runtime.enum_size_bound [OF W(1), of CONTROL_CHANNEL_HELLO]
    by (simp add: Hello_ByteSizeLong_def set_hello_type_def Hello_new_def)
  have len: "length (Hello_InternalSerialize W ?h) \<le> 11"
    using protobuf_runtime.hello_size [OF W(1), of ?h] size by simp
  obtain b1 where "Append_str (Hello_InternalSerialize W ?h) Buffer_new = Inr b1" "buf_ok b1"
      "contents b1 = Hello_InternalSerialize W ?h"
    using Append_ok [OF buf_ok_new, of "Hello_InternalSerialize W ?h"] room_new len contents_new by auto
  moreover have "SerializeAsString W (Hello_ByteSizeLong W ?h) (Hello_InternalSerialize W ?h) = Hello_InternalSerialize W ?h"
    using size by (intro protobuf_runtime.serialize_body [OF W(1)]) simp
  ultimately show ?thesis
    using that [of "RetrieveAll b1"] protobuf_runtime.parse_hello [OF W(1) canonical] RetrieveAll_ok
    by (simp add: test_hello_def RetrieveAllAsString_ok set_hello_type_def)
qed

text \<open>
  The echo server's connections only advance, whatever happens to them: a closure that answers runs
  under the same contract as the closures of the tunnel.
\<close>

lemma echo_hooks_evolve:
  assumes "\<And>cb a w. after conns_evolve w (echo_run_cb E n cb a w)"
  shows "server_evolution conns_evolve (echo_hooks E n)"
  using assms by unfold_locales (simp_all add: echo_hooks_def advancing.srv_run_close_R)

lemma echo_run_cb_evolves: "after conns_evolve w (echo_run_cb E n cb a w)"
proof (induction n arbitrary: cb a w)
  case (Suc n)
  have "after conns_evolve v (if m \<noteq> [] then Send E (echo_hooks E n) c m v else Inr v)" for c m v
    using server_evolution.axioms(2) [OF echo_hooks_evolve [OF Suc]]
    by (simp add: hooks_evolution.Send_R)
  then show ?case
    unfolding echo_run_cb.simps echo_hooks_def [symmetric] echo_message_def
    by (cases a) (auto intro: evolving.after_consume)
qed simp

interpretation echoing: server_evolution conns_evolve "echo_hooks E n" for E n
  by (rule echo_hooks_evolve) (rule echo_run_cb_evolves)

theorem echo_connections_advance: "srv_loop_turn E (echo_hooks E n) w = Inr w' \<Longrightarrow> conns_evolve w w'"
  unfolding srv_loop_turn_def by (rule afterD [OF echoing.srv_loop_turn_R])

text \<open>
  A connection of the echo server at rest, and its next input events: every byte that came in goes
  out on the same socket, in order and once.
\<close>

definition echo_ready :: "env \<Rightarrow> nat \<Rightarrow> int \<Rightarrow> echo_world \<Rightarrow> bool" where
  "echo_ready E c f w \<longleftrightarrow> streams E f \<and> accepts_all E f \<and> 0 < loop_fuel E \<and>
     (\<exists>x. conns w c = Some x \<and> on_message x = Some Cb_echo \<and> client_fd x = f \<and> input_event c x
       \<and> 1 \<le> use_count x \<and> idle_in (input_buffer x) \<and> idle_in (output_buffer x))"

lemma echo_message_answers:
  assumes x: "conns w c = Some x" and ib: "buf_ok (input_buffer x)" "length (contents (input_buffer x)) < 2 ^ 62"
    and ob: "idle_in (output_buffer x)" and acc: "accepts_all E (client_fd x)" and fuel: "0 < loop_fuel E"
  obtains b where "echo_message E H c w =
      Inr (put_conn c (x\<lparr>input_buffer := RetrieveAll (input_buffer x), output_buffer := b\<rparr>)
        (w\<lparr>hist := wrote E (client_fd x) (contents (input_buffer x)) (hist w)\<rparr>))"
    and "idle_in b"
proof (cases "contents (input_buffer x) = []")
  case True
  with that [of "output_buffer x"] x ib ob show ?thesis
    by (simp add: echo_message_def RetrieveAllAsString_ok wrote_def)
next
  case False
  let ?x = "x\<lparr>input_buffer := RetrieveAll (input_buffer x)\<rparr>"
  have ob': "buf_ok (output_buffer ?x)" "room (output_buffer ?x) (length (contents (input_buffer x)))"
      "contents (output_buffer x) = []"
    using ob idle_room [OF ob ib(2)] by (simp_all add: idle_in_def)
  obtain b where "Send E H c (contents (input_buffer x)) (put_conn c ?x w) =
      Inr (put_conn c (?x\<lparr>output_buffer := b\<rparr>)
        ((put_conn c ?x w)\<lparr>hist := wrote E (client_fd ?x) (contents (output_buffer ?x) @ contents (input_buffer x)) (hist (put_conn c ?x w))\<rparr>))"
      "buf_ok b" "contents b = []" "write_index b = kPrePendIndex"
    by (rule Send_all [of "put_conn c ?x w" c ?x E "contents (input_buffer x)" H])
       (use acc ob' fuel in auto)
  with that [of b] x ib False ob'(3) show ?thesis
    by (simp add: echo_message_def RetrieveAllAsString_ok idle_in_def)
qed

lemma echo_run_cb_Suc: "run_cb (echo_hooks E (Suc n)) Cb_echo (Some c) w = echo_message E (echo_hooks E n) c w"
  by (simp add: echo_hooks_def)

interpretation echo: byte_mover "conn_handle_event E (echo_hooks E (Suc n)) c" "echo_ready E c f"
    "\<lambda>w. got (hist w) f" "\<lambda>w. sent (hist w) f" for E n c f
proof
  fix w
  assume "echo_ready E c f w"
  then obtain x where x: "conns w c = Some x" "on_message x = Some Cb_echo" "client_fd x = f" "input_event c x"
      "1 \<le> use_count x" "idle_in (input_buffer x)" "idle_in (output_buffer x)"
    and env: "streams E f" "accepts_all E f" "0 < loop_fuel E"
    unfolding echo_ready_def by blast
  have str: "streams E (client_fd x)" using env(1) x(3) by simp
  obtain d h' b where inc: "incoming E f (loop_fuel E) (hist w) = Some (d, Read_again, h')" and d: "length d < 2 ^ 62"
    and b: "buf_ok b" "contents b = d"
    and event: "\<And>v z. run_cb (echo_hooks E (Suc n)) Cb_echo (Some c)
          (put_conn c (x\<lparr>input_buffer := b, use_count := use_count x + 2\<rparr>) (w\<lparr>hist := h'\<rparr>)) = Inr v
      \<Longrightarrow> conns v c = Some z \<Longrightarrow> use_count z = use_count x + 2 \<Longrightarrow> c_channel z = c_channel x
      \<Longrightarrow> conn_handle_event E (echo_hooks E (Suc n)) c w = Inr (put_conn c (z\<lparr>use_count := use_count x\<rparr>) v)"
    by (rule message_event [OF x(1,2,4-6) str, of "echo_hooks E (Suc n)", unfolded x(3)]) blast
  let ?x = "x\<lparr>input_buffer := b, use_count := use_count x + 2\<rparr>"
  obtain b' where m: "echo_message E (echo_hooks E n) c (put_conn c ?x (w\<lparr>hist := h'\<rparr>)) =
      Inr (put_conn c (?x\<lparr>input_buffer := RetrieveAll b, output_buffer := b'\<rparr>) (w\<lparr>hist := wrote E f d h'\<rparr>))"
      and b': "idle_in b'"
    by (rule echo_message_answers [of "put_conn c ?x (w\<lparr>hist := h'\<rparr>)" c ?x E "echo_hooks E n"])
       (use b d x env in auto)
  have "conn_handle_event E (echo_hooks E (Suc n)) c w =
      Inr (put_conn c (x\<lparr>input_buffer := RetrieveAll b, output_buffer := b'\<rparr>) (w\<lparr>hist := wrote E f d h'\<rparr>))"
    by (subst event [OF trans [OF echo_run_cb_Suc m], of "?x\<lparr>input_buffer := RetrieveAll b, output_buffer := b'\<rparr>"]) simp_all
  moreover have "got (wrote E f d h') f = got (hist w) f @ d" "sent (wrote E f d h') f = sent (hist w) f @ d"
    using incoming_got [OF inc] incoming_frame [OF inc] env by (simp_all add: sent_wrote)
  ultimately show "\<exists>w' d. conn_handle_event E (echo_hooks E (Suc n)) c w = Inr w' \<and> echo_ready E c f w'
      \<and> got (hist w') f = got (hist w) f @ d \<and> sent (hist w') f = sent (hist w) f @ d"
    using x env b(1) b' by (auto simp: echo_ready_def input_event_def RetrieveAll_idle)
qed

theorem echo_answers_everything:
  assumes "echo_ready E c f w"
  obtains w' where "repeat k (conn_handle_event E (echo_hooks E (Suc n)) c) w = Inr w'" and "echo_ready E c f w'"
    and "newly_sent (hist w) (hist w') f = newly_got (hist w) (hist w') f"
  by (rule echo.repeat_moves [OF assms, of k n]) (use that newly_eq in metis)

end
