(* ===== verification/ClientOpening.thy ===== *)
theory ClientOpening
  imports TunnelStream
begin

text \<open>
  How the tunnel client opens its connections: what \<^verbatim>\<open>Client::connect\<close> does on the loop's thread when
  the peer accepts, and with it the three things that open one: the start of a control channel, the
  command to create a data channel, and the command to start forwarding.
\<close>

section \<open>Sockets that connect\<close>

text \<open>
  The code ignores the answer of the first \<^verbatim>\<open>connect\<close> and relies on the second, made when the attempt
  is over, to return 0: what Linux answers once for a connection that was established meanwhile.
\<close>

definition connects :: "env \<Rightarrow> int \<Rightarrow> sockaddr_in \<Rightarrow> bool" where
  "connects E f a \<longleftrightarrow> (\<forall>h. Sys_connect f a \<in> fst ` set h \<longrightarrow> ret (kern E h (Sys_connect f a)) = 0)"

definition opens_sockets :: "env \<Rightarrow> bool" where
  "opens_sockets E \<longleftrightarrow> (\<forall>h f n. ret (kern E h (Sys_fcntl_getfl f)) \<noteq> -1 \<and> ret (kern E h (Sys_fcntl_setfl f n)) \<noteq> -1)"

text \<open>Calls that move no bytes, close nothing and change no registration.\<close>

definition still :: "history \<Rightarrow> history \<Rightarrow> bool" where
  "still h h' \<longleftrightarrow> sent h' = sent h \<and> closed h' = closed h \<and> interest h' = interest h \<and> set h \<subseteq> set h'"

lemma still_refl [simp, intro]: "still h h"
  by (simp add: still_def)

lemma still_trans [trans]: "still h h1 \<Longrightarrow> still h1 h2 \<Longrightarrow> still h h2"
  by (auto simp: still_def)

lemma still_call:
  assumes "\<And>f bs. c \<noteq> Sys_write f bs" and "\<And>f. c \<noteq> Sys_close f" and "\<And>e p f v q. c \<noteq> Sys_epoll_ctl e p f v q"
  shows "still h ((c, r) # h)"
  by (cases c) (use assms in \<open>blast | simp add: still_def fun_eq_iff subset_insertI\<close>)+

lemma TcpSocket_connect_ok:
  assumes "connects E f a"
  obtains h' where "TcpSocket_connect E \<lparr>fd = f, is_nonblock = Some True\<rparr> a h = Inr h'" and "still h h'"
proof -
  let ?s = "\<lparr>fd = f, is_nonblock = Some True\<rparr>"
  obtain h1 where h1: "connect_on_nonblocking E ?s a h = (True, h1)"
    using connect_on_nonblocking_true [of E ?s a h] by (cases "connect_on_nonblocking E ?s a h") auto
  then have s1: "still h h1" and again: "Sys_connect f a \<in> fst ` set h1"
    by (auto simp: connect_on_nonblocking_def sys_def Let_def still_def fun_eq_iff split: if_splits)
  let ?r = "kern E h1 (Sys_connect f a)"
  have "ret ?r = 0" using assms again by (auto simp: connects_def)
  then show ?thesis
    using that [of "(Sys_connect f a, ?r) # h1"] h1 still_trans [OF s1 still_call]
    by (simp add: TcpSocket_connect_def errif_def sys_def Let_def)
qed

lemma TcpSocket_new_ok:
  assumes "opens_sockets E"
  obtains f h' where "TcpSocket_new E True h = Inr (\<lparr>fd = f, is_nonblock = Some True\<rparr>, h')" and "still h h'"
    and "f = ret (kern E h (Sys_socket False))"
proof -
  let ?f = "ret (kern E h (Sys_socket False))"
  let ?h1 = "(Sys_socket False, kern E h (Sys_socket False)) # h"
  let ?g = "kern E ?h1 (Sys_fcntl_getfl ?f)"
  let ?h2 = "(Sys_fcntl_getfl ?f, ?g) # ?h1"
  let ?c = "Sys_fcntl_setfl ?f (ret ?g OR O_NONBLOCK)"
  have "TcpSocket_new E True h = Inr (\<lparr>fd = ?f, is_nonblock = Some True\<rparr>, (?c, kern E ?h2 ?c) # ?h2)"
    using assms by (simp add: opens_sockets_def TcpSocket_new_def errif_def sys_def Let_def)
  then show ?thesis
    by (rule that) (auto simp: still_def fun_eq_iff)
qed

section \<open>A client comes up\<close>

lemma in_loop_next_ref [simp]: "in_loop (w\<lparr>next_ref := n\<rparr>) = in_loop w"
  by (simp add: in_loop_def)

lemma put_next_ref [simp]:
  "(put_client k x w)\<lparr>next_ref := n\<rparr> = put_client k x (w\<lparr>next_ref := n\<rparr>)"
  "(put_conn c y v)\<lparr>next_ref := n\<rparr> = put_conn c y (v\<lparr>next_ref := n\<rparr>)"
  by (simp_all add: put_client_def put_conn_def)

text \<open>A client as its constructor leaves it, before anything is connected.\<close>

definition unconnected :: "int \<Rightarrow> sockaddr_in \<Rightarrow> 'cb client \<Rightarrow> bool" where
  "unconnected f a x \<longleftrightarrow> cl_conn x = None \<and> \<not> connected x \<and> cn_state (cl_connector x) = kDisconnected
     \<and> cn_server_addr (cl_connector x) = a \<and> cn_socket (cl_connector x) = \<lparr>fd = f, is_nonblock = Some True\<rparr>"

lemma Client_new_ok:
  assumes "opens_sockets E"
  obtains x h f where "Client_new E a w =
      Inr (next_client w, put_client (next_client w) x (w\<lparr>next_client := Suc (next_client w), hist := h\<rparr>))"
    and "unconnected f a x" and "still (hist w) h" and "f = ret (kern E (hist w) (Sys_socket False))"
    and "cl_on_connect x = None" and "cl_on_message x = None" and "cl_on_disconnect x = None"
proof -
  obtain f h where f: "TcpSocket_new E True (hist w) = Inr (\<lparr>fd = f, is_nonblock = Some True\<rparr>, h)" "still (hist w) h"
      "f = ret (kern E (hist w) (Sys_socket False))"
    using assms by (rule TcpSocket_new_ok)
  let ?x = "\<lparr>cl_connector = \<lparr>cn_server_addr = a, connect_flag = False, cn_socket = \<lparr>fd = f, is_nonblock = Some True\<rparr>,
      cn_channel = None, cn_state = kDisconnected\<rparr>, cl_on_connect = None, cl_on_message = None,
      cl_on_disconnect = None, connected = False, cl_conn = None, next_conn_id = 0\<rparr>"
  have "Client_new E a w = Inr (next_client w, put_client (next_client w) ?x
      (w\<lparr>next_client := Suc (next_client w), hist := h\<rparr>))"
    using f(1) by (simp add: Client_new_def Connector_new_def Let_def put_client_def)
  then show ?thesis by (rule that) (use f in \<open>simp_all add: unconnected_def\<close>)
qed

text \<open>The connection \<open>Client::connect\<close> makes, when the connect callback gets it.\<close>

definition dialed :: "nat \<Rightarrow> 'cb client \<Rightarrow> int \<Rightarrow> nat \<Rightarrow> 'cb connection \<Rightarrow> bool" where
  "dialed k x f c y \<longleftrightarrow>
     client_fd y = f \<and> c_state y = CONNECTED \<and> use_count y = 2
     \<and> on_conn y = cl_on_connect x \<and> on_message y = cl_on_message x
     \<and> on_close y = Some (Cb_removeConnection k) \<and> notice_on_close y = None
     \<and> input_buffer y = Buffer_new \<and> output_buffer y = Buffer_new
     \<and> ch_fd (c_channel y) = f \<and> is_epolled (c_channel y) \<and> tie (c_channel y) = Some c
     \<and> listen_events (c_channel y) = 3
     \<and> read_callback (c_channel y) = Some Cb_handle_data_in
     \<and> write_callback (c_channel y) = Some Cb_handle_data_out"

definition up_client :: "nat \<Rightarrow> 'cb client \<Rightarrow> 'cb client" where
  "up_client c x = x\<lparr>connected := True,
     cl_connector := (cl_connector x)\<lparr>connect_flag := True, cn_state := kConnected\<rparr>,
     next_conn_id := next_conn_id x + 1, cl_conn := Some c\<rparr>"

lemma up_client_simps [simp]:
  "cl_conn (up_client c x) = Some c" "connected (up_client c x)"
  "cl_on_connect (up_client c x) = cl_on_connect x" "cl_on_message (up_client c x) = cl_on_message x"
  "cl_on_disconnect (up_client c x) = cl_on_disconnect x"
  "cn_state (cl_connector (up_client c x)) = kConnected"
  by (simp_all add: up_client_def)

lemma newConnection_dials:
  assumes loop: "in_loop w" and k: "clients w k = Some x" "cl_conn x = None" and c: "c = next_ref w"
  obtains y h where
    "newConnection E H k f w =
       bindR (handle_conn E H c (put_client k (x\<lparr>next_conn_id := next_conn_id x + 1, cl_conn := Some c\<rparr>)
         (put_conn c y (w\<lparr>next_ref := Suc c, hist := h\<rparr>)))) (shared_drop E c)"
    and "dialed k x f c y" and "watched f (Chan_conn c) (hist w) h"
proof -
  obtain l h1 where l: "getLocalAddr E f (hist w) = (l, h1)" "quiet UNIV (hist w) h1"
    "interest h1 = interest (hist w)" by (rule addr_calls)
  obtain q h2 where q: "getPeerAddr E f h1 = (q, h2)" "quiet UNIV h1 h2" "interest h2 = interest h1"
    by (rule peer_calls)
  let ?x1 = "x\<lparr>next_conn_id := next_conn_id x + 1\<rparr>"
  let ?w1 = "put_client k ?x1 (w\<lparr>hist := h2\<rparr>)"
  obtain x3 h3 where x3: "Connection_new E f l q ?w1 = (c, put_conn c x3 (?w1\<lparr>next_ref := Suc c, hist := h3\<rparr>))"
      "blank_conn f x3" "watched f (Chan_conn c) h2 h3"
    by (rule Connection_new_blank [of E f l q ?w1]) (simp add: c)
  let ?w3 = "put_conn c x3 (?w1\<lparr>next_ref := Suc c, hist := h3\<rparr>)"
  obtain h4 where h4: "set_nonblocking E c ?w3 = Inr (?w3\<lparr>hist := h4\<rparr>)" "quiet UNIV h3 h4"
    "interest h4 = interest h3" using set_nonblocking_Some [of ?w3 c x3 E] by auto
  let ?x5 = "x3\<lparr>on_conn := cl_on_connect x, on_message := cl_on_message x,
      on_close := Some (Cb_removeConnection k), use_count := 2\<rparr>"
  let ?w5 = "put_client k (?x1\<lparr>cl_conn := Some c\<rparr>) (put_conn c ?x5 (w\<lparr>next_ref := Suc c, hist := h4\<rparr>))"
  obtain h6 where h6: "ConnectionEstablished E H c ?w5 =
      handle_conn E H c (put_conn c (?x5\<lparr>c_channel := (c_channel ?x5)\<lparr>tie := Some c\<rparr>, c_state := CONNECTED\<rparr>)
        (?w5\<lparr>hist := h6\<rparr>))" "quiet UNIV h4 h6"
      "interest h4 f = Some (3, Chan_conn c) \<Longrightarrow> interest h6 = interest h4"
    using ConnectionEstablished_Some [of ?w5 c ?x5 f E H] x3(2) by (auto simp: blank_conn_def)
  show ?thesis
  proof (rule that)
    show "dialed k x f c (?x5\<lparr>c_channel := (c_channel ?x5)\<lparr>tie := Some c\<rparr>, c_state := CONNECTED\<rparr>)"
      using x3(2) by (simp add: blank_conn_def dialed_def)
    show "watched f (Chan_conn c) (hist w) h6"
      using l q x3(3) h4 h6(2,3) by (auto simp: watched_def quiet_def)
    have uc: "use_count x3 = 1" using x3(2) by (simp add: blank_conn_def)
    show "newConnection E H k f w =
       bindR (handle_conn E H c (put_client k (x\<lparr>next_conn_id := next_conn_id x + 1, cl_conn := Some c\<rparr>)
         (put_conn c (?x5\<lparr>c_channel := (c_channel ?x5)\<lparr>tie := Some c\<rparr>, c_state := CONNECTED\<rparr>)
           (w\<lparr>next_ref := Suc c, hist := h6\<rparr>)))) (shared_drop E c)"
      using loop k h6(1) uc
      by (simp add: newConnection_def assertR_def l(1) q(1) x3(1) h4(1) [simplified] modify_client_def set_conn_handle_def
          set_message_handle_def set_close_handle_def numeral_2_eq_2)
  qed
qed

text \<open>\<^verbatim>\<open>Connector::startInLoop\<close>, and \<^verbatim>\<open>Client::connect\<close> when it is called on the loop's thread.\<close>

lemma startInLoop_dials:
  assumes loop: "in_loop w" and k: "clients w k = Some x" "unconnected f a (x\<lparr>connected := False\<rparr>)"
    and flag: "connect_flag (cl_connector x)" and conn: "connects E f a" and c: "c = next_ref w"
  obtains y h where
    "startInLoop E H k w =
       bindR (handle_conn E H c (put_client k (up_client c x\<lparr>connected := connected x\<rparr>)
         (put_conn c y (w\<lparr>next_ref := Suc c, hist := h\<rparr>)))) (shared_drop E c)"
    and "dialed k x f c y" and "watched f (Chan_conn c) (hist w) h"
proof -
  let ?cn = "cl_connector x"
  have x: "cl_conn x = None" "cn_state ?cn = kDisconnected" "cn_server_addr ?cn = a"
      "cn_socket ?cn = \<lparr>fd = f, is_nonblock = Some True\<rparr>"
    using k(2) by (simp_all add: unconnected_def)
  obtain h1 where h1: "TcpSocket_connect E \<lparr>fd = f, is_nonblock = Some True\<rparr> a (hist w) = Inr h1" "still (hist w) h1"
    using conn by (rule TcpSocket_connect_ok)
  let ?x1 = "x\<lparr>cl_connector := ?cn\<lparr>cn_state := kConnected\<rparr>\<rparr>"
  let ?w1 = "put_client k ?x1 (w\<lparr>hist := h1\<rparr>)"
  have start: "startInLoop E H k w = newConnection E H k f ?w1"
    using k(1) x flag h1(1)
    by (simp add: startInLoop_def assertR_def Connector_connect_def set_connector_def modify_client_def)
  obtain y h where y: "newConnection E H k f ?w1 =
       bindR (handle_conn E H c (put_client k (?x1\<lparr>next_conn_id := next_conn_id ?x1 + 1, cl_conn := Some c\<rparr>)
         (put_conn c y (?w1\<lparr>next_ref := Suc c, hist := h\<rparr>)))) (shared_drop E c)"
      "dialed k ?x1 f c y" "watched f (Chan_conn c) (hist ?w1) h"
    by (rule newConnection_dials [of ?w1 k ?x1 c E H f]) (use loop x c in simp_all)
  have "?x1\<lparr>next_conn_id := next_conn_id ?x1 + 1, cl_conn := Some c\<rparr> = up_client c x\<lparr>connected := connected x\<rparr>"
    using flag by (cases x; cases ?cn) (simp add: up_client_def)
  then show ?thesis
    using that [of y h] start y h1(2) by (simp add: dialed_def watched_def quiet_def still_def)
qed

lemma Client_connect_dials:
  assumes loop: "in_loop w" and k: "clients w k = Some x" "unconnected f a x"
    and conn: "connects E f a" and c: "c = next_ref w"
  obtains y h where
    "Client_connect E H k w =
       bindR (handle_conn E H c (put_client k (up_client c x)
         (put_conn c y (w\<lparr>next_ref := Suc c, hist := h\<rparr>)))) (shared_drop E c)"
    and "dialed k x f c y" and "watched f (Chan_conn c) (hist w) h"
proof -
  let ?x = "x\<lparr>connected := True, cl_connector := (cl_connector x)\<lparr>connect_flag := True\<rparr>\<rparr>"
  let ?w = "put_client k ?x w"
  have start: "Client_connect E H k w = startInLoop E H k ?w"
    using loop k by (simp add: Client_connect_def Connector_start_def set_connector_def modify_client_def
        unconnected_def)
  obtain y h where "startInLoop E H k ?w =
       bindR (handle_conn E H c (put_client k (up_client c ?x\<lparr>connected := connected ?x\<rparr>)
         (put_conn c y (?w\<lparr>next_ref := Suc c, hist := h\<rparr>)))) (shared_drop E c)"
      "dialed k ?x f c y" "watched f (Chan_conn c) (hist ?w) h"
    by (rule startInLoop_dials [of ?w k ?x f a E c H]) (use loop k conn c in \<open>simp_all add: unconnected_def\<close>)
  moreover have "up_client c ?x\<lparr>connected := connected ?x\<rparr> = up_client c x"
    by (cases x) (simp add: up_client_def)
  ultimately show ?thesis
    using that [of y h] start by (simp add: dialed_def)
qed

text \<open>The connect callback runs with one more reference; afterwards only the client's is left.\<close>

lemma dialed_callback:
  assumes y: "conns w c = Some y" "dialed k x f c y" and cb: "cl_on_connect x = Some cb"
    and run: "run_cb H cb (Some c) (put_conn c (y\<lparr>use_count := 3\<rparr>) w) = Inr v"
    and z: "conns v c = Some z" "use_count z = 3"
  shows "bindR (handle_conn E H c w) (shared_drop E c) = Inr (put_conn c (z\<lparr>use_count := 1\<rparr>) v)"
proof -
  have uc: "use_count y = 2" "on_conn y = Some cb" using y(2) cb by (simp_all add: dialed_def)
  have "handle_conn E H c w = holding E c (run_cb H cb (Some c)) w" using y(1) uc(2) by (simp add: handle_conn_def)
  also have "\<dots> = Inr (put_conn c (z\<lparr>use_count := use_count z - 1\<rparr>) v)"
    by (rule holding_Some [OF y(1) _ z(1)]) (use run uc z(2) in \<open>simp_all add: eval_nat_numeral\<close>)
  finally show ?thesis using z(2) by simp
qed

lemma dialed_no_callback:
  assumes "conns w c = Some y" and "dialed k x f c y" and "cl_on_connect x = None"
  shows "bindR (handle_conn E H c w) (shared_drop E c) = Inr (put_conn c (y\<lparr>use_count := 1\<rparr>) w)"
  using assms by (simp add: handle_conn_def dialed_def)

section \<open>A control channel starts\<close>

lemma cli_run_cb_handshakes:
  "run_cb (cli_hooks E (Suc n)) (Cb_control_handshake j) (Some c) w = do_control_channel_handshake E (cli_hooks E n) j c w"
  "run_cb (cli_hooks E (Suc n)) (Cb_data_handshake d) (Some c) w = do_data_channel_handshake E (cli_hooks E n) d c w"
  by (simp_all add: cli_hooks_def)

lemma control_handshake_state:
  assumes j: "ccs w j = Some x" "clients w (control_client x) = Some k" "cl_conn k = Some c"
    and c: "conns w c = Some y" "output_buffer y = Buffer_new"
    and m: "m = framed_Hello (wire E) (control_hello (a_service_name (cc_args x)) (a_proxy_port (cc_args x)))"
      "room Buffer_new (length m)"
    and acc: "accepts_all E (client_fd y)" and fuel: "0 < loop_fuel E"
  obtains b where "do_control_channel_handshake E H j c w =
      Inr (put_client (control_client x) (k\<lparr>cl_on_message := Some (Cb_wait_control_hello j)\<rparr>)
        (put_conn c (y\<lparr>on_message := Some (Cb_wait_control_hello j), output_buffer := b\<rparr>)
          (w\<lparr>hist := wrote E (client_fd y) m (hist w)\<rparr>)))"
    and "idle_in b"
proof -
  let ?y1 = "y\<lparr>on_message := Some (Cb_wait_control_hello j)\<rparr>"
  let ?w1 = "put_client (control_client x) (k\<lparr>cl_on_message := Some (Cb_wait_control_hello j)\<rparr>) (put_conn c ?y1 w)"
  have "set_on_message_cb (control_client x) (Cb_wait_control_hello j) w = Inr ?w1"
    using j c(1) by (simp add: set_on_message_cb_def set_message_handle_def Let_def)
  then have hs: "do_control_channel_handshake E H j c w = Send E H c m ?w1"
    using j(1) m by (simp add: do_control_channel_handshake_def control_hello_def Let_def)
  show ?thesis
    by (rule Send_all [of ?w1 c ?y1 E m H])
       (use c acc m fuel buf_ok_new hs that in \<open>simp_all add: contents_new idle_in_def\<close>)
qed

lemma data_handshake_state:
  assumes d: "dcs w d = Some x" and c: "conns w c = Some y" "output_buffer y = Buffer_new"
    and m: "m = framed_Hello (wire E) (data_hello (dc_nonce x))" "room Buffer_new (length m)"
    and acc: "accepts_all E (client_fd y)" and fuel: "0 < loop_fuel E"
  obtains b where "do_data_channel_handshake E H d c w =
      Inr (put_conn c (y\<lparr>output_buffer := b, on_message := Some (Cb_wait_start d)\<rparr>)
          (w\<lparr>hist := wrote E (client_fd y) m (hist w)\<rparr>))"
    and "idle_in b"
proof -
  have hs: "do_data_channel_handshake E H d c w =
      bindR (Send E H c m w) (set_message_handle c (Some (Cb_wait_start d)))"
    using d m by (simp add: do_data_channel_handshake_def data_hello_def)
  show ?thesis
    by (rule Send_all [of w c y E m H])
       (use c acc m fuel buf_ok_new hs that in \<open>simp_all add: contents_new set_message_handle_def idle_in_def\<close>)
qed

text \<open>A connection the client holds alone, open, with nothing waiting to be sent.\<close>

definition established :: "nat \<Rightarrow> nat \<Rightarrow> int \<Rightarrow> 'cb connection \<Rightarrow> bool" where
  "established k c f y \<longleftrightarrow> client_fd y = f \<and> c_state y = CONNECTED \<and> use_count y = 1
     \<and> on_close y = Some (Cb_removeConnection k) \<and> tie (c_channel y) = Some c \<and> ch_fd (c_channel y) = f
     \<and> read_callback (c_channel y) = Some Cb_handle_data_in \<and> idle_in (output_buffer y)"

lemma idle_new [simp]: "idle_in Buffer_new"
  by (simp add: idle_in_def buf_ok_new contents_new) (simp add: Buffer_new_def)

lemma watched_sent: "watched f p h h' \<Longrightarrow> sent h' = sent h"
  by (simp add: watched_def quiet_def fun_eq_iff)

lemma watched_interest: "watched f p h h' \<Longrightarrow> interest h f = None \<Longrightarrow> interest h' = (interest h)(f \<mapsto> (3, p))"
  by (simp add: watched_def)

lemma start_task_opens:
  assumes loop: "in_loop w" and j: "ccs w j = Some x" "clients w (control_client x) = Some q"
    and q: "unconnected f a (q\<lparr>connected := False\<rparr>)" "connect_flag (cl_connector q)"
      "cl_on_connect q = Some (Cb_control_handshake j)"
    and m: "m = framed_Hello (wire E) (control_hello (a_service_name (cc_args x)) (a_proxy_port (cc_args x)))"
      "room Buffer_new (length m)"
    and net: "connects E f a" "accepts_all E f" and fuel: "0 < loop_fuel E" and c: "c = next_ref w"
  obtains w' y q' where "cli_run_task E (cli_hooks E (Suc n)) (Task_startInLoop (control_client x)) w = Inr w'"
    and "conns w' = (conns w)(c \<mapsto> y)" and "established (control_client x) c f y"
    and "on_message y = Some (Cb_wait_control_hello j)" and "input_buffer y = Buffer_new"
    and "clients w' = (clients w)(control_client x \<mapsto> q')" and "cl_conn q' = Some c"
    and "ccs w' = ccs w" and "cc_map w' = cc_map w" and "dcs w' = dcs w" and "next_ref w' = Suc c" and "in_loop w'"
    and "sent (hist w') = (sent (hist w))(f := sent (hist w) f @ m)"
    and "interest (hist w) f = None \<Longrightarrow> interest (hist w') = (interest (hist w))(f \<mapsto> (3, Chan_conn c))"
proof -
  let ?k = "control_client x" and ?H = "cli_hooks E (Suc n)"
  obtain y h where start: "startInLoop E ?H ?k w =
       bindR (handle_conn E ?H c (put_client ?k (up_client c q\<lparr>connected := connected q\<rparr>)
         (put_conn c y (w\<lparr>next_ref := Suc c, hist := h\<rparr>)))) (shared_drop E c)"
      and y: "dialed ?k q f c y" and h: "watched f (Chan_conn c) (hist w) h"
    by (rule startInLoop_dials [OF loop j(2) q(1,2) net(1) c])
  let ?q = "up_client c q\<lparr>connected := connected q\<rparr>"
  let ?w = "put_client ?k ?q (put_conn c y (w\<lparr>next_ref := Suc c, hist := h\<rparr>))"
  have yb: "output_buffer y = Buffer_new" "client_fd y = f" "input_buffer y = Buffer_new" using y by (simp_all add: dialed_def)
  obtain b where hs: "do_control_channel_handshake E (cli_hooks E n) j c (put_conn c (y\<lparr>use_count := 3\<rparr>) ?w) =
      Inr (put_client ?k (?q\<lparr>cl_on_message := Some (Cb_wait_control_hello j)\<rparr>)
        (put_conn c (y\<lparr>use_count := 3, on_message := Some (Cb_wait_control_hello j), output_buffer := b\<rparr>)
          (?w\<lparr>hist := wrote E f m h\<rparr>)))" and b: "idle_in b"
    by (rule control_handshake_state [of "put_conn c (y\<lparr>use_count := 3\<rparr>) ?w" j x ?q c "y\<lparr>use_count := 3\<rparr>" m E "cli_hooks E n"])
       (use j m net fuel yb in simp_all)
  let ?z = "y\<lparr>use_count := 3, on_message := Some (Cb_wait_control_hello j), output_buffer := b\<rparr>"
  let ?v = "put_client ?k (?q\<lparr>cl_on_message := Some (Cb_wait_control_hello j)\<rparr>) (put_conn c ?z (?w\<lparr>hist := wrote E f m h\<rparr>))"
  have "startInLoop E ?H ?k w = Inr (put_conn c (?z\<lparr>use_count := 1\<rparr>) ?v)"
    unfolding start
    by (rule dialed_callback [OF _ y q(3)]) (use hs in \<open>simp_all add: cli_run_cb_handshakes\<close>)
  then have run: "cli_run_task E ?H (Task_startInLoop ?k) w = Inr (put_conn c (?z\<lparr>use_count := 1\<rparr>) ?v)"
    by (simp add: cli_run_task_def)
  show ?thesis
    by (rule that [OF run, of "?z\<lparr>use_count := 1\<rparr>" "?q\<lparr>cl_on_message := Some (Cb_wait_control_hello j)\<rparr>"])
       (use loop yb b y net(2) watched_sent [OF h] watched_interest [OF h] in
         \<open>simp_all add: sent_wrote established_def dialed_def\<close>)
qed

section \<open>A data channel is created\<close>

lemma put_dc_simps [simp]:
  "dcs (put_dc d x w) = (dcs w)(d \<mapsto> x)" "conns (put_dc d x w) = conns w" "clients (put_dc d x w) = clients w"
  "hist (put_dc d x w) = hist w" "ccs (put_dc d x w) = ccs w" "cc_map (put_dc d x w) = cc_map w"
  "next_ref (put_dc d x w) = next_ref w" "in_loop (put_dc d x w) = in_loop w"
  by (simp_all add: put_dc_def in_loop_def)

lemma in_loop_client [simp]:
  "in_loop (w\<lparr>next_client := k\<rparr>) = in_loop w" "in_loop (v\<lparr>next_dc := d\<rparr>) = in_loop v"
  by (simp_all add: in_loop_def)

lemma set_cb_unconnected:
  assumes "clients w k = Some x" and "cl_conn x = None"
  shows "set_on_connect_cb k cb w = Inr (put_client k (x\<lparr>cl_on_connect := Some cb\<rparr>) w)"
    and "set_on_message_cb k cb w = Inr (put_client k (x\<lparr>cl_on_message := Some cb\<rparr>) w)"
    and "set_on_disconnect_cb k cb w = Inr (put_client k (x\<lparr>cl_on_disconnect := Some cb\<rparr>) w)"
  using assms
  by (simp_all add: set_on_connect_cb_def set_on_message_cb_def set_on_disconnect_cb_def modify_client_def Let_def)

lemma DataChannel_new_opens:
  assumes loop: "in_loop w" and i: "i = data (kern E (hist w) Sys_uuid)"
    and d: "d = next_dc w" and k: "k = next_client w" and c: "c = next_ref w"
    and m: "m = framed_Hello (wire E) (data_hello nonce)" "room Buffer_new (length m)"
    and net: "opens_sockets E" "\<And>f. connects E f addr" "\<And>f. accepts_all E f" and fuel: "0 < loop_fuel E"
  obtains w' f g y q p where "DataChannel_new E (cli_hooks E (Suc n)) addr service nonce w = Inr (d, w')"
    and "dcs w' = (dcs w)(d \<mapsto> \<lparr>channel_id = i, dc_nonce = nonce, server_client = k, service_client = Suc k,
           data_channel_delete = None\<rparr>)"
    and "ccs w' = ccs w" and "cc_map w' = cc_map w"
    and "conns w' = (conns w)(c \<mapsto> y)" and "established k c f y" and "on_message y = Some (Cb_wait_start d)"
    and "clients w' = (clients w)(k \<mapsto> q, Suc k \<mapsto> p)" and "cl_conn q = Some c"
    and "cl_on_disconnect q = Some (Cb_delete_data d)" and "unconnected g service p" and "cl_on_connect p = None"
    and "sent (hist w') = (sent (hist w))(f := sent (hist w) f @ m)"
    and "interest (hist w) f = None \<Longrightarrow> interest (hist w') = (interest (hist w))(f \<mapsto> (3, Chan_conn c))"
proof -
  let ?H = "cli_hooks E (Suc n)"
  let ?h0 = "(Sys_uuid, kern E (hist w) Sys_uuid) # hist w"
  let ?w0 = "w\<lparr>hist := ?h0\<rparr>"
  obtain x1 h1 f where c1: "Client_new E addr ?w0 = Inr (k, put_client k x1 (?w0\<lparr>next_client := Suc k, hist := h1\<rparr>))"
      and x1: "unconnected f addr x1" "still ?h0 h1" "cl_on_connect x1 = None" "cl_on_message x1 = None"
    by (rule Client_new_ok [OF net(1), of addr ?w0]) (simp add: k)
  let ?w1 = "put_client k x1 (?w0\<lparr>next_client := Suc k, hist := h1\<rparr>)"
  obtain p h2 g where c2: "Client_new E service ?w1 = Inr (Suc k, put_client (Suc k) p (?w1\<lparr>next_client := Suc (Suc k), hist := h2\<rparr>))"
      and p: "unconnected g service p" "still h1 h2" "cl_on_connect p = None"
    by (rule Client_new_ok [OF net(1), of service ?w1]) simp
  let ?x = "\<lparr>channel_id = i, dc_nonce = nonce, server_client = k, service_client = Suc k, data_channel_delete = None\<rparr>"
  let ?w2 = "(put_dc d ?x (put_client (Suc k) p (?w1\<lparr>next_client := Suc (Suc k), hist := h2\<rparr>)))\<lparr>next_dc := Suc d\<rparr>"
  let ?x2 = "x1\<lparr>cl_on_connect := Some (Cb_data_handshake d), cl_on_message := Some (Cb_wait_start d),
      cl_on_disconnect := Some (Cb_delete_data d)\<rparr>"
  let ?w3 = "put_client k ?x2 ?w2"
  have k2: "clients ?w2 k = Some x1" "cl_conn x1 = None" using x1(1) by (simp_all add: unconnected_def)
  have new: "DataChannel_new E ?H addr service nonce w = bindR (Client_connect E ?H k ?w3) (\<lambda>w8. Inr (d, w8))"
    using c1 c2 k2 d i
    by (simp add: DataChannel_new_def GenerateUUIDAsString_def sysw_simp Let_def set_cb_unconnected)
  have u2: "unconnected f addr ?x2" using x1(1) by (simp add: unconnected_def)
  obtain y h where conn: "Client_connect E ?H k ?w3 =
       bindR (handle_conn E ?H c (put_client k (up_client c ?x2)
         (put_conn c y (?w3\<lparr>next_ref := Suc c, hist := h\<rparr>)))) (shared_drop E c)"
      and y: "dialed k ?x2 f c y" and h: "watched f (Chan_conn c) h2 h"
    by (rule Client_connect_dials [of ?w3 k ?x2 f addr E c ?H]) (use loop u2 net(2) c in simp_all)
  let ?w4 = "put_client k (up_client c ?x2) (put_conn c y (?w3\<lparr>next_ref := Suc c, hist := h\<rparr>))"
  have yb: "output_buffer y = Buffer_new" "client_fd y = f" using y by (simp_all add: dialed_def)
  obtain b where hs: "do_data_channel_handshake E (cli_hooks E n) d c (put_conn c (y\<lparr>use_count := 3\<rparr>) ?w4) =
      Inr (put_conn c (y\<lparr>use_count := 3, output_buffer := b, on_message := Some (Cb_wait_start d)\<rparr>)
        (?w4\<lparr>hist := wrote E f m h\<rparr>))" and b: "idle_in b"
    by (rule data_handshake_state [of "put_conn c (y\<lparr>use_count := 3\<rparr>) ?w4" d ?x c "y\<lparr>use_count := 3\<rparr>" m E "cli_hooks E n"])
       (use m net fuel yb in simp_all)
  let ?z = "y\<lparr>use_count := 3, output_buffer := b, on_message := Some (Cb_wait_start d)\<rparr>"
  let ?v = "put_conn c ?z (?w4\<lparr>hist := wrote E f m h\<rparr>)"
  have "Client_connect E ?H k ?w3 = Inr (put_conn c (?z\<lparr>use_count := 1\<rparr>) ?v)"
    unfolding conn
    by (rule dialed_callback [OF _ y, where cb = "Cb_data_handshake d"]) (use hs in \<open>simp_all add: cli_run_cb_handshakes\<close>)
  then have run: "DataChannel_new E ?H addr service nonce w = Inr (d, put_conn c (?z\<lparr>use_count := 1\<rparr>) ?v)"
    by (simp add: new)
  have "still (hist w) h2"
    by (rule still_trans [OF still_trans [OF still_call x1(2)] p(2)]) simp_all
  then have sent_h: "sent h = sent (hist w)"
    and int_h: "interest (hist w) f = None \<Longrightarrow> interest h = (interest (hist w))(f \<mapsto> (3, Chan_conn c))"
    using watched_sent [OF h] watched_interest [OF h] by (simp_all add: still_def)
  show ?thesis
    by (rule that [OF run, of "?z\<lparr>use_count := 1\<rparr>" f "up_client c ?x2" p g])
       (use yb b y p net(3) sent_h int_h in \<open>simp_all add: sent_wrote established_def dialed_def fun_upd_twist\<close>)
qed

lemma create_command_opens:
  assumes rt: "protobuf_runtime (wire E)" and loop: "in_loop w"
    and c0: "conns w c0 = Some y0" "buf_ok (input_buffer y0)"
      "contents (input_buffer y0) =
         framed_ControlChannelCmd (wire E) (set_control_channel_cmd CREATE_DATA_CHANNEL ControlChannelCmd_new) @ rest"
    and j: "ccs w j = Some z" "map_of (data_pool z) i = None"
    and i: "i = data (kern E (hist w) Sys_uuid)"
    and d: "d = next_dc w" and k: "k = next_client w" and c: "c = next_ref w"
    and m: "m = framed_Hello (wire E) (data_hello (cc_id z))" "room Buffer_new (length m)"
    and net: "opens_sockets E" "\<And>f. connects E f (a_server_addr (cc_args z))" "\<And>f. accepts_all E f"
    and fuel: "0 < loop_fuel E"
  obtains w' f g y y1 q p where "wait_server_cmd E (cli_hooks E (Suc n)) j c0 w = Inr w'"
    and "dcs w' = (dcs w)(d \<mapsto> \<lparr>channel_id = i, dc_nonce = cc_id z, server_client = k, service_client = Suc k,
           data_channel_delete = Some j\<rparr>)"
    and "ccs w' = (ccs w)(j \<mapsto> z\<lparr>data_pool := (i, d) # data_pool z\<rparr>)" and "cc_map w' = cc_map w"
    and "conns w' = (conns w)(c0 \<mapsto> y1, c \<mapsto> y)" and "contents (input_buffer y1) = rest"
    and "established k c f y" and "on_message y = Some (Cb_wait_start d)"
    and "clients w' = (clients w)(k \<mapsto> q, Suc k \<mapsto> p)" and "cl_conn q = Some c"
    and "cl_on_disconnect q = Some (Cb_delete_data d)"
    and "unconnected g (a_service_addr (cc_args z)) p" and "cl_on_connect p = None"
    and "sent (hist w') = (sent (hist w))(f := sent (hist w) f @ m)"
    and "interest (hist w) f = None \<Longrightarrow> interest (hist w') = (interest (hist w))(f \<mapsto> (3, Chan_conn c))"
proof -
  let ?H = "cli_hooks E (Suc n)"
  obtain b where b: "contents b = rest" and cmd: "wait_server_cmd E ?H j c0 w =
      handle_cmd_create_datachannel E ?H j (put_conn c0 (y0\<lparr>input_buffer := b\<rparr>) w)"
    by (rule one_command_per_call [OF rt c0, of ?H j]) simp
  let ?w = "put_conn c0 (y0\<lparr>input_buffer := b\<rparr>) w"
  let ?x = "\<lparr>channel_id = i, dc_nonce = cc_id z, server_client = k, service_client = Suc k, data_channel_delete = None\<rparr>"
  have next_dc: "next_dc ?w = next_dc w" by (simp add: put_conn_def)
  show ?thesis
  proof (rule DataChannel_new_opens [of ?w i E d k c m "cc_id z" "a_server_addr (cc_args z)" n "a_service_addr (cc_args z)"])
    fix w1 f g y q p
    assume new: "DataChannel_new E ?H (a_server_addr (cc_args z)) (a_service_addr (cc_args z)) (cc_id z) ?w = Inr (d, w1)"
      and w1: "dcs w1 = (dcs ?w)(d \<mapsto> ?x)" "ccs w1 = ccs ?w" "cc_map w1 = cc_map ?w" "conns w1 = (conns ?w)(c \<mapsto> y)"
        "clients w1 = (clients ?w)(k \<mapsto> q, Suc k \<mapsto> p)" "sent (hist w1) = (sent (hist ?w))(f := sent (hist ?w) f @ m)"
        "interest (hist ?w) f = None \<Longrightarrow> interest (hist w1) = (interest (hist ?w))(f \<mapsto> (3, Chan_conn c))"
      and y: "established k c f y" "on_message y = Some (Cb_wait_start d)" "cl_conn q = Some c"
        "cl_on_disconnect q = Some (Cb_delete_data d)" "unconnected g (a_service_addr (cc_args z)) p" "cl_on_connect p = None"
    let ?w' = "put_cc j (z\<lparr>data_pool := (i, d) # data_pool z\<rparr>) (put_dc d (?x\<lparr>data_channel_delete := Some j\<rparr>) w1)"
    have "wait_server_cmd E ?H j c0 w = Inr ?w'"
      unfolding cmd using j new w1(1,2) by (simp add: handle_cmd_create_datachannel_def)
    then show ?thesis
      by (rule that [of _ "y0\<lparr>input_buffer := b\<rparr>" y f q p g]) (use w1 y b in simp_all)
  qed (use loop i d k c m net fuel next_dc in simp_all)
qed

section \<open>Forwarding starts\<close>

text \<open>
  The command to start: the closures of both directions are installed, the service is connected, and
  what the server had sent behind the command is forwarded at once.
\<close>

lemma start_command_frame:
  assumes rt: "protobuf_runtime (wire E)" and c: "conns w c = Some y" "buf_ok (input_buffer y)"
    and buf: "contents (input_buffer y) =
      framed_DataChannelCmd (wire E) (set_data_channel_cmd START_FORWARD_TCP DataChannelCmd_new) @ rest"
  obtains b where "buf_ok b" and "contents b = rest"
    and "wait_data_channel_start_cmd E H d c w =
      do_data_channel_transforward E H d (put_conn c (y\<lparr>input_buffer := b\<rparr>) w)"
proof -
  obtain m b where m: "take_message (wire E) (input_buffer y) = Inr (Some m, b)"
      "data_channel_cmd (snd (parse_DataChannelCmd (wire E) m)) = START_FORWARD_TCP" "buf_ok b" "contents b = rest"
    using protobuf_runtime.data_cmd_frame [OF rt c(2) buf] by metis
  show ?thesis
    by (rule that [OF m(3,4)]) (use c(1) m(1,2) in \<open>simp add: wait_data_channel_start_cmd_def Let_def\<close>)
qed

lemma transforward_connects:
  assumes loop: "in_loop w" and d: "dcs w d = Some x" "server_client x \<noteq> service_client x"
    and s: "clients w (server_client x) = Some q" "cl_conn q = Some c" "conns w c = Some y"
    and k: "clients w (service_client x) = Some p" "unconnected f a p" "cl_on_connect p = None"
    and net: "connects E f a" and c': "c' = next_ref w" "c \<noteq> c'"
  obtains v y' h where "do_data_channel_transforward E H d w =
      (if 0 < readAbleBytes (input_buffer y) then holding E c (handle_message E H c) v else Inr v)"
    and "v = put_client (service_client x) (up_client c' (p\<lparr>cl_on_message := Some (Cb_to_server d)\<rparr>))
      (put_client (server_client x) (q\<lparr>cl_on_message := Some (Cb_to_service d)\<rparr>)
        (put_conn c' y' (put_conn c (y\<lparr>on_message := Some (Cb_to_service d)\<rparr>) (w\<lparr>next_ref := Suc c', hist := h\<rparr>))))"
    and "established (service_client x) c' f y'" and "on_message y' = Some (Cb_to_server d)"
    and "input_buffer y' = Buffer_new" and "watched f (Chan_conn c') (hist w) h"
proof -
  let ?k1 = "server_client x" and ?k2 = "service_client x"
  let ?p = "p\<lparr>cl_on_message := Some (Cb_to_server d)\<rparr>"
  let ?w1 = "put_client ?k1 (q\<lparr>cl_on_message := Some (Cb_to_service d)\<rparr>) (put_conn c (y\<lparr>on_message := Some (Cb_to_service d)\<rparr>) w)"
  let ?w2 = "put_client ?k2 ?p ?w1"
  have m1: "set_on_message_cb ?k1 (Cb_to_service d) w = Inr ?w1"
    using s by (simp add: set_on_message_cb_def set_message_handle_def Let_def)
  have m2: "set_on_message_cb ?k2 (Cb_to_server d) ?w1 = Inr ?w2"
    using d(2) k by (simp add: set_cb_unconnected unconnected_def)
  obtain y' h where conn: "Client_connect E H ?k2 ?w2 =
       bindR (handle_conn E H c' (put_client ?k2 (up_client c' ?p)
         (put_conn c' y' (?w2\<lparr>next_ref := Suc c', hist := h\<rparr>)))) (shared_drop E c')"
      and y': "dialed ?k2 ?p f c' y'" and h: "watched f (Chan_conn c') (hist w) h"
    by (rule Client_connect_dials [of ?w2 ?k2 ?p f a E c' H])
       (use loop k net c' in \<open>simp_all add: unconnected_def\<close>)
  let ?w3 = "put_client ?k2 (up_client c' ?p) (put_conn c' y' (?w2\<lparr>next_ref := Suc c', hist := h\<rparr>))"
  let ?v = "put_conn c' (y'\<lparr>use_count := 1\<rparr>) ?w3"
  have m3: "Client_connect E H ?k2 ?w2 = Inr ?v"
    unfolding conn by (rule dialed_no_callback [OF _ y']) (use k in simp_all)
  have "do_data_channel_transforward E H d w =
      (if 0 < readAbleBytes (input_buffer y) then holding E c (handle_message E H c) ?v else Inr ?v)"
    using d s c' by (simp add: do_data_channel_transforward_def m1 m2 m3 get_connection_def del: put_conn_simps(8,9) put_client_simps(10-12))
  then show ?thesis
    by (rule that [of _ "y'\<lparr>use_count := 1\<rparr>"])
       (use y' h d(2) in \<open>simp_all add: established_def dialed_def\<close>)
qed

lemma held_message:
  assumes y: "conns w c = Some y" "on_message y = Some cb" "1 \<le> use_count y"
    and run: "run_cb H cb (Some c) (put_conn c (y\<lparr>use_count := use_count y + 2\<rparr>) w) = Inr v"
    and z: "conns v c = Some z" "use_count z = use_count y + 2"
  shows "holding E c (handle_message E H c) w = Inr (put_conn c (z\<lparr>use_count := use_count y\<rparr>) v)"
proof -
  let ?y1 = "y\<lparr>use_count := use_count y + 1\<rparr>"
  have "holding E c (run_cb H cb (Some c)) (put_conn c ?y1 w) = Inr (put_conn c (z\<lparr>use_count := use_count z - 1\<rparr>) v)"
    by (rule holding_Some [of _ _ ?y1, OF _ _ z(1)]) (use run z(2) in simp_all)
  then have "handle_message E H c (put_conn c ?y1 w) = Inr (put_conn c (z\<lparr>use_count := use_count y + 1\<rparr>) v)"
    using y(2) z(2) by (simp add: handle_message_def)
  then have "holding E c (handle_message E H c) w = Inr (put_conn c
      (z\<lparr>use_count := use_count y + 1, use_count := use_count (z\<lparr>use_count := use_count y + 1\<rparr>) - 1\<rparr>)
      (put_conn c (z\<lparr>use_count := use_count y + 1\<rparr>) v))"
    by (rule holding_Some [OF y(1)]) (use y(3) in simp_all)
  then show ?thesis by simp
qed

lemma start_command_joins:
  assumes rt: "protobuf_runtime (wire E)" and loop: "in_loop w"
    and d: "dcs w d = Some x" "server_client x \<noteq> service_client x"
    and s: "clients w (server_client x) = Some q" "cl_conn q = Some c" "conns w c = Some y" "1 \<le> use_count y"
    and buf: "buf_ok (input_buffer y)" "length rest < 2 ^ 62" "contents (input_buffer y) =
      framed_DataChannelCmd (wire E) (set_data_channel_cmd START_FORWARD_TCP DataChannelCmd_new) @ rest"
    and k: "clients w (service_client x) = Some p" "unconnected f a p" "cl_on_connect p = None"
    and net: "connects E f a" "accepts_all E f" and fuel: "0 < loop_fuel E" and c': "c' = next_ref w" "c \<noteq> c'"
  obtains w' z z' where "wait_data_channel_start_cmd E (cli_hooks E (Suc n)) d c w = Inr w'"
    and "conns w' = (conns w)(c \<mapsto> z, c' \<mapsto> z')"
    and "on_message z = Some (Cb_to_service d)" and "contents (input_buffer z) = []" and "client_fd z = client_fd y"
    and "use_count z = use_count y"
    and "on_message z' = Some (Cb_to_server d)" and "established (service_client x) c' f z'" and "idle_in (input_buffer z')"
    and "dc_peer service_client d c' w'" and "dc_peer server_client d c w'"
    and "sent (hist w') = (sent (hist w))(f := sent (hist w) f @ rest)"
    and "interest (hist w) f = None \<Longrightarrow> interest (hist w') = (interest (hist w))(f \<mapsto> (3, Chan_conn c'))"
proof -
  let ?H = "cli_hooks E (Suc n)"
  obtain b where b: "buf_ok b" "contents b = rest"
      and cmd: "wait_data_channel_start_cmd E ?H d c w =
        do_data_channel_transforward E ?H d (put_conn c (y\<lparr>input_buffer := b\<rparr>) w)"
    by (rule start_command_frame [OF rt s(3) buf(1,3)])
  let ?y = "y\<lparr>input_buffer := b\<rparr>"
  let ?y1 = "?y\<lparr>on_message := Some (Cb_to_service d)\<rparr>"
  obtain v y' h where go: "do_data_channel_transforward E ?H d (put_conn c ?y w) =
      (if 0 < readAbleBytes (input_buffer ?y) then holding E c (handle_message E ?H c) v else Inr v)"
    and v: "v = put_client (service_client x) (up_client c' (p\<lparr>cl_on_message := Some (Cb_to_server d)\<rparr>))
      (put_client (server_client x) (q\<lparr>cl_on_message := Some (Cb_to_service d)\<rparr>)
        (put_conn c' y' (put_conn c ?y1 ((put_conn c ?y w)\<lparr>next_ref := Suc c', hist := h\<rparr>))))"
    and y': "established (service_client x) c' f y'" "on_message y' = Some (Cb_to_server d)" "input_buffer y' = Buffer_new"
    and h: "watched f (Chan_conn c') (hist w) h"
    by (rule transforward_connects [of "put_conn c ?y w" d x q c ?y p f a E c' ?H])
       (use loop d s k net c' in simp_all)
  have vs: "conns v = (conns w)(c \<mapsto> ?y1, c' \<mapsto> y')" "dcs v = dcs w"
      "clients v = (clients w)(server_client x \<mapsto> q\<lparr>cl_on_message := Some (Cb_to_service d)\<rparr>,
        service_client x \<mapsto> up_client c' (p\<lparr>cl_on_message := Some (Cb_to_server d)\<rparr>))"
      "hist v = h"
    by (simp_all add: v)
  have peers: "dc_peer service_client d c' v" "dc_peer server_client d c v"
    using d s(2) by (simp_all add: dc_peer_def vs)
  have y'c: "client_fd y' = f" "use_count y' = 1" "idle_in (output_buffer y')" using y'(1) by (simp_all add: established_def)
  show ?thesis
  proof (cases "rest = []")
    case True
    have run: "wait_data_channel_start_cmd E ?H d c w = Inr v"
      using cmd go True b by (simp add: readable_iff)
    show ?thesis
      by (rule that [OF run vs(1)])
         (use True b y' vs(4) peers watched_sent [OF h] watched_interest [OF h] in \<open>simp_all add: idle_new\<close>)
  next
    case False
    let ?y2 = "?y1\<lparr>use_count := use_count y + 2\<rparr>"
    let ?v = "put_conn c ?y2 v"
    have v2: "conns ?v c = Some ?y2" "conns ?v c' = Some y'" "dc_peer service_client d c' ?v"
      using vs(1) c'(2) peers by simp_all
    obtain ib ob where m: "run_cb ?H (Cb_to_service d) (Some c) ?v =
        Inr (put_conn c' (y'\<lparr>output_buffer := ob\<rparr>) (put_conn c (?y2\<lparr>input_buffer := ib\<rparr>)
          (?v\<lparr>hist := wrote E f rest h\<rparr>)))"
        and io: "contents ib = []" "idle_in ob"
    proof (rule to_service.closure_moves [OF v2(3,1,2), of E n])
      fix ib' ob'
      assume "run_cb ?H (Cb_to_service d) (Some c) ?v =
          Inr (put_conn c' (y'\<lparr>output_buffer := ob'\<rparr>) (put_conn c (?y2\<lparr>input_buffer := ib'\<rparr>)
            (?v\<lparr>hist := wrote E (client_fd y') (contents (input_buffer ?y2)) (hist ?v)\<rparr>)))"
        "contents ib' = []" "idle_in ob'"
      then show ?thesis using that [of ob' ib'] vs(4) y'c(1) b(2) by simp
    qed (use c'(2) y'c b buf(2) net fuel in simp_all)
    let ?v' = "put_conn c' (y'\<lparr>output_buffer := ob\<rparr>) (put_conn c (?y2\<lparr>input_buffer := ib\<rparr>) (?v\<lparr>hist := wrote E f rest h\<rparr>))"
    have "holding E c (handle_message E ?H c) v =
        Inr (put_conn c (?y2\<lparr>input_buffer := ib, use_count := use_count ?y1\<rparr>) ?v')"
      by (rule held_message [of v c ?y1 "Cb_to_service d"]) (use vs(1) c'(2) s(4) m in simp_all)
    then have run: "wait_data_channel_start_cmd E ?H d c w =
        Inr (put_conn c (?y2\<lparr>input_buffer := ib, use_count := use_count y\<rparr>) ?v')"
      using cmd go False b by (simp add: readable_iff)
    show ?thesis
      by (rule that [OF run, of "?y2\<lparr>input_buffer := ib, use_count := use_count y\<rparr>" "y'\<lparr>output_buffer := ob\<rparr>"])
         (use io c'(2) y' vs peers net(2) watched_sent [OF h] watched_interest [OF h] in
           \<open>simp_all add: established_def sent_wrote fun_upd_twist\<close>)
  qed
qed

end
