(* ===== verification/ClientTables.thy ===== *)
theory ClientTables
  imports ClientInvariant
begin

text \<open>
  The tables of the tunnel client: \<^verbatim>\<open>cc_map_\<close> owns the control channels and each \<^verbatim>\<open>data_pool_\<close> owns data
  channels, both through \<^verbatim>\<open>std::unique_ptr\<close>. Every turn keeps them exact: each live object is in
  exactly one table, under its own id, and nothing in a table is dead. Running code may hold a data
  channel outside the pools for a while: a new one that has not been entered yet, and one that has
  been erased and is being destroyed.
\<close>

section \<open>What the tables say\<close>

text \<open>The control channel \<open>j\<close> has the data channel \<open>d\<close> in its pool, under the id \<open>i\<close>.\<close>

definition in_pool :: "NClient \<Rightarrow> nat \<Rightarrow> bytes \<Rightarrow> nat \<Rightarrow> bool" where
  "in_pool w j i d \<longleftrightarrow> (case ccs w j of None \<Rightarrow> False | Some x \<Rightarrow> map_of (data_pool x) i = Some d)"

text \<open>A control channel is registered under its id, and a registered channel lives.\<close>

definition ids_ok :: "NClient \<Rightarrow> bool" where
  "ids_ok w \<longleftrightarrow>
     (\<forall>j x. ccs w j = Some x \<longrightarrow> register_set x \<and> map_of (cc_map w) (cc_id x) = Some (Some j))
     \<and> (\<forall>i j. map_of (cc_map w) i = Some (Some j) \<longrightarrow> (\<exists>x. ccs w j = Some x \<and> cc_id x = i))"

definition pools_ok :: "nat set \<Rightarrow> nat set \<Rightarrow> NClient \<Rightarrow> bool" where
  "pools_ok fresh leaving w \<longleftrightarrow> ids_ok w
     \<and> (\<forall>d. dcs w d \<noteq> None \<or> d \<in> fresh \<or> d \<in> leaving \<longrightarrow> d < next_dc w)
     \<and> (\<forall>j i d. in_pool w j i d \<longrightarrow> d \<notin> fresh \<and> d \<notin> leaving
          \<and> (\<exists>y. dcs w d = Some y \<and> channel_id y = i \<and> data_channel_delete y = Some j))
     \<and> (\<forall>d y. dcs w d = Some y \<longrightarrow> d \<in> fresh \<longrightarrow> data_channel_delete y = None)
     \<and> (\<forall>d y. dcs w d = Some y \<longrightarrow> d \<notin> fresh \<longrightarrow> d \<notin> leaving \<longrightarrow>
          (\<exists>j. data_channel_delete y = Some j \<and> in_pool w j (channel_id y) d))"

definition holds_step :: "nat set \<Rightarrow> nat set \<Rightarrow> nat set \<Rightarrow> nat set \<Rightarrow> NClient \<Rightarrow> NClient \<Rightarrow> bool" where
  "holds_step F L F' L' w w' \<longleftrightarrow> (pools_ok F L w \<longrightarrow> pools_ok F' L' w')"

definition pools_step :: "NClient \<Rightarrow> NClient \<Rightarrow> bool" where
  "pools_step w w' \<longleftrightarrow> (\<forall>F L. holds_step F L F L w w')"

definition same_pools :: "NClient \<Rightarrow> NClient \<Rightarrow> bool" where
  "same_pools w w' \<longleftrightarrow> cc_map w' = cc_map w \<and> ccs w' = ccs w \<and> dcs w' = dcs w \<and> next_dc w' = next_dc w"

lemma same_poolsD:
  assumes "same_pools w w'"
  shows "cc_map w' = cc_map w" and "ccs w' = ccs w" and "dcs w' = dcs w" and "next_dc w' = next_dc w"
  using assms by (simp_all add: same_pools_def)

lemma next_dc_put_conn [simp]: "next_dc (put_conn c y w) = next_dc w"
  by (simp add: put_conn_def)

interpretation beside: client_frame same_pools
  by unfold_locales (auto simp: same_pools_def)

lemma pools_step_same: "same_pools w w' \<Longrightarrow> pools_step w w'"
  unfolding pools_step_def holds_step_def pools_ok_def ids_ok_def in_pool_def
  by (simp only: same_poolsD) blast

lemma holds_trans: "holds_step F L F1 L1 u v \<Longrightarrow> holds_step F1 L1 F2 L2 v w \<Longrightarrow> holds_step F L F2 L2 u w"
  by (simp add: holds_step_def)

lemma holds_keep: "pools_step w w' \<Longrightarrow> holds_step F L F L w w'"
  by (simp add: pools_step_def)

interpretation pools: client_frame pools_step
proof
  fix u v w :: NClient
  show "pools_step u v \<Longrightarrow> pools_step v w \<Longrightarrow> pools_step u w"
    unfolding pools_step_def by (blast intro: holds_trans)
qed (simp_all add: pools_step_same beside.R_create beside.R_destroy)

lemma pools_okD:
  assumes "pools_ok F L w"
  shows "ccs w j = Some x \<Longrightarrow> register_set x" and "ccs w j = Some x \<Longrightarrow> map_of (cc_map w) (cc_id x) = Some (Some j)"
    and "map_of (cc_map w) i = Some (Some j) \<Longrightarrow> \<exists>x. ccs w j = Some x \<and> cc_id x = i"
    and "dcs w d = Some y \<Longrightarrow> d < next_dc w" and "d \<in> F \<Longrightarrow> d < next_dc w" and "d \<in> L \<Longrightarrow> d < next_dc w"
    and "in_pool w j i d \<Longrightarrow> \<exists>y. dcs w d = Some y \<and> channel_id y = i \<and> data_channel_delete y = Some j"
    and "in_pool w j i d \<Longrightarrow> d \<notin> F" and "in_pool w j i d \<Longrightarrow> d \<notin> L"
    and "dcs w d = Some y \<Longrightarrow> d \<in> F \<Longrightarrow> data_channel_delete y = None"
    and "dcs w d = Some y \<Longrightarrow> d \<notin> F \<Longrightarrow> d \<notin> L \<Longrightarrow>
      \<exists>j. data_channel_delete y = Some j \<and> in_pool w j (channel_id y) d"
  using assms unfolding pools_ok_def ids_ok_def by blast+

lemma holds_stepI:
  assumes "pools_ok F L w \<Longrightarrow> ids_ok w'"
    and "\<And>d. pools_ok F L w \<Longrightarrow> dcs w' d \<noteq> None \<or> d \<in> F' \<or> d \<in> L' \<Longrightarrow> d < next_dc w'"
    and "\<And>j i d. pools_ok F L w \<Longrightarrow> in_pool w' j i d \<Longrightarrow> d \<notin> F' \<and> d \<notin> L'
      \<and> (\<exists>y. dcs w' d = Some y \<and> channel_id y = i \<and> data_channel_delete y = Some j)"
    and "\<And>d y. pools_ok F L w \<Longrightarrow> dcs w' d = Some y \<Longrightarrow> d \<in> F' \<Longrightarrow> data_channel_delete y = None"
    and "\<And>d y. pools_ok F L w \<Longrightarrow> dcs w' d = Some y \<Longrightarrow> d \<notin> F' \<Longrightarrow> d \<notin> L' \<Longrightarrow>
      \<exists>j. data_channel_delete y = Some j \<and> in_pool w' j (channel_id y) d"
  shows "holds_step F L F' L' w w'"
  unfolding holds_step_def pools_ok_def [of F' L'] using assms by blast

lemma pools_ids: "pools_ok F L w \<Longrightarrow> ids_ok w"
  by (simp add: pools_ok_def)

lemma in_pool_Some: "ccs w j = Some x \<Longrightarrow> in_pool w j i d \<longleftrightarrow> map_of (data_pool x) i = Some d"
  by (simp add: in_pool_def)

lemma in_pool_simps [simp]:
  "in_pool (put_dc d' z w) j i d = in_pool w j i d" "in_pool (w\<lparr>dcs := g\<rparr>) j i d = in_pool w j i d"
  "in_pool (w\<lparr>next_dc := m\<rparr>) j i d = in_pool w j i d" "in_pool (w\<lparr>cc_map := t\<rparr>) j i d = in_pool w j i d"
  "in_pool (put_cc j' x w) j i d = (if j = j' then map_of (data_pool x) i = Some d else in_pool w j i d)"
  by (simp_all add: in_pool_def put_dc_def put_cc_def)

lemma ids_simps [simp]:
  "ids_ok (put_dc d z w) = ids_ok w" "ids_ok (w\<lparr>dcs := g\<rparr>) = ids_ok w" "ids_ok (w\<lparr>next_dc := m\<rparr>) = ids_ok w"
  by (simp_all add: ids_ok_def put_dc_def)

lemma ids_put_cc:
  assumes "ids_ok w" and "ccs w j = Some x" and "cc_id x' = cc_id x" and "register_set x' = register_set x"
  shows "ids_ok (put_cc j x' w)"
  using assms unfolding ids_ok_def by (fastforce split: if_splits)

lemma NClient_fields_put [simp]:
  "dcs (put_dc d y w) = (dcs w)(d \<mapsto> y)" "next_dc (put_dc d y w) = next_dc w" "ccs (put_dc d y w) = ccs w"
  "next_dc (put_cc j x w) = next_dc w"
  by (simp_all add: put_dc_def put_cc_def)

section \<open>A data channel's life\<close>

lemma channel_created:
  assumes "data_channel_delete y = None" and d: "d = next_dc w"
  shows "holds_step F L (insert d F) L w ((put_dc d y w)\<lparr>next_dc := Suc d\<rparr>)"
proof -
  have new: "\<not> in_pool w j i d \<and> d \<notin> F \<and> d \<notin> L" if "pools_ok F L w" for j i
    using pools_okD(4-7) [OF that] d by blast
  show ?thesis
    by (rule holds_stepI)
       (use assms new in \<open>auto simp: pools_ids less_Suc_eq split: if_splits dest: pools_okD\<close>)
qed

lemma channel_entered:
  assumes y: "dcs w d = Some y" and j: "ccs w j = Some x" "map_of (data_pool x) (channel_id y) = None"
    and d: "d \<notin> F" "d \<notin> L"
  shows "holds_step (insert d F) L F L w (put_cc j (x\<lparr>data_pool := (channel_id y, d) # data_pool x\<rparr>)
    (put_dc d (y\<lparr>data_channel_delete := Some j\<rparr>) w))"
proof -
  define w' where "w' = put_cc j (x\<lparr>data_pool := (channel_id y, d) # data_pool x\<rparr>)
    (put_dc d (y\<lparr>data_channel_delete := Some j\<rparr>) w)"
  have fields: "dcs w' = (dcs w)(d \<mapsto> y\<lparr>data_channel_delete := Some j\<rparr>)" "next_dc w' = next_dc w"
    by (simp_all add: w'_def)
  have has: "in_pool w' j' i d' \<longleftrightarrow> in_pool w j' i d' \<or> (j' = j \<and> i = channel_id y \<and> d' = d)" for j' i d'
    using j(2) by (auto simp: w'_def in_pool_Some [OF j(1)])
  have new: "\<not> in_pool w j' i d" if "pools_ok (insert d F) L w" for j' i
    using pools_okD(8) [OF that] by blast
  have ids: "ids_ok w'" if "pools_ok (insert d F) L w"
    unfolding w'_def by (rule ids_put_cc [where x = x]) (use j pools_ids [OF that] in simp_all)
  have "holds_step (insert d F) L F L w w'"
    by (rule holds_stepI)
       (use y d new ids in \<open>auto simp: has fields split: if_splits dest: pools_okD\<close>)
  then show ?thesis unfolding w'_def .
qed

lemma channel_refused:
  assumes "dcs w d = Some y" and "d \<notin> F"
  shows "holds_step (insert d F) L F (insert d L) w (put_dc d (y\<lparr>data_channel_delete := b\<rparr>) w)"
proof -
  have new: "\<not> in_pool w j' i d" if "pools_ok (insert d F) L w" for j' i
    using pools_okD(8) [OF that] by blast
  show ?thesis
    by (rule holds_stepI)
       (use assms new in \<open>auto simp: pools_ids split: if_splits dest: pools_okD\<close>)
qed

lemma channel_erased:
  assumes j: "ccs w j = Some x" "map_of (data_pool x) i = Some d"
  shows "holds_step F L F (insert d L) w (put_cc j (x\<lparr>data_pool := AList.delete i (data_pool x)\<rparr>) w)"
proof -
  define w' where "w' = put_cc j (x\<lparr>data_pool := AList.delete i (data_pool x)\<rparr>) w"
  have fields: "dcs w' = dcs w" "next_dc w' = next_dc w"
    by (simp_all add: w'_def)
  have has: "in_pool w' j' i' d' \<longleftrightarrow> in_pool w j' i' d' \<and> \<not> (j' = j \<and> i' = i)" for j' i' d'
    by (auto simp: w'_def in_pool_Some [OF j(1)] AList.delete_conv')
  have e: "in_pool w j i d" by (simp add: in_pool_Some [OF j(1)] j(2))
  have one: "j' = j \<and> i' = i" if "pools_ok F L w" "in_pool w j' i' d" for j' i'
    using pools_okD(7) [OF that(1) e] pools_okD(7) [OF that] by auto
  have left: "in_pool w' j' i' d' \<longleftrightarrow> in_pool w j' i' d' \<and> d' \<noteq> d" if "pools_ok F L w" for j' i' d'
    unfolding has using one [OF that] j(2) by (auto simp: in_pool_Some [OF j(1)])
  have ids: "ids_ok w'" if "pools_ok F L w"
    unfolding w'_def by (rule ids_put_cc [where x = x]) (use j pools_ids [OF that] in simp_all)
  have "holds_step F L F (insert d L) w w'"
    by (rule holds_stepI)
       (use ids e in \<open>auto simp: left fields dest: pools_okD\<close>)
  then show ?thesis unfolding w'_def .
qed

lemma channel_gone: "holds_step F (insert d L) F L w (w\<lparr>dcs := (dcs w)(d := None)\<rparr>)"
proof -
  have "\<not> in_pool w j i d" if "pools_ok F (insert d L) w" for j i
    using pools_okD(9) [OF that] by blast
  then show ?thesis
    by (intro holds_stepI) (auto simp: pools_ids split: if_splits dest: pools_okD)
qed

section \<open>A control channel is registered\<close>

lemma channel_registered:
  assumes j: "ccs w j = Some x" "register_set x" and new: "map_of (AList.update (cc_id x) None (cc_map w)) nonce = None"
    and owned: "map_of (cc_map w) (cc_id x) = Some (Some j)"
    and w': "w' = put_cc j (x\<lparr>cc_id := nonce\<rparr>)
      (w\<lparr>cc_map := AList.delete (cc_id x) ((nonce, Some j) # AList.update (cc_id x) None (cc_map w))\<rparr>)"
  shows "pools_step w w'"
proof -
  have ne: "nonce \<noteq> cc_id x" "map_of (cc_map w) nonce = None" using new by (auto simp: update_conv split: if_splits)
  have map: "map_of (cc_map w') = (map_of (cc_map w))(cc_id x := None, nonce \<mapsto> Some j)"
    using ne by (auto simp: w' delete_conv' update_conv' fun_eq_iff)
  have pool: "in_pool w' = in_pool w"
    by (auto simp: fun_eq_iff w' in_pool_Some [OF j(1)])
  have fields: "dcs w' = dcs w" "next_dc w' = next_dc w" by (simp_all add: w')
  have "ids_ok w'" if ok: "pools_ok F L w" for F L
    unfolding ids_ok_def
  proof (intro conjI allI impI)
    fix j' x'
    assume x': "ccs w' j' = Some x'"
    show "register_set x'" using x' j pools_okD(1) [OF ok] by (auto simp: w' split: if_splits)
    show "map_of (cc_map w') (cc_id x') = Some (Some j')"
    proof (cases "j' = j")
      case True
      then have "x' = x\<lparr>cc_id := nonce\<rparr>" using x' by (simp add: w')
      with True show ?thesis unfolding map by simp
    next
      case False
      then have "map_of (cc_map w) (cc_id x') = Some (Some j')" using x' pools_okD(2) [OF ok] by (simp add: w')
      with False owned ne show ?thesis unfolding map by auto
    qed
  next
    fix i j'
    assume "map_of (cc_map w') i = Some (Some j')"
    then show "\<exists>x'. ccs w' j' = Some x' \<and> cc_id x' = i"
      using pools_okD(3) [OF ok, of i j'] j(1) unfolding map by (auto simp: w' split: if_splits)
  qed
  then show ?thesis
    unfolding pools_step_def
    by (intro allI holds_stepI) (auto simp: pool fields dest: pools_okD)
qed

section \<open>The handlers keep the tables\<close>

lemma after_holds: "after pools_step w m \<Longrightarrow> after (holds_step F L F L) w m"
  by (auto simp: after_def intro: holds_keep)

lemma after_holds_from:
  "holds_step F L F1 L1 w w1 \<Longrightarrow> after (holds_step F1 L1 F2 L2) w1 m \<Longrightarrow> after (holds_step F L F2 L2) w m"
  by (auto simp: after_def intro: holds_trans)

lemma after_holds_bind:
  assumes "after (holds_step F L F1 L1) w m" and "\<And>w1. m = Inr w1 \<Longrightarrow> after (holds_step F1 L1 F2 L2) w1 (k w1)"
  shows "after (holds_step F L F2 L2) w (bindR m k)"
  using assms by (cases m) (auto intro: after_holds_from)

lemma after_pools: "(\<And>F L. after (holds_step F L F L) w m) \<Longrightarrow> after pools_step w m"
  by (simp add: after_def pools_step_def)

locale pool_keeping = nclient_hooks pools_step H for H :: cli_hooks
begin

text \<open>Code that has a data channel out of the pools destroys it.\<close>

lemma DataChannel_destroy_keeps: "after (holds_step F (insert d L) F L) w (DataChannel_destroy E H d w)"
  unfolding DataChannel_destroy_def
  by (rule after_read, rule after_holds_bind [OF after_holds [OF Client_destroy_R]],
      rule after_holds_bind [OF after_holds [OF Client_destroy_R]]) (simp add: channel_gone)

lemma delete_data_channel_keeps: "after pools_step w (delete_data_channel E H d w)"
  unfolding delete_data_channel_def
proof (rule after_read)
  fix x
  have "after pools_step w (case map_of (data_pool y) i of None \<Rightarrow> Inr w
      | Some d' \<Rightarrow> DataChannel_destroy E H d' (put_cc j (y\<lparr>data_pool := AList.delete i (data_pool y)\<rparr>) w))"
    if "ccs w j = Some y" for i j y
    by (auto split: option.split
        intro: after_pools after_holds_from [OF channel_erased [OF that] DataChannel_destroy_keeps])
  then show "after pools_step w (case data_channel_delete x of None \<Rightarrow> Inl (Thrown ''bad_function_call'')
      | Some j \<Rightarrow> bindR (the_cc j w) (\<lambda>y. case map_of (data_pool y) (channel_id x) of None \<Rightarrow> Inr w
          | Some d' \<Rightarrow> DataChannel_destroy E H d'
              (put_cc j (y\<lparr>data_pool := AList.delete (channel_id x) (data_pool y)\<rparr>) w)))"
    by (auto split: option.splits intro!: after_read simp: the_cc_def)
qed

lemma DataChannel_new_keeps:
  assumes "DataChannel_new E H addr service nonce w = Inr (d, w')"
  shows "holds_step F L (insert d F) L w w'"
  using assms
proof (cases rule: DataChannel_new_steps)
  case (1 i w1 k1 w2 k2 w3 w5 w6 w7)
  let ?x = "\<lparr>channel_id = i, dc_nonce = nonce, server_client = k1, service_client = k2, data_channel_delete = None\<rparr>"
  have "same_pools w w1" using 1(2) by (auto simp: GenerateUUIDAsString_def sysw_simp same_pools_def)
  then have same: "same_pools w w3"
    using beside.Client_new_R [OF 1(3)] beside.Client_new_R [OF 1(4)] by (blast intro: beside.R_trans)
  then have "holds_step F L F L w w3" by (intro holds_keep pools_step_same)
  moreover have "holds_step F L (insert d F) L w3 ((put_dc d ?x w3)\<lparr>next_dc := Suc d\<rparr>)"
    by (rule channel_created) (simp_all add: 1(1) same_poolsD [OF same])
  moreover have "pools_step ((put_dc d ?x w3)\<lparr>next_dc := Suc d\<rparr>) w'"
    by (rule afterD [OF set_cbs_R(1) 1(5), THEN R_trans, OF afterD [OF set_cbs_R(2) 1(6)],
          THEN R_trans, OF afterD [OF set_cbs_R(3) 1(7)], THEN R_trans, OF afterD [OF Client_connect_R 1(8)]])
  ultimately show ?thesis by (blast intro: holds_trans holds_keep)
qed

lemma handle_cmd_create_datachannel_keeps: "after pools_step w (handle_cmd_create_datachannel E H j w)"
proof (rule after_pools, unfold handle_cmd_create_datachannel_def, rule after_read, rule after_read, clarify)
  fix F L x d w1
  assume new: "DataChannel_new E H (a_server_addr (cc_args x)) (a_service_addr (cc_args x)) (cc_id x) w = Inr (d, w1)"
  let ?enter = "bindR (the_dc d w1) (\<lambda>y.
      let w2 = put_dc d (y\<lparr>data_channel_delete := Some j\<rparr>) w1; i = channel_id y in
      bindR (the_cc j w2) (\<lambda>z.
        if map_of (data_pool z) i = None then Inr (put_cc j (z\<lparr>data_pool := (i, d) # data_pool z\<rparr>) w2)
        else DataChannel_destroy E H d w2))"
  have "after (holds_step (insert d F) L F L) w1 ?enter" if d: "d \<notin> F" "d \<notin> L"
  proof (rule after_read, unfold Let_def, rule after_read)
    fix y z
    assume "the_dc d w1 = Inr y" "the_cc j (put_dc d (y\<lparr>data_channel_delete := Some j\<rparr>) w1) = Inr z"
    then have yz: "dcs w1 d = Some y" "ccs w1 j = Some z"
      by (auto simp: the_dc_def the_cc_def split: option.splits)
    show "after (holds_step (insert d F) L F L) w1
       (if map_of (data_pool z) (channel_id y) = None
        then Inr (put_cc j (z\<lparr>data_pool := (channel_id y, d) # data_pool z\<rparr>)
          (put_dc d (y\<lparr>data_channel_delete := Some j\<rparr>) w1))
        else DataChannel_destroy E H d (put_dc d (y\<lparr>data_channel_delete := Some j\<rparr>) w1))"
      using channel_entered [OF yz _ d]
        after_holds_from [OF channel_refused [OF yz(1) d(1)] DataChannel_destroy_keeps] by simp
  qed
  moreover have "d \<notin> F \<and> d \<notin> L" if "pools_ok F L w"
    using new pools_okD(5,6) [OF that] by (cases rule: DataChannel_new_steps) auto
  ultimately have "after (holds_step F L F L) w ?enter" if "pools_ok F L w"
    using after_holds_from [OF DataChannel_new_keeps [OF new]] that by blast
  then show "after (holds_step F L F L) w ?enter"
    unfolding after_def holds_step_def by blast
qed

lemma wait_server_cmd_keeps: "after pools_step w (wait_server_cmd E H j c w)"
  unfolding wait_server_cmd_def
  by (rule after_consume) (simp add: handle_cmd_create_datachannel_keeps Let_def split: option.split)

text \<open>
  A nonce that is taken destroys the channel whose callback is running: then the code goes on with
  an object that is gone, and no state is reached.
\<close>

lemma CControlChannel_destroy_gone: "CControlChannel_destroy E H j w = Inr w' \<Longrightarrow> ccs w' j = None"
  by (auto simp: CControlChannel_destroy_def bindR_eq_Inr)

lemma handle_control_channel_hello_c_keeps: "after pools_step w (handle_control_channel_hello_c E H j nonce w)"
proof (rule after_pools)
  fix F L
  show "after (holds_step F L F L) w (handle_control_channel_hello_c E H j nonce w)"
  proof (cases "pools_ok F L w \<and> ccs w j \<noteq> None")
    case True
    then obtain x where ok: "pools_ok F L w" and x: "ccs w j = Some x" by blast
    have own: "register_set x" "map_of (cc_map w) (cc_id x) = Some (Some j)"
      using pools_okD(1,2) [OF ok x] by simp_all
    let ?m = "AList.update (cc_id x) None (cc_map w)"
    show ?thesis
    proof (cases "map_of ?m nonce = None")
      case free: True
      let ?w = "w\<lparr>cc_map := AList.delete (cc_id x) ((nonce, Some j) # ?m)\<rparr>"
      have "handle_control_channel_hello_c E H j nonce w = Inr (put_cc j (x\<lparr>cc_id := nonce\<rparr>) ?w)"
        using x own free by (simp add: handle_control_channel_hello_c_def register_control_channel_def Let_def)
      then show ?thesis
        using holds_keep [OF channel_registered [OF x own(1) free own(2) refl]] by simp
    next
      case taken: False
      have "handle_control_channel_hello_c E H j nonce w =
          bindR (bindR (CControlChannel_destroy E H j (w\<lparr>cc_map := ?m\<rparr>))
            (\<lambda>w1. Inr (w1\<lparr>cc_map := AList.delete (cc_id x) (cc_map w1)\<rparr>)))
            (\<lambda>w1. bindR (the_cc j w1) (\<lambda>y. Inr (put_cc j (y\<lparr>cc_id := nonce\<rparr>) w1)))"
        using x own taken by (auto simp: handle_control_channel_hello_c_def register_control_channel_def Let_def)
      then show ?thesis
        by (fastforce simp: after_def bindR_eq_Inr the_cc_def dest: CControlChannel_destroy_gone split: option.splits)
    qed
  qed (auto simp: after_def holds_step_def handle_control_channel_hello_c_def the_cc_def)
qed

lemma wait_control_channel_hello_keeps: "after pools_step w (wait_control_channel_hello E H j c w)"
proof -
  have "after pools_step v (bindR (if t then handle_control_channel_hello_c E H j nonce v else Inr v) (\<lambda>w2.
      bindR (the_cc j w2) (\<lambda>y. set_on_message_cb (control_client y) (Cb_wait_server_cmd j) w2)))" for t nonce v
    by (intro after_bind after_read set_cbs_R) (simp add: handle_control_channel_hello_c_keeps)
  then show ?thesis
    unfolding wait_control_channel_hello_def
    by (intro after_consume) (simp add: Let_def split: option.split)
qed

lemmas closures_keep = do_control_channel_handshake_R wait_control_channel_hello_keeps wait_server_cmd_keeps
  do_data_channel_handshake_R wait_data_channel_start_cmd_R forward_to_client_R delete_data_channel_keeps

end

lemma pool_hooks:
  assumes "\<And>cb a w. after pools_step w (cli_run_cb E n cb a w)"
  shows "pool_keeping (cli_hooks E n)"
  using assms by unfold_locales (simp_all add: cli_hooks_def pools.cli_run_close_R)

lemma cli_run_cb_keeps: "after pools_step w (cli_run_cb E n cb a w)"
proof (induction n arbitrary: cb a w)
  case (Suc n)
  note closures = pool_keeping.closures_keep [OF pool_hooks [OF Suc]]
  show ?case
    by (cases cb; cases a) (simp_all add: cli_hooks_def [symmetric] Let_def closures after_read)
qed simp

interpretation pooling: pool_keeping "cli_hooks E n" for E n
  by (rule pool_hooks) (rule cli_run_cb_keeps)

lemma cli_turn_keeps: "cli_turn E n w = Inr w' \<Longrightarrow> pools_step w w'"
  unfolding cli_turn_def by (rule afterD [OF pooling.cli_loop_turn_R])

lemma tunnelled_keeps: "tunnelled E w w' \<Longrightarrow> pools_step w w'"
  by (induction rule: tunnelled.induct) (auto intro: pools.R_trans cli_turn_keeps)

end
