(* ===== verification/ClientStart.thy ===== *)
theory ClientStart
  imports ClientOpening ClientTables
begin

text \<open>
  The start of the tunnel client: \<^verbatim>\<open>NClient\<close>'s constructor runs before the loop does, on a thread that
  is not the loop's yet, so every \<^verbatim>\<open>connect\<close> is only queued. What is queued are the starts of the
  configured channels, in their order; the tables are exact from the beginning.
\<close>

section \<open>Before the loop runs\<close>

text \<open>The thread \<open>t\<close> executes, and the loop's thread id is another one.\<close>

definition foreign_thread :: "env \<Rightarrow> int \<Rightarrow> 'z reactor_scheme \<Rightarrow> bool" where
  "foreign_thread E t w \<longleftrightarrow> (\<forall>h. ret (kern E h Sys_gettid) = t) \<and> cached_tid w \<in> {0, t} \<and> loop_tid w \<noteq> t"

text \<open>A generator that does not repeat itself.\<close>

definition fresh_uuids :: "env \<Rightarrow> bool" where
  "fresh_uuids E \<longleftrightarrow> (\<forall>h r. (Sys_uuid, r) \<in> set h \<longrightarrow> data (kern E h Sys_uuid) \<noteq> data r)"

lemma tid_foreign:
  assumes "foreign_thread E t w"
  obtains h where "current_tid E w = (t, w\<lparr>cached_tid := t, hist := h\<rparr>)"
    and "set (hist w) \<subseteq> set h" and "sent h = sent (hist w)"
proof (cases "cached_tid w = 0")
  case True
  then show ?thesis
    using assms that [of "(Sys_gettid, kern E (hist w) Sys_gettid) # hist w"]
    by (auto simp: foreign_thread_def current_tid_def cacheTid_def sysw_simp fun_eq_iff)
next
  case False
  then show ?thesis
    using assms that [of "hist w"] by (auto simp: foreign_thread_def current_tid_def)
qed

lemma run_foreign:
  assumes "foreign_thread E t w"
  obtains h where "run_on_onwer_thread E k body w =
      Inr (w\<lparr>cached_tid := t, to_do_list := to_do_list w @ [k], hist := h\<rparr>)" and "set (hist w) \<subseteq> set h"
proof -
  obtain h where h: "current_tid E w = (t, w\<lparr>cached_tid := t, hist := h\<rparr>)" "set (hist w) \<subseteq> set h"
    using assms by (rule tid_foreign)
  let ?w = "w\<lparr>cached_tid := t, hist := h\<rparr>"
  let ?c = "Sys_write (wakeup_fd w) (CHR 0x01 # replicate 7 (CHR 0x00))"
  have "run_on_onwer_thread E k body w =
      Inr (w\<lparr>cached_tid := t, to_do_list := to_do_list w @ [k], hist := (?c, kern E h ?c) # h\<rparr>)"
    using assms h(1)
    by (simp add: run_on_onwer_thread_def isInEpollLoop_def foreign_thread_def wakeup_loop_def add_to_do_def sysw_simp)
  then show ?thesis by (rule that) (use h(2) in auto)
qed

section \<open>One channel\<close>

text \<open>A control client whose start is queued.\<close>

definition awaiting_start :: "nat \<Rightarrow> CControlChannelArgs \<Rightarrow> cli_cb client \<Rightarrow> bool" where
  "awaiting_start j args q \<longleftrightarrow> (\<exists>f. unconnected f (a_server_addr args) (q\<lparr>connected := False\<rparr>))
     \<and> connected q \<and> connect_flag (cl_connector q) \<and> cl_on_connect q = Some (Cb_control_handshake j)"

lemma parse_arg_queues:
  assumes t: "foreign_thread E t w" and open_s: "opens_sockets E" and i: "i = data (kern E (hist w) Sys_uuid)"
    and free: "map_of (cc_map w) i = None" and j: "j = next_cc w" and k: "k = next_client w"
  obtains w' q where "parse_arg E H args w = Inr w'"
    and "ccs w' = (ccs w)(j \<mapsto> \<lparr>cc_id = i, cc_args = args, control_client = k, data_pool = [], register_set = True\<rparr>)"
    and "clients w' = (clients w)(k \<mapsto> q)" and "awaiting_start j args q"
    and "cc_map w' = (i, Some j) # cc_map w" and "to_do_list w' = to_do_list w @ [Task_startInLoop k]"
    and "next_cc w' = Suc j" and "next_client w' = Suc k" and "dcs w' = dcs w" and "conns w' = conns w"
    and "wakeup_channel w' = wakeup_channel w" and "stop_flag w' = stop_flag w"
    and "foreign_thread E t w'" and "set (hist w) \<subseteq> set (hist w')" and "\<exists>r. (Sys_uuid, r) \<in> set (hist w') \<and> data r = i"
proof -
  let ?h0 = "(Sys_uuid, kern E (hist w) Sys_uuid) # hist w"
  let ?w0 = "w\<lparr>hist := ?h0\<rparr>"
  obtain x h f where c: "Client_new E (a_server_addr args) ?w0 = Inr (k, put_client k x (?w0\<lparr>next_client := Suc k, hist := h\<rparr>))"
      and x: "unconnected f (a_server_addr args) x" "still ?h0 h"
    by (rule Client_new_ok [OF open_s, of "a_server_addr args" ?w0]) (simp add: k)
  let ?cc = "\<lparr>cc_id = i, cc_args = args, control_client = k, data_pool = [], register_set = True\<rparr>"
  let ?q = "x\<lparr>cl_on_connect := Some (Cb_control_handshake j), connected := True,
      cl_connector := (cl_connector x)\<lparr>connect_flag := True\<rparr>\<rparr>"
  let ?w1 = "put_cc j ?cc ((put_client k x (w\<lparr>next_client := Suc k, hist := h\<rparr>))\<lparr>next_cc := Suc j\<rparr>)"
  let ?w2 = "put_client k ?q ?w1"
  let ?w3 = "\<lambda>h'. ?w2\<lparr>cached_tid := t, to_do_list := to_do_list w @ [Task_startInLoop k], hist := h'\<rparr>"
  have foreign: "foreign_thread E t ?w2" using t by (simp add: foreign_thread_def put_client_def put_cc_def)
  obtain h' where h': "run_on_onwer_thread E (Task_startInLoop k) (startInLoop E H k) ?w2 = Inr (?w3 h')" "set h \<subseteq> set h'"
    by (rule run_foreign [OF foreign, of "Task_startInLoop k" "startInLoop E H k"]) (simp add: put_cc_def)
  have x': "cl_conn x = None" "\<not> connected x" using x(1) by (simp_all add: unconnected_def)
  have "CControlChannel_start E H j ?w1 = Inr (?w3 h')"
    using x' h'(1)
    by (simp add: CControlChannel_start_def set_cb_unconnected Client_connect_def Connector_start_def
        set_connector_def modify_client_def)
  moreover have "CControlChannel_new E i args ?w0 =
      Inr (j, (put_cc j (?cc\<lparr>register_set := False\<rparr>) (put_client k x (w\<lparr>next_client := Suc k, hist := h\<rparr>)))\<lparr>next_cc := Suc j\<rparr>)"
    using c j by (simp add: CControlChannel_new_def Let_def put_client_def)
  moreover have "put_cc j ?cc ((put_cc j (?cc\<lparr>register_set := False\<rparr>) (put_client k x (w\<lparr>next_client := Suc k, hist := h\<rparr>)))
      \<lparr>next_cc := Suc j\<rparr>) = ?w1"
    by (simp add: put_cc_def)
  ultimately have run: "parse_arg E H args w = Inr ((?w3 h')\<lparr>cc_map := (i, Some j) # cc_map w\<rparr>)"
    using i free by (simp add: parse_arg_def GenerateUUIDAsString_def sysw_simp Let_def put_cc_def put_client_def)
  show ?thesis
    by (rule that [OF run, of ?q])
       (use x h' t i in \<open>auto simp: awaiting_start_def unconnected_def foreign_thread_def still_def put_cc_def put_client_def\<close>)
qed

section \<open>All of them\<close>

text \<open>
  The channels of \<open>args\<close> have been opened, numbered from \<open>j\<close> on with clients from \<open>k\<close> on: each is in
  the table under its id, has no data channels yet, and its client waits for the queued start.
\<close>

definition lined_up :: "nat \<Rightarrow> nat \<Rightarrow> CControlChannelArgs list \<Rightarrow> NClient \<Rightarrow> bool" where
  "lined_up j k args w \<longleftrightarrow>
     (\<forall>m < length args. \<exists>i q.
        ccs w (j + m) = Some \<lparr>cc_id = i, cc_args = args ! m, control_client = k + m, data_pool = [], register_set = True\<rparr>
        \<and> map_of (cc_map w) i = Some (Some (j + m))
        \<and> clients w (k + m) = Some q \<and> awaiting_start (j + m) (args ! m) q)
     \<and> to_do_list w = map Task_startInLoop [k ..< k + length args]"

text \<open>A loop that has not been stopped and can be woken.\<close>

definition loop_ready :: "'z reactor_scheme \<Rightarrow> bool" where
  "loop_ready w \<longleftrightarrow> \<not> stop_flag w \<and> read_callback (wakeup_channel w) = Some Cb_wakeup_callback"

text \<open>The keys come from the generator, so that the next one is new; there are no other channels.\<close>

definition getting_ready :: "env \<Rightarrow> int \<Rightarrow> nat \<Rightarrow> nat \<Rightarrow> CControlChannelArgs list \<Rightarrow> NClient \<Rightarrow> bool" where
  "getting_ready E t j k args w \<longleftrightarrow> lined_up j k args w \<and> foreign_thread E t w \<and> loop_ready w
     \<and> next_cc w = j + length args \<and> next_client w = k + length args
     \<and> (\<forall>i p. map_of (cc_map w) i = Some p \<longrightarrow>
          (\<exists>r. (Sys_uuid, r) \<in> set (hist w) \<and> data r = i) \<and> (\<exists>m < length args. p = Some (j + m) \<and> (\<exists>x. ccs w (j + m) = Some x \<and> cc_id x = i)))
     \<and> (\<forall>j' x. ccs w j' = Some x \<longrightarrow> (\<exists>m < length args. j' = j + m))"

lemma ready_for_more:
  assumes op: "getting_ready E t j k args w" and env: "opens_sockets E" "fresh_uuids E"
  obtains w' where "parse_arg E H a w = Inr w'" and "getting_ready E t j k (args @ [a]) w'" and "dcs w' = dcs w"
proof -
  let ?n = "length args" and ?i = "data (kern E (hist w) Sys_uuid)"
  note o = op [unfolded getting_ready_def lined_up_def]
  have key: "\<exists>r. (Sys_uuid, r) \<in> set (hist w) \<and> data r = i" if "map_of (cc_map w) i = Some p" for i p
    using o that by blast
  have new: "map_of (cc_map w) ?i = None"
    using key [of ?i] env(2) unfolding fresh_uuids_def by (cases "map_of (cc_map w) ?i") metis+
  have nj: "j + ?n = next_cc w" "k + ?n = next_client w" and t: "foreign_thread E t w" using o by simp_all
  obtain w' q where w': "parse_arg E H a w = Inr w'"
      "ccs w' = (ccs w)(j + ?n \<mapsto> \<lparr>cc_id = ?i, cc_args = a, control_client = k + ?n, data_pool = [], register_set = True\<rparr>)"
      "clients w' = (clients w)(k + ?n \<mapsto> q)" "awaiting_start (j + ?n) a q" "cc_map w' = (?i, Some (j + ?n)) # cc_map w"
      "to_do_list w' = to_do_list w @ [Task_startInLoop (k + ?n)]" "next_cc w' = Suc (j + ?n)" "next_client w' = Suc (k + ?n)"
      "dcs w' = dcs w" "foreign_thread E t w'" "set (hist w) \<subseteq> set (hist w')" "\<exists>r. (Sys_uuid, r) \<in> set (hist w') \<and> data r = ?i"
      "wakeup_channel w' = wakeup_channel w" "stop_flag w' = stop_flag w"
    by (rule parse_arg_queues [OF t env(1) refl new nj, of H a])
  have old: "map_of (cc_map w) i = Some p \<Longrightarrow> i \<noteq> ?i" for i p using new by auto
  have "lined_up j k (args @ [a]) w'"
    unfolding lined_up_def
  proof (intro conjI allI impI)
    fix m
    assume m: "m < length (args @ [a])"
    show "\<exists>i q. ccs w' (j + m) = Some \<lparr>cc_id = i, cc_args = (args @ [a]) ! m, control_client = k + m, data_pool = [], register_set = True\<rparr>
        \<and> map_of (cc_map w') i = Some (Some (j + m)) \<and> clients w' (k + m) = Some q \<and> awaiting_start (j + m) ((args @ [a]) ! m) q"
    proof (cases "m = ?n")
      case False
      then have less: "m < ?n" using m by simp
      then obtain i q' where iq: "ccs w (j + m) =
            Some \<lparr>cc_id = i, cc_args = args ! m, control_client = k + m, data_pool = [], register_set = True\<rparr>"
          "map_of (cc_map w) i = Some (Some (j + m))" "clients w (k + m) = Some q'" "awaiting_start (j + m) (args ! m) q'"
        using o by blast
      then show ?thesis
        using less old [OF iq(2)] w'(2,3,5) by (intro exI [of _ i] exI [of _ q']) (simp add: nth_append)
    qed (use w' in \<open>auto simp: nth_append\<close>)
  qed (use o w'(6) in simp)
  moreover have "(\<exists>r. (Sys_uuid, r) \<in> set (hist w') \<and> data r = i) \<and> (\<exists>m < length (args @ [a]). p = Some (j + m) \<and> (\<exists>x. ccs w' (j + m) = Some x \<and> cc_id x = i))"
    if "map_of (cc_map w') i = Some p" for i p
  proof (cases "i = ?i")
    case False
    then have "map_of (cc_map w) i = Some p" using that w'(5) by simp
    then have "(\<exists>r. (Sys_uuid, r) \<in> set (hist w) \<and> data r = i) \<and> (\<exists>m < ?n. p = Some (j + m) \<and> (\<exists>x. ccs w (j + m) = Some x \<and> cc_id x = i))"
      using o by blast
    then show ?thesis using w'(2,11) by (fastforce intro: less_SucI)
  qed (use that w'(2,5,12) in auto)
  moreover have "\<exists>m < length (args @ [a]). j' = j + m" if "ccs w' j' = Some x" for j' x
  proof (cases "j' = j + ?n")
    case False
    then have "ccs w j' = Some x" using that w'(2) by simp
    then have "\<exists>m < ?n. j' = j + m" using o by blast
    then show ?thesis by (auto intro: less_SucI)
  qed auto
  ultimately have "getting_ready E t j k (args @ [a]) w'"
    unfolding getting_ready_def using o w'(7,8,10,13,14) by (simp add: loop_ready_def)
  then show ?thesis using that w'(1,9) by blast
qed

lemma parse_args_opens:
  assumes "getting_ready E t j k [] w" and "opens_sockets E" and "fresh_uuids E"
  shows "\<exists>w'. parse_args E H args w = Inr w' \<and> getting_ready E t j k args w' \<and> dcs w' = dcs w"
proof (induction args rule: rev_induct)
  case (snoc a args)
  then obtain w1 where "parse_args E H args w = Inr w1" "getting_ready E t j k args w1" "dcs w1 = dcs w" by blast
  moreover from this obtain w' where "parse_arg E H a w1 = Inr w'" "getting_ready E t j k (args @ [a]) w'" "dcs w' = dcs w1"
    using ready_for_more assms(2,3) by blast
  ultimately show ?case by (simp add: parse_args_def foldR_append)
qed (use assms in \<open>simp add: parse_args_def\<close>)

text \<open>Such tables are exact.\<close>

lemma ready_pools_ok:
  assumes op: "getting_ready E t j k args w" and none: "dcs w = Map.empty"
  shows "pools_ok {} {} w"
proof -
  note o = op [unfolded getting_ready_def lined_up_def]
  have cc: "register_set x \<and> data_pool x = [] \<and> map_of (cc_map w) (cc_id x) = Some (Some j')"
    if x: "ccs w j' = Some x" for j' x
  proof -
    obtain m where m: "m < length args" "j' = j + m" using o x by blast
    then show ?thesis using o x by fastforce
  qed
  have "\<exists>x. ccs w j' = Some x \<and> cc_id x = i" if i: "map_of (cc_map w) i = Some (Some j')" for i j'
    using o i by blast
  then show ?thesis
    unfolding pools_ok_def ids_ok_def using cc none by (auto simp: in_pool_def split: option.splits)
qed

lemma EventLoop_new_ok:
  assumes "\<And>h. 0 \<le> ret (kern E h Sys_epoll_create)"
  obtains w1 where "EventLoop_new E w = Inr w1" and "same_pools w w1" and "clients w1 = clients w"
    and "conns w1 = conns w" and "next_cc w1 = next_cc w" and "next_client w1 = next_client w"
    and "cached_tid w1 = cached_tid w" and "loop_tid w1 = loop_tid w" and "to_do_list w1 = []" and "loop_ready w1"
proof -
  let ?w1 = "case EventLoop_new E w of Inr w1 \<Rightarrow> w1 | Inl _ \<Rightarrow> w"
  have "\<not> ret (kern E (hist w) Sys_epoll_create) < 0" using assms [of "hist w"] by simp
  then show ?thesis
    by (intro that [of ?w1])
       (simp_all add: EventLoop_new_def Epoll_new_def errif_def sysw_simp Let_def set_read_callback_def
         enableRead_def Epoll_update_channel_def Channel_new_def same_pools_def
         loop_ready_def setEpolled_def)
qed

lemma NClient_new_lines_up:
  assumes env: "opens_sockets E" "fresh_uuids E" "\<And>h. 0 \<le> ret (kern E h Sys_epoll_create)"
    and t: "foreign_thread E t w" and none: "ccs w = Map.empty" "dcs w = Map.empty"
  obtains w' where "NClient_new E H args w = Inr w'" and "lined_up (next_cc w) (next_client w) args w'"
    and "pools_ok {} {} w'" and "foreign_thread E t w'" and "loop_ready w'"
proof -
  obtain w1 where w1: "EventLoop_new E w = Inr w1" "same_pools w w1" "next_cc w1 = next_cc w"
      "next_client w1 = next_client w" "cached_tid w1 = cached_tid w" "loop_tid w1 = loop_tid w" "to_do_list w1 = []" "loop_ready w1"
    by (rule EventLoop_new_ok [OF env(3), of w])
  let ?w = "w1\<lparr>cc_map := []\<rparr>"
  have "getting_ready E t (next_cc w) (next_client w) [] ?w"
    using t none w1 by (simp add: getting_ready_def lined_up_def foreign_thread_def same_poolsD [OF w1(2)]
        loop_ready_def)
  then obtain w' where w': "parse_args E H args ?w = Inr w'"
      "getting_ready E t (next_cc w) (next_client w) args w'" "dcs w' = dcs ?w"
    using parse_args_opens env(1,2) by blast
  have "dcs w' = Map.empty" using w'(3) none(2) same_poolsD(3) [OF w1(2)] by simp
  then have "pools_ok {} {} w'" by (rule ready_pools_ok [OF w'(2)])
  then show ?thesis
    using that [of w'] w1(1) w'(1,2) by (simp add: NClient_new_def getting_ready_def)
qed

section \<open>The first turn of the loop\<close>

definition hello_of :: "env \<Rightarrow> CControlChannelArgs \<Rightarrow> bytes" where
  "hello_of E args = framed_Hello (wire E) (control_hello (a_service_name args) (a_proxy_port args))"

text \<open>
  The channel \<open>j + m\<close> has been started: its client has the connection \<open>c + m\<close>, which waits for the
  server's answer.
\<close>

definition started :: "nat \<Rightarrow> nat \<Rightarrow> nat \<Rightarrow> (nat \<Rightarrow> int) \<Rightarrow> nat \<Rightarrow> NClient \<Rightarrow> bool" where
  "started j k c f m w \<longleftrightarrow> (\<exists>q y. clients w (k + m) = Some q \<and> cl_conn q = Some (c + m)
     \<and> conns w (c + m) = Some y \<and> established (k + m) (c + m) (f m) y
     \<and> on_message y = Some (Cb_wait_control_hello (j + m)))"

lemma start_tasks_open:
  assumes loop: "in_loop w" and fuel: "0 < loop_fuel E" and acc: "\<And>g. accepts_all E g"
    and ch: "\<And>m. m < length args \<Longrightarrow> \<exists>x q. ccs w (j + m) = Some x \<and> cc_args x = args ! m \<and> control_client x = k + m
      \<and> clients w (k + m) = Some q \<and> unconnected (f m) (a_server_addr (args ! m)) (q\<lparr>connected := False\<rparr>)
      \<and> connect_flag (cl_connector q) \<and> cl_on_connect q = Some (Cb_control_handshake (j + m))"
    and net: "\<And>a g. a \<in> set args \<Longrightarrow> connects E g (a_server_addr a) \<and> room Buffer_new (length (hello_of E a))"
    and c: "c = next_ref w" and m: "m \<le> length args"
  shows "\<exists>w'. foldR (cli_run_task E (cli_hooks E (Suc n))) (map Task_startInLoop [k ..< k + m]) w = Inr w'
    \<and> in_loop w' \<and> ccs w' = ccs w \<and> cc_map w' = cc_map w \<and> dcs w' = dcs w \<and> next_ref w' = c + m
    \<and> (\<forall>l. k + m \<le> l \<longrightarrow> clients w' l = clients w l) \<and> (\<forall>l < m. started j k c f l w')
    \<and> (\<forall>g. sent (hist w') g = sent (hist w) g @ concat (map (\<lambda>l. if f l = g then hello_of E (args ! l) else []) [0 ..< m]))"
  using m
proof (induction m)
  case 0
  then show ?case using loop c by simp
next
  case (Suc m)
  then obtain w1 where w1: "foldR (cli_run_task E (cli_hooks E (Suc n))) (map Task_startInLoop [k ..< k + m]) w = Inr w1"
      "in_loop w1" "ccs w1 = ccs w" "cc_map w1 = cc_map w" "dcs w1 = dcs w" "next_ref w1 = c + m"
      "\<And>l. k + m \<le> l \<Longrightarrow> clients w1 l = clients w l" "\<And>l. l < m \<Longrightarrow> started j k c f l w1"
      "\<And>g. sent (hist w1) g = sent (hist w) g @ concat (map (\<lambda>l. if f l = g then hello_of E (args ! l) else []) [0 ..< m])"
    by (auto simp: Suc_le_eq)
  have less: "m < length args" using Suc.prems by simp
  obtain x q where x: "ccs w (j + m) = Some x" "cc_args x = args ! m" "control_client x = k + m" "clients w (k + m) = Some q"
      "unconnected (f m) (a_server_addr (args ! m)) (q\<lparr>connected := False\<rparr>)" "connect_flag (cl_connector q)"
      "cl_on_connect q = Some (Cb_control_handshake (j + m))"
    using ch [OF less] by blast
  have a: "connects E (f m) (a_server_addr (args ! m))" "room Buffer_new (length (hello_of E (args ! m)))"
    using net [of "args ! m"] less by simp_all
  have x1: "ccs w1 (j + m) = Some x" "clients w1 (control_client x) = Some q" using x w1(3,7) by simp_all
  obtain w2 y q' where w2: "cli_run_task E (cli_hooks E (Suc n)) (Task_startInLoop (control_client x)) w1 = Inr w2"
      "conns w2 = (conns w1)(c + m \<mapsto> y)" "established (control_client x) (c + m) (f m) y"
      "on_message y = Some (Cb_wait_control_hello (j + m))" "clients w2 = (clients w1)(control_client x \<mapsto> q')"
      "cl_conn q' = Some (c + m)" "ccs w2 = ccs w1" "cc_map w2 = cc_map w1" "dcs w2 = dcs w1"
      "next_ref w2 = Suc (c + m)" "in_loop w2"
      "sent (hist w2) = (sent (hist w1))(f m := sent (hist w1) (f m) @ hello_of E (args ! m))"
    by (rule start_task_opens [OF w1(2) x1 x(5-7), of "hello_of E (args ! m)" E "c + m" n])
       (use x(2) a acc fuel w1(6) in \<open>simp_all add: hello_of_def\<close>)
  have "foldR (cli_run_task E (cli_hooks E (Suc n))) (map Task_startInLoop [k ..< k + Suc m]) w = Inr w2"
    using w1(1) w2(1) x(3) by (simp add: foldR_append)
  moreover have "started j k c f l w2" if "l < Suc m" for l
  proof (cases "l = m")
    case False
    then have "started j k c f l w1" using that w1(8) by simp
    then show ?thesis using False w2(2,5) x(3) by (simp add: started_def)
  qed (use w2 x(3) in \<open>simp add: started_def\<close>)
  ultimately show ?case
    using w1 w2 x(3) by (intro exI [of _ w2]) simp
qed

text \<open>A poll that reports the wake-up descriptor and nothing else.\<close>

definition wakes :: "env \<Rightarrow> bool" where
  "wakes E \<longleftrightarrow> (\<forall>h e. let r = kern E h (Sys_epoll_wait e MAX_EVENTS) in take (nat (ret r)) (ready r) = [(Chan_wakeup, EPOLLIN)])"

lemma wakeup_turn:
  assumes "wakes E" and "read_callback (wakeup_channel w) = Some Cb_wakeup_callback"
  obtains ch h where "cli_turn E n w =
      do_after_handle_events (cli_run_task E (cli_hooks E n)) (w\<lparr>wakeup_channel := ch, hist := h\<rparr>)"
    and "sent h = sent (hist w)"
proof -
  let ?c = "Sys_epoll_wait (epoll_fd w) MAX_EVENTS"
  let ?h1 = "(?c, kern E (hist w) ?c) # hist w"
  let ?r = "Sys_read (wakeup_fd w) 8"
  let ?ch = "setRevs EPOLLIN (wakeup_channel w)"
  have "take (nat (ret (kern E (hist w) ?c))) (ready (kern E (hist w) ?c)) = [(Chan_wakeup, EPOLLIN)]"
    using assms(1) by (simp add: wakes_def Let_def)
  then have "cli_turn E n w = do_after_handle_events (cli_run_task E (cli_hooks E n))
      (w\<lparr>wakeup_channel := ?ch, hist := (?r, kern E ?h1 ?r) # ?h1\<rparr>)"
    using assms(2)
    by (simp add: cli_turn_def loop_turn_def Epoll_poll_def sysw_simp cli_set_revs_def cli_handle_event_def
        handle_event_guard_def wakeup_callback_def setRevs_def EPOLLIN_def EPOLLOUT_def)
  then show ?thesis by (rule that) (simp add: fun_eq_iff)
qed

lemma first_turn_starts:
  assumes line: "lined_up j k args w1" "foreign_thread E t w1" "loop_ready w1" "pools_ok {} {} w1" and t: "t \<noteq> 0"
    and env: "wakes E" "\<And>g. accepts_all E g" "0 < loop_fuel E"
    and all: "\<forall>a \<in> set args. (\<forall>g. connects E g (a_server_addr a)) \<and> room Buffer_new (length (hello_of E a))"
    and c: "c = next_ref w1" and f: "f = (\<lambda>m. fd (cn_socket (cl_connector (the (clients w1 (k + m))))))"
  obtains v w2 where "current_tid E w1 = (t, v)" and "cli_turn E (Suc n) (v\<lparr>loop_tid := t\<rparr>) = Inr w2"
    and "\<forall>N. run_client E (Suc n) (Suc N) w1 = run_turns (cli_turn E (Suc n)) N w2"
    and "\<forall>m < length args. started j k c f m w2" and "ccs w2 = ccs w1" and "cc_map w2 = cc_map w1"
    and "pools_ok {} {} w2"
    and "\<forall>g. sent (hist w2) g = sent (hist w1) g
      @ concat (map (\<lambda>m. if f m = g then hello_of E (args ! m) else []) [0 ..< length args])"
proof -
  note l = line(1) [unfolded lined_up_def]
  have net: "connects E g (a_server_addr a) \<and> room Buffer_new (length (hello_of E a))" if "a \<in> set args" for a g
    using all that by blast
  obtain h0 where h0: "current_tid E w1 = (t, w1\<lparr>cached_tid := t, hist := h0\<rparr>)" "sent h0 = sent (hist w1)"
    using line(2) by (rule tid_foreign)
  let ?w = "w1\<lparr>cached_tid := t, hist := h0, loop_tid := t\<rparr>"
  obtain ch h where turn: "cli_turn E (Suc n) ?w =
      do_after_handle_events (cli_run_task E (cli_hooks E (Suc n))) (?w\<lparr>wakeup_channel := ch, hist := h\<rparr>)"
      and h: "sent h = sent h0"
    by (rule wakeup_turn [OF env(1), of ?w "Suc n"]) (use line(3) in \<open>simp_all add: loop_ready_def\<close>)
  let ?v = "?w\<lparr>wakeup_channel := ch, hist := h, to_do_list := []\<rparr>"
  have ch: "\<exists>x q. ccs ?v (j + m) = Some x \<and> cc_args x = args ! m \<and> control_client x = k + m
      \<and> clients ?v (k + m) = Some q \<and> unconnected (f m) (a_server_addr (args ! m)) (q\<lparr>connected := False\<rparr>)
      \<and> connect_flag (cl_connector q) \<and> cl_on_connect q = Some (Cb_control_handshake (j + m))" if m: "m < length args" for m
  proof -
    obtain x q where "ccs w1 (j + m) = Some x" "cc_args x = args ! m" "control_client x = k + m" "clients w1 (k + m) = Some q"
        "awaiting_start (j + m) (args ! m) q"
      using l m by fastforce
    then show ?thesis
      by (intro exI [of _ x] exI [of _ q]) (auto simp: f awaiting_start_def unconnected_def)
  qed
  have "in_loop ?v" using t by (simp add: in_loop_def)
  from start_tasks_open [OF this env(3,2) ch net, of c "length args" n]
  obtain w2 where w2: "foldR (cli_run_task E (cli_hooks E (Suc n))) (map Task_startInLoop [k ..< k + length args]) ?v = Inr w2"
      "ccs w2 = ccs w1" "cc_map w2 = cc_map w1" "\<And>m. m < length args \<Longrightarrow> started j k c f m w2"
      "\<And>g. sent (hist w2) g = sent h g @ concat (map (\<lambda>l. if f l = g then hello_of E (args ! l) else []) [0 ..< length args])"
    using c by auto
  have w2t: "cli_turn E (Suc n) ?w = Inr w2"
    using turn w2(1) l by (simp add: do_after_handle_events_def)
  have "pools_step w1 ?w" by (rule pools_step_same) (simp add: same_pools_def)
  then have "pools_ok {} {} w2"
    using cli_turn_keeps [OF w2t] line(4) by (simp add: pools_step_def holds_step_def)
  moreover have "run_client E (Suc n) (Suc N) w1 = run_turns (cli_turn E (Suc n)) N w2" for N
    using h0(1) w2t line(3) by (simp add: run_client_def EventLoop_run_def loop_ready_def)
  ultimately show ?thesis
    using that [OF h0(1), of w2] w2t w2(2-5) h h0(2) by simp
qed

text \<open>Every run that begins with the constructor and continues on the thread that calls \<^verbatim>\<open>run\<close>.\<close>

lemma NClient_runs_keep:
  assumes env: "opens_sockets E" "fresh_uuids E" "\<And>h. 0 \<le> ret (kern E h Sys_epoll_create)"
    and t: "foreign_thread E t w" and none: "ccs w = Map.empty" "dcs w = Map.empty"
    and new: "NClient_new E H args w = Inr w1" and tid: "current_tid E w1 = (t', v)"
    and run: "tunnelled E (v\<lparr>loop_tid := t'\<rparr>) w'"
  shows "pools_ok {} {} w'"
proof -
  have "pools_ok {} {} w1"
    by (rule NClient_new_lines_up [OF env t none, of H args]) (use new in simp_all)
  moreover have "same_pools w1 (v\<lparr>loop_tid := t'\<rparr>)"
    using tid by (auto simp: current_tid_def cacheTid_def sysw_simp Let_def same_pools_def split: if_splits)
  ultimately show ?thesis
    using pools_step_same tunnelled_keeps [OF run] unfolding pools_step_def holds_step_def by blast
qed

end
