(* ===== verification/Samples.thy ===== *)
theory Samples
  imports NcxServerBridge NcxClient Cli EvPool ServerInvariant ClientInvariant TunnelStream Examples ClientStart
begin

text \<open>
  Concrete environments and process states on which the properties are instantiated: a kernel that
  accepts every write, lets every socket be bound, and hands out a short text on the first read of a
  descriptor and the end of the stream on the next one.
\<close>

section \<open>Kernels\<close>

definition plain_ret :: "int \<Rightarrow> bytes \<Rightarrow> sysret" where
  "plain_ret n bs = \<lparr>ret = n, err = EAGAIN, data = bs, addr_out = zero_addr, so_error = 0, ready = []\<rparr>"

fun reads_of :: "int \<Rightarrow> history \<Rightarrow> nat" where
  "reads_of f [] = 0"
| "reads_of f ((c, r) # h) = (case c of Sys_read g _ \<Rightarrow> if g = f then 1 else 0 | _ \<Rightarrow> 0) + reads_of f h"

fun sample_kern :: "history \<Rightarrow> syscall \<Rightarrow> sysret" where
  "sample_kern h (Sys_write f bs) = plain_ret (int (length bs)) []"
| "sample_kern h (Sys_read f n) =
     (if reads_of f h = 0 then plain_ret (int (length (take n ''hi''))) (take n ''hi'') else plain_ret 0 [])"
| "sample_kern h (Sys_socket b) = plain_ret 5 []"
| "sample_kern h Sys_uuid = plain_ret 0 ''nonce''"
| "sample_kern h c = plain_ret 0 []"

definition sample_env :: env where
  "sample_env = \<lparr>kern = sample_kern, inet_addr = (\<lambda>_. 0), inet_ntoa = (\<lambda>_. ''0.0.0.0''), wire = wire_ref,
                 loop_fuel = 4\<rparr>"

lemma plain_ret_simps [simp]:
  "ret (plain_ret n bs) = n" "data (plain_ret n bs) = bs" "err (plain_ret n bs) = EAGAIN"
  by (simp_all add: plain_ret_def)

lemma sample_env_simps [simp]:
  "kern sample_env = sample_kern" "wire sample_env = wire_ref" "loop_fuel sample_env = 4"
  by (simp_all add: sample_env_def)

lemma sample_accepts [simp]: "accepts_all sample_env f"
  by (simp add: accepts_all_def)

lemma sample_reads_wf [simp]: "reads_wf sample_env f"
  by (simp add: reads_wf_def Let_def)

lemma sample_listens [simp]: "can_listen sample_env"
  by (simp add: can_listen_def)

lemma sample_runtime [simp]: "protobuf_runtime (wire sample_env)"
  by (simp add: ref_wire.protobuf_runtime_axioms)

section \<open>Objects\<close>

definition sample_channel :: "nat \<Rightarrow> int \<Rightarrow> channel" where
  "sample_channel c f =
     \<lparr>ch_fd = f, tie = Some c, listen_events = 3, ready_events = 1, is_epolled = True,
      read_callback = Some Cb_handle_data_in, write_callback = Some Cb_handle_data_out\<rparr>"

definition sample_conn :: "nat \<Rightarrow> int \<Rightarrow> close_cb \<Rightarrow> 'cb option \<Rightarrow> 'cb option \<Rightarrow> bytes \<Rightarrow> nat \<Rightarrow> 'cb connection" where
  "sample_conn c f cl msg notice inp uses =
     \<lparr>conn_id = int c, client_fd = f, c_state = CONNECTED, local_addr = zero_addr, peer_addr = zero_addr,
      c_channel = sample_channel c f, input_buffer = sample_buffer inp, output_buffer = Buffer_new,
      on_conn = None, on_message = msg, on_close = Some cl, notice_on_close = notice, use_count = uses\<rparr>"

lemma sample_conn_simps [simp]:
  "conn_id (sample_conn c f cl msg notice inp uses) = int c"
  "client_fd (sample_conn c f cl msg notice inp uses) = f"
  "c_state (sample_conn c f cl msg notice inp uses) = CONNECTED"
  "c_channel (sample_conn c f cl msg notice inp uses) = sample_channel c f"
  "input_buffer (sample_conn c f cl msg notice inp uses) = sample_buffer inp"
  "output_buffer (sample_conn c f cl msg notice inp uses) = Buffer_new"
  "on_message (sample_conn c f cl msg notice inp uses) = msg"
  "on_close (sample_conn c f cl msg notice inp uses) = Some cl"
  "notice_on_close (sample_conn c f cl msg notice inp uses) = notice"
  "use_count (sample_conn c f cl msg notice inp uses) = uses"
  by (simp_all add: sample_conn_def)

lemma sample_buffer_empty [simp]:
  "buf_ok (sample_buffer [])" "contents (sample_buffer []) = []"
  "buf_ok Buffer_new" "contents Buffer_new = []"
  by (simp_all add: sample_buffer_ok buf_ok_new contents_new)

definition sample_server :: "(int \<times> nat) list \<Rightarrow> 'cb server" where
  "sample_server tab =
     \<lparr>sock = \<lparr>fd = 3, is_nonblock = Some False\<rparr>, accept_channel = Channel_new 3,
      new_connection_callback = True, connections = tab, s_on_connect = None, s_on_message = None,
      s_on_disconnect = None\<rparr>"

definition sample_nserver ::
  "(nat \<Rightarrow> srv_cb connection option) \<Rightarrow> (nat \<Rightarrow> srv_cb server option) \<Rightarrow> (bytes \<times> nat) list
   \<Rightarrow> (nat \<Rightarrow> SControlChannel option) \<Rightarrow> (nat \<Rightarrow> BridgeCloser option) \<Rightarrow> NServer" where
  "sample_nserver cs ss m ks bs =
     \<lparr>hist = [], cached_tid = 1, epoll_fd = 4, loop_tid = 1, to_do_list = [], stop_flag = False,
      wakeup_fd = 99, wakeup_channel = Channel_new 99, conns = cs, next_ref = 100, servers = ss,
      next_server = 100, server_addr = zero_addr, args_backlog = 256, ncx_acceptor = 0, sc_map = m,
      scs = ks, next_sc = 100, bridges = bs, next_bridge = 100\<rparr>"

lemma sample_nserver_simps [simp]:
  "conns (sample_nserver cs ss m ks bs) = cs" "servers (sample_nserver cs ss m ks bs) = ss"
  "sc_map (sample_nserver cs ss m ks bs) = m" "scs (sample_nserver cs ss m ks bs) = ks"
  "bridges (sample_nserver cs ss m ks bs) = bs" "hist (sample_nserver cs ss m ks bs) = []"
  "wakeup_fd (sample_nserver cs ss m ks bs) = 99" "epoll_fd (sample_nserver cs ss m ks bs) = 4"
  "in_loop (sample_nserver cs ss m ks bs)" "next_bridge (sample_nserver cs ss m ks bs) = 100"
  "next_sc (sample_nserver cs ss m ks bs) = 100" "next_ref (sample_nserver cs ss m ks bs) = 100"
  "server_addr (sample_nserver cs ss m ks bs) = zero_addr"
  "next_server (sample_nserver cs ss m ks bs) = 100"
  by (simp_all add: sample_nserver_def in_loop_def)

definition sample_nclient ::
  "(nat \<Rightarrow> cli_cb connection option) \<Rightarrow> (nat \<Rightarrow> cli_cb client option) \<Rightarrow> (bytes \<times> nat option) list
   \<Rightarrow> (nat \<Rightarrow> CControlChannel option) \<Rightarrow> (nat \<Rightarrow> DataChannel option) \<Rightarrow> NClient" where
  "sample_nclient cs ks m ccl dcl =
     \<lparr>hist = [], cached_tid = 1, epoll_fd = 4, loop_tid = 1, to_do_list = [], stop_flag = False,
      wakeup_fd = 99, wakeup_channel = Channel_new 99, conns = cs, next_ref = 100, clients = ks,
      next_client = 100, cc_map = m, ccs = ccl, next_cc = 100, dcs = dcl, next_dc = 100\<rparr>"

lemma sample_nclient_simps [simp]:
  "conns (sample_nclient cs ks m ccl dcl) = cs" "clients (sample_nclient cs ks m ccl dcl) = ks"
  "cc_map (sample_nclient cs ks m ccl dcl) = m" "ccs (sample_nclient cs ks m ccl dcl) = ccl"
  "dcs (sample_nclient cs ks m ccl dcl) = dcl" "hist (sample_nclient cs ks m ccl dcl) = []"
  "in_loop (sample_nclient cs ks m ccl dcl)" "next_dc (sample_nclient cs ks m ccl dcl) = 100"
  by (simp_all add: sample_nclient_def in_loop_def)

definition sample_client :: "nat option \<Rightarrow> bool \<Rightarrow> connector_state \<Rightarrow> 'cb client" where
  "sample_client c up st =
     \<lparr>cl_connector = \<lparr>cn_server_addr = zero_addr, connect_flag = True,
        cn_socket = \<lparr>fd = 5, is_nonblock = Some True\<rparr>, cn_channel = None, cn_state = st\<rparr>,
      cl_on_connect = None, cl_on_message = None, cl_on_disconnect = None, connected = up,
      cl_conn = c, next_conn_id = 1\<rparr>"

lemma sample_client_simps [simp]:
  "cl_conn (sample_client c up st) = c" "connected (sample_client c up st) = up"
  "cn_state (cl_connector (sample_client c up st)) = st"
  "fd (cn_socket (cl_connector (sample_client c up st))) = 5"
  by (simp_all add: sample_client_def)

section \<open>Sample states and sizes\<close>

definition stingy_env :: env where
  "stingy_env = sample_env\<lparr>kern := (\<lambda>h c. case c of
     Sys_write f bs \<Rightarrow> plain_ret (if h = [] then 2 else int (length bs) - 2) []
   | _ \<Rightarrow> plain_ret 0 [])\<rparr>"

definition full_env :: env where
  "full_env = sample_env\<lparr>kern := (\<lambda>h c. plain_ret (-1) [])\<rparr>"

definition drained_env :: env where
  "drained_env = sample_env\<lparr>kern := (\<lambda>h c. case c of
     Sys_read f n \<Rightarrow> if reads_of f h = 0 then plain_ret (int (length (take n ''hi''))) (take n ''hi'')
                     else plain_ret (-1) []
   | _ \<Rightarrow> plain_ret 0 [])\<rparr>"

definition bridged_nserver :: NServer where
  "bridged_nserver = sample_nserver
     [0 \<mapsto> sample_conn 0 7 (Cb_disconnectHandle 1) (Some (Cb_forward 1)) (Some (Cb_cut_bridge 0)) [] 1,
      1 \<mapsto> sample_conn 1 8 (Cb_disconnectHandle 0) (Some (Cb_forward 0)) (Some (Cb_cut_bridge 0)) [] 1]
     [0 \<mapsto> sample_server [(1, 1)], 1 \<mapsto> sample_server [(0, 0)]] [(''n'', 0)]
     [0 \<mapsto> \<lparr>ncx_client_conn = 9, proxy_server = 1, wait_handle_visitors = [], bridge_closers = [(''b'', 0)]\<rparr>]
     [0 \<mapsto> \<lparr>bridge_id = ''b'', bridge_inside = 0, bridge_outside = 1, delete_bridge = Some 0, bc_count = 1\<rparr>]"

lemma bridged_nserver_ends:
  "live_end bridged_nserver 0 (sample_conn 0 7 (Cb_disconnectHandle 1) (Some (Cb_forward 1)) (Some (Cb_cut_bridge 0)) [] 1)
     1 (sample_server [(0, 0)]) 0"
  "live_end bridged_nserver 1 (sample_conn 1 8 (Cb_disconnectHandle 0) (Some (Cb_forward 0)) (Some (Cb_cut_bridge 0)) [] 1)
     0 (sample_server [(1, 1)]) 0"
  "bridge_up bridged_nserver 0
     \<lparr>ncx_client_conn = 9, proxy_server = 1, wait_handle_visitors = [], bridge_closers = [(''b'', 0)]\<rparr> 0
     \<lparr>bridge_id = ''b'', bridge_inside = 0, bridge_outside = 1, delete_bridge = Some 0, bc_count = 1\<rparr> 0 1"
  by (simp_all add: live_end_def bridge_up_def ends_def bridged_nserver_def sample_server_def)

lemma sample_incoming:
  "incoming sample_env f 4 [] = Some (''hi'', Read_closed,
     [(Sys_read f 1024, plain_ret 0 []), (Sys_read f 1024, plain_ret 2 ''hi'')])"
  by (simp add: numeral_eq_Suc Let_def)

definition waiting_nserver :: "bytes \<Rightarrow> NServer" where
  "waiting_nserver inp = sample_nserver
     [0 \<mapsto> sample_conn 0 7 (Cb_disconnectHandle 1) None None ''early'' 2,
      1 \<mapsto> sample_conn 1 8 (Cb_disconnectHandle 0) (Some Cb_handle_new_connection) None inp 1]
     [0 \<mapsto> sample_server [(1, 1)], 1 \<mapsto> sample_server [(0, 0)]] [(''n'', 0)]
     [0 \<mapsto> \<lparr>ncx_client_conn = 9, proxy_server = 1, wait_handle_visitors = [0], bridge_closers = []\<rparr>]
     (\<lambda>_. None)"

lemma start_forward_short: "length (start_forward wire_ref) < 100"
  using ref_wire.frame_eq [OF ref_wire.cmd_body, of START_FORWARD_TCP] ref_wire.enum_length [of 1 START_FORWARD_TCP]
    ref_wire.enum_size_bound [of START_FORWARD_TCP]
  by (simp add: start_forward_def framed_DataChannelCmd_def set_data_channel_cmd_def DataChannelCmd_new_def
      DataChannelCmd_ByteSizeLong_def DataChannelCmd_InternalSerialize_def ref_wire.serialize_body)

lemma ref_hello_frame_length:
  assumes "0 < Hello_ByteSizeLong wire_ref h" and "Hello_ByteSizeLong wire_ref h < 2 ^ 31"
  shows "length (framed_Hello wire_ref h) = 5 + Hello_ByteSizeLong wire_ref h"
proof -
  let ?m = "Hello_InternalSerialize wire_ref h"
  have "length ?m = Hello_ByteSizeLong wire_ref h" by (rule ref_wire.hello_size)
  then have "?m \<noteq> []" and "length ?m < 2 ^ 32" using assms by auto
  from ref_wire.frame_eq [OF this] show ?thesis
    using assms \<open>length ?m = _\<close> by (simp add: framed_Hello_def ref_wire.serialize_body)
qed

lemma data_hello_short: "length s < 100 \<Longrightarrow> length (framed_Hello wire_ref (data_hello s)) < 300"
proof -
  assume s: "length s < 100"
  have "Hello_ByteSizeLong wire_ref (data_hello s) \<le> length s + 22"
    using ref_wire.string_size_bound [of s] ref_wire.enum_size_bound [of DATA_CHANNEL_HELLO] s
    by (simp add: data_hello_def set_digest_def set_hello_type_def Hello_new_def Hello_ByteSizeLong_def)
  moreover have "0 < Hello_ByteSizeLong wire_ref (data_hello s)"
    by (rule ref_wire.digest_hello_size(3)) (use s in simp)
  ultimately show ?thesis
    using ref_hello_frame_length [of "data_hello s"] s by simp
qed

lemma ref_utf8 [simp]: "valid_utf8 wire_ref ''zzz''" "valid_utf8 wire_ref ''n''" "valid_utf8 wire_ref ''nonce''"
    "valid_utf8 wire_ref ''web''" "valid_utf8 wire_ref []"
  by (simp_all add: wire_ref_def)

lemma create_cmd_short: "length (create_cmd wire_ref) < 100"
  using ref_wire.frame_eq [OF ref_wire.cmd_body, of CREATE_DATA_CHANNEL] ref_wire.enum_length [of 1 CREATE_DATA_CHANNEL]
    ref_wire.enum_size_bound [of CREATE_DATA_CHANNEL]
  by (simp add: create_cmd_def framed_ControlChannelCmd_def set_control_channel_cmd_def ControlChannelCmd_new_def
      ControlChannelCmd_ByteSizeLong_def ControlChannelCmd_InternalSerialize_def ref_wire.serialize_body)

lemma control_hello_short: "length s < 100 \<Longrightarrow> length (framed_Hello wire_ref (control_hello s port)) < 300"
proof -
  assume s: "length s < 100"
  let ?c = "set_proxy_port (ucast port) (set_service_name s Hello_Content_new)"
  have "Hello_Content_ByteSizeLong wire_ref ?c \<le> length s + 22"
    using ref_wire.string_size_bound [of s] ref_wire.int32_size_bound [of "ucast port"] s
    by (simp add: Hello_Content_ByteSizeLong_def set_proxy_port_def set_service_name_def
        Hello_Content_new_def)
  then have "MessageSize wire_ref (Hello_Content_ByteSizeLong wire_ref ?c) \<le> length s + 32"
    using ref_wire.message_size_bound [of "Hello_Content_ByteSizeLong wire_ref ?c"] s by simp
  then have "Hello_ByteSizeLong wire_ref (control_hello s port) \<le> length s + 44"
    using ref_wire.enum_size_bound [of CONTROL_CHANNEL_HELLO]
    by (simp add: control_hello_def mutable_hello_content_def set_hello_type_def Hello_new_def
        Hello_ByteSizeLong_def control_channel_hello_content_def)
  moreover have "0 < Hello_ByteSizeLong wire_ref (control_hello s port)"
    by (rule ref_wire.control_hello_size) (use s in simp)
  ultimately show ?thesis using ref_hello_frame_length [of "control_hello s port"] s by simp
qed

lemma control_reply_short: "length s < 100 \<Longrightarrow> length (framed_Hello wire_ref (control_reply s)) < 300"
proof -
  assume s: "length s < 100"
  have "Hello_ByteSizeLong wire_ref (control_reply s) \<le> length s + 22"
    using ref_wire.string_size_bound [of s] ref_wire.enum_size_bound [of CONTROL_CHANNEL_HELLO] s
    by (simp add: control_reply_def set_digest_def set_hello_type_def Hello_new_def Hello_ByteSizeLong_def)
  moreover have "0 < Hello_ByteSizeLong wire_ref (control_reply s)"
    by (rule ref_wire.digest_hello_size(1)) (use s in simp)
  ultimately show ?thesis using ref_hello_frame_length [of "control_reply s"] s by simp
qed

definition greeted_nserver :: NServer where
  "greeted_nserver = sample_nserver
     [1 \<mapsto> sample_conn 1 8 (Cb_disconnectHandle 0) (Some Cb_handle_new_connection) None
        (framed_Hello wire_ref (control_hello ''web'' 80)) 1]
     [0 \<mapsto> sample_server [(1, 1)]] [] (\<lambda>_. None) (\<lambda>_. None)"

definition no_bind_env :: env where
  "no_bind_env = sample_env\<lparr>kern := (\<lambda>h c. case c of
     Sys_bind _ _ \<Rightarrow> plain_ret (-1) [] | Sys_write _ bs \<Rightarrow> plain_ret (int (length bs)) []
   | Sys_uuid \<Rightarrow> plain_ret 0 ''nonce'' | _ \<Rightarrow> plain_ret 0 [])\<rparr>"

definition dialing_conn :: "bytes \<Rightarrow> cli_cb connection" where
  "dialing_conn inp = sample_conn 0 5 (Cb_removeConnection 0) (Some (Cb_wait_control_hello 0)) None inp 1"

definition dialing_cc :: CControlChannel where
  "dialing_cc = \<lparr>cc_id = ''tmp'', cc_args = \<lparr>a_server_addr = zero_addr, a_service_name = ''web'',
     a_service_addr = zero_addr, a_proxy_port = 80\<rparr>, control_client = 0, data_pool = [], register_set = True\<rparr>"

definition dialing_nclient :: "bytes \<Rightarrow> NClient" where
  "dialing_nclient inp = sample_nclient [0 \<mapsto> dialing_conn inp] [0 \<mapsto> sample_client (Some 0) True kConnected]
     [(''tmp'', Some 0)] [0 \<mapsto> dialing_cc] (\<lambda>_. None)"

lemma dialing_simps:
  "conns (dialing_nclient i) 0 = Some (dialing_conn i)" "ccs (dialing_nclient i) 0 = Some dialing_cc"
  "clients (dialing_nclient i) 0 = Some (sample_client (Some 0) True kConnected)"
  "map_of (cc_map (dialing_nclient i)) ''tmp'' = Some (Some 0)" "map_of (cc_map (dialing_nclient i)) ''nonce'' = None"
  "control_client dialing_cc = 0" "register_set dialing_cc" "cc_id dialing_cc = ''tmp''"
  "a_service_name (cc_args dialing_cc) = ''web''" "a_proxy_port (cc_args dialing_cc) = 80"
  "input_buffer (dialing_conn i) = sample_buffer i" "output_buffer (dialing_conn i) = Buffer_new"
  "client_fd (dialing_conn i) = 5"
  by (simp_all add: dialing_nclient_def dialing_conn_def dialing_cc_def)

lemma greeted_simps:
  "conns greeted_nserver 1 = Some (sample_conn 1 8 (Cb_disconnectHandle 0) (Some Cb_handle_new_connection) None
     (framed_Hello wire_ref (control_hello ''web'' 80)) 1)"
  "sc_map greeted_nserver = []" "hist greeted_nserver = []" "next_sc greeted_nserver = 100"
  by (simp_all add: greeted_nserver_def)

lemma heartbeat_short:
  "length (framed_ControlChannelCmd wire_ref (set_control_channel_cmd HEARTBEAT ControlChannelCmd_new)) < 100"
  using ref_wire.frame_eq [OF ref_wire.cmd_body, of HEARTBEAT] ref_wire.enum_length [of 1 HEARTBEAT]
    ref_wire.enum_size_bound [of HEARTBEAT]
  by (simp add: framed_ControlChannelCmd_def set_control_channel_cmd_def ControlChannelCmd_new_def
      ControlChannelCmd_ByteSizeLong_def ControlChannelCmd_InternalSerialize_def ref_wire.serialize_body HEARTBEAT_def)

text \<open>A client with one data channel: client 0 goes to the server, client 1 to the local service.\<close>

definition linked_conn :: "nat \<Rightarrow> int \<Rightarrow> bytes \<Rightarrow> cli_cb connection" where
  "linked_conn c f inp = sample_conn c f (Cb_removeConnection c) (Some (Cb_to_service 0)) None inp 1"

definition linked_dc :: DataChannel where
  "linked_dc = \<lparr>channel_id = ''d'', dc_nonce = ''n'', server_client = 0, service_client = 1,
                data_channel_delete = Some 0\<rparr>"

definition linked_nclient :: "nat option \<Rightarrow> bytes \<Rightarrow> NClient" where
  "linked_nclient peer inp = sample_nclient [0 \<mapsto> linked_conn 0 5 inp, 1 \<mapsto> linked_conn 1 6 []]
     [0 \<mapsto> sample_client (Some 0) True kConnected, 1 \<mapsto> sample_client peer True kConnected]
     [] (\<lambda>_. None) [0 \<mapsto> linked_dc]"

section \<open>Configuration documents and a gateway\<close>

datatype toml = T_table "(bytes \<times> toml) list" | T_string bytes | T_integer "64 word"

fun toml_entries :: "toml \<Rightarrow> (bytes \<times> toml) list" where
  "toml_entries (T_table es) = es"
| "toml_entries _ = []"

definition toml_ref :: "toml \<Rightarrow> toml toml_lib" where
  "toml_ref doc =
     \<lparr>t_parse_file = (\<lambda>path. Inr doc), t_empty = (\<lambda>n. n = T_table []),
      t_as_table = (\<lambda>n. case n of T_table es \<Rightarrow> Some n | _ \<Rightarrow> None),
      t_at_path = (\<lambda>n k. map_of (toml_entries n) k),
      t_is_string = (\<lambda>n. case n of T_string s \<Rightarrow> True | _ \<Rightarrow> False),
      t_is_integer = (\<lambda>n. case n of T_integer v \<Rightarrow> True | _ \<Rightarrow> False),
      t_get_string = (\<lambda>n. case n of T_string s \<Rightarrow> s | _ \<Rightarrow> []),
      t_get_integer = (\<lambda>n. case n of T_integer v \<Rightarrow> v | _ \<Rightarrow> 0),
      t_for_each = toml_entries\<rparr>"

lemma toml_ref_simps [simp]:
  "t_parse_file (toml_ref doc) path = Inr doc" "t_empty (toml_ref doc) n \<longleftrightarrow> n = T_table []"
  "t_as_table (toml_ref doc) (T_table es) = Some (T_table es)"
  "t_at_path (toml_ref doc) n k = map_of (toml_entries n) k"
  "t_is_string (toml_ref doc) (T_string s)" "\<not> t_is_string (toml_ref doc) (T_integer v)"
  "t_is_integer (toml_ref doc) (T_integer v)" "\<not> t_is_integer (toml_ref doc) (T_string s)"
  "t_get_string (toml_ref doc) (T_string s) = s" "t_get_integer (toml_ref doc) (T_integer v) = v"
  "t_for_each (toml_ref doc) n = toml_entries n"
  by (simp_all add: toml_ref_def)

definition server_toml :: "64 word \<Rightarrow> toml" where
  "server_toml port = T_table [(''server'', T_table [(''server_ip'', T_string ''127.0.0.1''),
     (''server_port'', T_integer port), (''backlog'', T_integer 256)])]"

definition client_toml :: toml where
  "client_toml = T_table
     [(''client'', T_table [(''server_ip'', T_string ''127.0.0.1''), (''server_port'', T_integer 6666)]),
      (''ssh'', T_table [(''service_ip'', T_string ''127.0.0.1''), (''service_port'', T_integer 22),
                        (''proxy_port'', T_integer 6667)])]"

definition gateway_toml :: toml where
  "gateway_toml = T_table [(''client'', T_table [(''gateway_ip'', T_string ''127.0.0.1''),
     (''gateway_port'', T_integer 6666), (''token'', T_string ''abc'')])]"

definition sample_beast :: "error_code option \<Rightarrow> bytes \<Rightarrow> unit beast" where
  "sample_beast ec bd =
     \<lparr>b_resolve = (\<lambda>_ _. (None, ())), b_connect = (\<lambda>_. ec), b_write = (\<lambda>_. None),
      b_read = (\<lambda>_. (None, \<lparr>resp_body = bd\<rparr>)), b_shutdown = Some Not_connected, b_prepare_payload = id,
      b_version_string = ''beast''\<rparr>"

lemma sample_beast_simps [simp]:
  "b_resolve (sample_beast ec bd) h p = (None, ())" "b_connect (sample_beast ec bd) u = ec"
  "b_write (sample_beast ec bd) q = None" "b_read (sample_beast ec bd) r = (None, \<lparr>resp_body = bd\<rparr>)"
  "b_shutdown (sample_beast ec bd) = Some Not_connected"
  by (simp_all add: sample_beast_def)

definition sample_response :: GetServiceResp where
  "sample_response = \<lparr>services = [\<lparr>si_service_name = ''ssh'', si_service_addr = ''127.0.0.1'', si_service_port = 22,
     si_proxy_port = 6667\<rparr>], gr_server_addr = ''10.0.0.1'', gr_server_port = 8888\<rparr>"

section \<open>A server from its start\<close>

text \<open>A kernel that reports the listening socket ready in the first poll and nothing later.\<close>

definition visitor_kern :: "history \<Rightarrow> syscall \<Rightarrow> sysret" where
  "visitor_kern h c = (case c of
     Sys_epoll_wait e m \<Rightarrow>
       if (\<exists>x\<in>set h. case fst x of Sys_epoll_wait _ _ \<Rightarrow> True | _ \<Rightarrow> False) then plain_ret 0 []
       else (plain_ret 1 [])\<lparr>ready := [(Chan_acceptor 100, 1)]\<rparr>
   | _ \<Rightarrow> sample_kern h c)"

definition visitor_env :: env where
  "visitor_env = sample_env\<lparr>kern := visitor_kern\<rparr>"

definition blank_nserver :: NServer where
  "blank_nserver = sample_nserver Map.empty Map.empty [] Map.empty Map.empty"

lemma visitor_env_simps [simp]:
  "kern visitor_env = visitor_kern" "wire visitor_env = wire_ref" "loop_fuel visitor_env = 4"
  by (simp_all add: visitor_env_def)

lemmas boot_defs = NServer_new_def EventLoop_new_def Epoll_new_def Server_new_def Acceptor_new_def
  TcpSocket_new_def TcpSocket_bind_def TcpSocket_listen_def errif_def sys_def Let_def
  set_read_callback_def enableRead_def set_et_def Epoll_update_channel_def Channel_new_def sysw_simp
  bind_on_message_def modify_server_def put_server_def the_server_def set_new_connection_callback_def
  setEpolled_def

lemmas turn_defs = srv_turn_def loop_turn_def Epoll_poll_def srv_set_revs_def srv_handle_event_def
  handle_event_guard_def setRevs_def EPOLLIN_def EPOLLOUT_def do_after_handle_events_def

lemmas accept_defs = acceptNewConnection_def TcpSocket_accept_def newConnectionHandle_def
  getLocalAddr_def getPeerAddr_def Connection_new_def set_nonblocking_def set_conn_handle_def
  set_message_handle_def set_close_handle_def modify_def with_channel_def put_conn_def deref_def
  ConnectionEstablished_def handle_conn_def table_insert_def set_tie_def set_write_callback_def

text \<open>The server starts, accepts one visitor in its first turn and waits in its second.\<close>

lemma first_turn:
  "\<exists>w x. bindR (NServer_new visitor_env zero_addr 256 blank_nserver) (srv_turn visitor_env 1) = Inr w
    \<and> conns w = [100 \<mapsto> x] \<and> c_state x = CONNECTED \<and> next_ref w = 101
    \<and> (\<exists>y\<in>set (hist w). case fst y of Sys_epoll_wait _ _ \<Rightarrow> True | _ \<Rightarrow> False)"
  by (simp add: boot_defs visitor_kern_def blank_nserver_def sample_nserver_def,
      simp add: turn_defs sysw_simp visitor_kern_def modify_server_def put_server_def the_server_def,
      simp add: accept_defs boot_defs do_after_handle_events_def visitor_kern_def, rule exI, rule conjI, rule refl, simp)

lemma later_turn:
  "\<exists>y\<in>set (hist w). case fst y of Sys_epoll_wait _ _ \<Rightarrow> True | _ \<Rightarrow> False \<Longrightarrow>
   srv_turn visitor_env n w = Inr (w\<lparr>hist := (Sys_epoll_wait (epoll_fd w) MAX_EVENTS, plain_ret 0 []) # hist w\<rparr>)"
  by (simp add: srv_turn_def loop_turn_def Epoll_poll_def sysw_simp visitor_kern_def)

lemma first_visitor:
  obtains w0 w1 w2 x where "NServer_new visitor_env zero_addr 256 blank_nserver = Inr w0"
    and "srv_turn visitor_env 1 w0 = Inr w1" and "srv_turn visitor_env 1 w1 = Inr w2"
    and "conns w1 = [100 \<mapsto> x]" and "c_state x = CONNECTED" and "next_ref w1 = 101" and "conns w2 = conns w1"
proof -
  obtain w1 x where w1: "bindR (NServer_new visitor_env zero_addr 256 blank_nserver) (srv_turn visitor_env 1) = Inr w1"
      "conns w1 = [100 \<mapsto> x]" "c_state x = CONNECTED" "next_ref w1 = 101"
      and polled: "\<exists>y\<in>set (hist w1). case fst y of Sys_epoll_wait _ _ \<Rightarrow> True | _ \<Rightarrow> False"
    using first_turn by blast
  obtain w0 where "NServer_new visitor_env zero_addr 256 blank_nserver = Inr w0" "srv_turn visitor_env 1 w0 = Inr w1"
    using w1(1) by (auto simp only: bindR_eq_Inr)
  then show ?thesis by (rule that [OF _ _ later_turn [OF polled] w1(2-4)]) simp
qed

section \<open>Peers that keep talking\<close>

text \<open>Every other read finds two bytes, the one after it nothing for now; writes are taken whole.\<close>

definition chatty_kern :: "history \<Rightarrow> syscall \<Rightarrow> sysret" where
  "chatty_kern h c = (case c of
     Sys_read f n \<Rightarrow>
       if h \<noteq> [] \<and> fst (hd h) = Sys_read f n \<and> 0 < ret (snd (hd h)) then plain_ret (-1) []
       else plain_ret (int (length (take n ''hi''))) (take n ''hi'')
   | Sys_write f bs \<Rightarrow> plain_ret (int (length bs)) []
   | _ \<Rightarrow> plain_ret 0 [])"

definition chatty_env :: env where
  "chatty_env = sample_env\<lparr>kern := chatty_kern\<rparr>"

lemma chatty_env_simps [simp]: "kern chatty_env = chatty_kern" "loop_fuel chatty_env = 4"
  by (simp_all add: chatty_env_def)

lemma chatty_accepts [simp]: "accepts_all chatty_env f"
  by (simp add: accepts_all_def chatty_kern_def)

lemma chatty_streams [simp]: "streams chatty_env f"
proof -
  have wf: "reads_wf chatty_env f"
    by (simp add: reads_wf_def chatty_kern_def Let_def)
  have "\<exists>d h'. incoming chatty_env f (Suc (Suc n)) h = Some (d, Read_again, h') \<and> length d < 2 ^ 62" for h n
  proof (cases "h \<noteq> [] \<and> fst (hd h) = Sys_read f 1024 \<and> 0 < ret (snd (hd h))")
    case True
    then show ?thesis by (simp add: chatty_kern_def Let_def)
  next
    case False
    then have "kern chatty_env h (Sys_read f 1024) = plain_ret 2 ''hi''"
      unfolding chatty_env_simps chatty_kern_def syscall.case by (simp only: if_False) simp
    then show ?thesis by (simp add: Let_def) (simp add: chatty_kern_def)
  qed
  from this [of 2] have "\<exists>d h'. incoming chatty_env f 4 h = Some (d, Read_again, h') \<and> length d < 2 ^ 62" for h
    by simp
  with wf show ?thesis unfolding streams_def by simp
qed

lemma sample_idle [simp]: "idle_in (sample_buffer [])" "idle_in Buffer_new"
  by (simp_all add: idle_in_def) (simp_all add: sample_buffer_def Buffer_new_def kPrePendIndex_def)

lemma sample_input_event [simp]: "input_event c (sample_conn c f cl msg notice inp uses)"
  by (simp add: input_event_def sample_channel_def got_in_def got_out_def EPOLLIN_def EPOLLOUT_def)

lemma sample_links [simp]:
  "linked 0 1 (Cb_forward 1) 7 8 bridged_nserver" "linked 1 0 (Cb_forward 0) 8 7 bridged_nserver"
  "linked 0 1 (Cb_to_service 0) 5 6 (linked_nclient (Some 1) [])"
  "dc_peer service_client 0 1 (linked_nclient (Some 1) [])"
  by (simp_all add: linked_def bridged_nserver_def linked_nclient_def linked_conn_def linked_dc_def dc_peer_def)

text \<open>The same data channel with its second connection answering.\<close>

definition answering_nclient :: NClient where
  "answering_nclient = sample_nclient
     [0 \<mapsto> linked_conn 0 5 [], 1 \<mapsto> sample_conn 1 6 (Cb_removeConnection 1) (Some (Cb_to_server 0)) None [] 1]
     [0 \<mapsto> sample_client (Some 0) True kConnected, 1 \<mapsto> sample_client (Some 1) True kConnected]
     [] (\<lambda>_. None) [0 \<mapsto> linked_dc]"

lemma answering_links:
  "linked 1 0 (Cb_to_server 0) 6 5 answering_nclient" "dc_peer server_client 0 0 answering_nclient"
  by (simp_all add: linked_def answering_nclient_def linked_conn_def linked_dc_def dc_peer_def)

section \<open>A client from its start\<close>

lemma sample_opens [simp]: "opens_sockets sample_env" "connects sample_env f a"
  by (simp_all add: opens_sockets_def connects_def)

text \<open>A data channel whose first connection has the start command in its buffer.\<close>

definition starting_nclient :: "bytes \<Rightarrow> NClient" where
  "starting_nclient inp = sample_nclient [0 \<mapsto> sample_conn 0 8 (Cb_removeConnection 0) (Some (Cb_wait_start 0)) None inp 1]
     [0 \<mapsto> sample_client (Some 0) True kConnected, 1 \<mapsto> sample_client None False kDisconnected]
     [] (\<lambda>_. None) [0 \<mapsto> linked_dc]"

text \<open>Numbered sockets, identifiers longer than all before, and a poll that finds the loop woken.\<close>

definition uuid_length :: "history \<Rightarrow> nat" where
  "uuid_length h = sum_list (map (\<lambda>(c, r). length (data r)) h)"

definition starting_kern :: "history \<Rightarrow> syscall \<Rightarrow> sysret" where
  "starting_kern h c = (case c of
     Sys_uuid \<Rightarrow> plain_ret 0 (replicate (Suc (uuid_length h)) (CHR ''u''))
   | Sys_gettid \<Rightarrow> plain_ret 7 []
   | Sys_socket _ \<Rightarrow> plain_ret (int (length h) + 10) []
   | Sys_epoll_wait _ _ \<Rightarrow> (plain_ret 1 [])\<lparr>ready := [(Chan_wakeup, 1)]\<rparr>
   | Sys_write f bs \<Rightarrow> plain_ret (int (length bs)) []
   | _ \<Rightarrow> plain_ret 0 [])"

definition starting_env :: env where
  "starting_env = sample_env\<lparr>kern := starting_kern\<rparr>"

lemma uuid_length_bound: "(c, r) \<in> set h \<Longrightarrow> length (data r) \<le> uuid_length h"
  by (induction h) (auto simp: uuid_length_def)

lemma starting_env_ok [simp]:
  "opens_sockets starting_env" "connects starting_env f a" "wakes starting_env" "accepts_all starting_env f"
  "fresh_uuids starting_env" "0 < loop_fuel starting_env" "wire starting_env = wire_ref"
  "ret (kern starting_env h Sys_epoll_create) = 0"
proof -
  have "replicate (Suc (uuid_length h)) (CHR ''u'') \<noteq> data r" if "(c, r) \<in> set h" for c r h
  proof
    assume "replicate (Suc (uuid_length h)) (CHR ''u'') = data r"
    then have "length (data r) = Suc (uuid_length h)" using length_replicate by metis
    then show False using uuid_length_bound [OF that] by linarith
  qed
  then show "fresh_uuids starting_env"
    by (auto simp: fresh_uuids_def starting_env_def starting_kern_def simp del: replicate.simps)
qed (simp_all add: starting_env_def starting_kern_def opens_sockets_def connects_def wakes_def accepts_all_def EPOLLIN_def)

definition blank_nclient :: NClient where
  "blank_nclient = (sample_nclient Map.empty Map.empty [] Map.empty Map.empty)\<lparr>loop_tid := 0\<rparr>"

definition sample_args :: "CControlChannelArgs list" where
  "sample_args =
     [\<lparr>a_server_addr = zero_addr, a_service_name = ''ssh'', a_service_addr = zero_addr, a_proxy_port = 2222\<rparr>,
      \<lparr>a_server_addr = zero_addr, a_service_name = ''web'', a_service_addr = zero_addr, a_proxy_port = 8080\<rparr>]"

lemma blank_nclient_ok [simp]:
  "foreign_thread starting_env 7 (blank_nclient\<lparr>cached_tid := 0\<rparr>)" "ccs blank_nclient = Map.empty" "dcs blank_nclient = Map.empty"
  "next_cc blank_nclient = 100" "next_client blank_nclient = 100"
  by (simp_all add: blank_nclient_def sample_nclient_def foreign_thread_def starting_env_def starting_kern_def)

lemma sample_args_room: "a \<in> set sample_args \<Longrightarrow> room Buffer_new (length (hello_of starting_env a))"
  using control_hello_short [of "a_service_name a" "a_proxy_port a"]
  by (auto simp: sample_args_def hello_of_def intro!: room_new)

end
