(* ===== verification/Spec2Isabelle.thy ===== *)
theory Spec2Isabelle
  imports Samples
begin

text \<open>
  Ncx, an intranet tunnel: a verification of its C++ sources.

  \<^bold>\<open>The program.\<close> A client (\<^verbatim>\<open>ncxc\<close>) behind a firewall connects to a server (\<^verbatim>\<open>ncxs\<close>) with a public address and
  asks it, in a control channel \<^verbatim>\<open>Hello\<close>, to listen on a port. For every visitor of that port the server
  sends \<^verbatim>\<open>CREATE_DATA_CHANNEL\<close>; the client answers with a new connection that presents the tunnel's nonce,
  the server bridges it to the oldest waiting visitor and tells the client to start forwarding to the local
  service. Both programs are callbacks on one event loop over epoll.

  \<^bold>\<open>The theories,\<close> in the order in which they build on each other:

  \<^item> \<^verbatim>\<open>Prelude\<close>: machine types, faults, sequencing of fallible operations, generic lemmas.
  \<^item> \<^verbatim>\<open>NetBuffer\<close> (\<^verbatim>\<open>network/buffer.cpp\<close>): the byte buffer over its vector and two 64-bit indices. \<open>buf_ok\<close> is its
    invariant, \<open>contents\<close> its abstraction, the locale \<open>byte_queue\<close> the queue contract its clients rely on.
  \<^item> \<^verbatim>\<open>Messages\<close>, \<^verbatim>\<open>WireFormat\<close>, \<^verbatim>\<open>Framing\<close>, \<^verbatim>\<open>Protocol\<close> (\<^verbatim>\<open>protocol/\<close>): the messages with presence bits as the
    generated classes keep them, the contract of the protobuf runtime as the locale \<open>protobuf_runtime\<close>, a
    runtime written from the published wire format that meets it, the five-byte length header, and the
    messages the two programs exchange.
  \<^item> \<^verbatim>\<open>Kernel\<close> (\<^verbatim>\<open>network/socket.cpp\<close>, \<^verbatim>\<open>socketops.cpp\<close>, \<^verbatim>\<open>InetAddress.cpp\<close>, \<^verbatim>\<open>merror.cpp\<close>): system calls as a history
    answered by a parameter; \<open>sent\<close>, \<open>closed\<close> and \<open>interest\<close> read the effects off a history.
  \<^item> \<^verbatim>\<open>Reactor\<close> (\<^verbatim>\<open>EventLoop.cpp\<close>, \<^verbatim>\<open>epoll.cpp\<close>, \<^verbatim>\<open>channel.cpp\<close>, \<^verbatim>\<open>current_thread.cpp\<close>): channels, the task list, one
    turn of the loop. \<^verbatim>\<open>Conn\<close> (\<^verbatim>\<open>connection.cpp\<close>): connections with their reference counts and callbacks.
    \<^verbatim>\<open>Server\<close> (\<^verbatim>\<open>acceptor.cpp\<close>, \<^verbatim>\<open>server.cpp\<close>) and \<^verbatim>\<open>Client\<close> (\<^verbatim>\<open>connector.cpp\<close>, \<^verbatim>\<open>client.cpp\<close>): both sides of TCP.
  \<^item> \<^verbatim>\<open>NcxServer\<close>, \<^verbatim>\<open>NcxServerBridge\<close> (\<^verbatim>\<open>ncx_server/\<close>) and \<^verbatim>\<open>NcxClient\<close> (\<^verbatim>\<open>ncx_client/\<close>): the two programs.
  \<^item> \<^verbatim>\<open>Gateway\<close> (\<^verbatim>\<open>http/model.h\<close>), \<^verbatim>\<open>HttpSession\<close> (\<^verbatim>\<open>http/http_client.h\<close>), \<^verbatim>\<open>Config\<close> (\<^verbatim>\<open>util/config.h\<close>), \<^verbatim>\<open>Cli\<close>
    (\<^verbatim>\<open>cli/cli.h\<close> and both \<^verbatim>\<open>main\<close> functions): where the arguments of the two programs come from. The JSON library's
    contract is the locale \<open>nlohmann\<close>, met by a small library of values.
  \<^item> \<^verbatim>\<open>Evolution\<close>, \<^verbatim>\<open>ServerEvolution\<close>: what connections and servers can do to the state of a process, as locales over
    a preorder on its states that its callbacks respect. \<^verbatim>\<open>ServerInvariant\<close> and \<^verbatim>\<open>ClientInvariant\<close> interpret them on
    the closures of the two programs: invariants of whole runs (\<open>served\<close>, \<open>tunnelled\<close>), whatever the kernel answers.
  \<^item> \<^verbatim>\<open>TunnelStream\<close>: the locales \<open>byte_mover\<close> and \<open>forwarding\<close>, for closures that relay what arrives on one connection
    to another, interpreted on the server's bridges and on both directions of the client's data channels.
  \<^item> \<^verbatim>\<open>ClientOpening\<close>, \<^verbatim>\<open>ClientTables\<close>, \<^verbatim>\<open>ClientStart\<close>: the client at work. The first follows a connect from \<^verbatim>\<open>Client::connect\<close>
    through the connector to the established connection and its first message, for control channels, data channels and the
    local service; the second shows, with the locales of \<^verbatim>\<open>ClientInvariant\<close>, that every closure keeps \<open>pools_ok\<close>, the agreement
    of the client's tables with the objects that live; the third runs the constructor and the first turn of the loop.
  \<^item> \<^verbatim>\<open>EvPool\<close> (\<^verbatim>\<open>evPoolThread.cpp\<close>): the start of a loop in a thread of its own, as an interleaving step relation.
  \<^item> \<^verbatim>\<open>Examples\<close> (\<^verbatim>\<open>example/\<close>): the echo server and client and the small programs without a loop.
  \<^item> \<^verbatim>\<open>Samples\<close>: concrete kernels, documents and process states on which the properties are instantiated.

  \<^bold>\<open>State and effects.\<close> A class is a record with the class's members; objects others point to live in tables by
  number, and a number no longer in the table is a dangling pointer, whose use is \<^const>\<open>Undefined_Behaviour\<close>.
  \<^verbatim>\<open>std::shared_ptr\<close> is an explicit count (\<open>use_count\<close>, \<open>shared_copy\<close>, \<open>shared_drop\<close>), so lifetimes and
  destructors are part of the model. A \<^verbatim>\<open>std::function\<close> member holds a constructor of a datatype of closures
  (\<open>srv_cb\<close>, \<open>cli_cb\<close>, \<open>close_cb\<close>, \<open>task\<close>), run by \<open>srv_run_cb\<close> and \<open>cli_run_cb\<close>. Every fallible operation
  returns a fault or a result; assertions, exceptions and exits are faults.

  \<^bold>\<open>Fuel.\<close> The read and write loops of a connection are unrolled \<open>loop_fuel\<close> times; the properties about them ask for
  enough fuel for the kernel's answers (one turn when every write is accepted, the calls \<open>incoming\<close> makes for
  a read) and then state that the loop returns. Closures that run closures are given a depth, and each
  property names the depth it needs or holds for all. The event loop itself is run for a number of
  turns, since it need not end. \<open>ioc_run\<close> needs none: its termination is proved.

  \<^bold>\<open>What is shown.\<close> The buffer is a first-in first-out queue and stays within its vector; framed messages come back
  unchanged and incomplete ones wait; serialized sizes are right. Bytes sent are delivered and bytes read are collected;
  foreign tasks are queued and run once. On the server: accepted connections are registered, a control \<^verbatim>\<open>Hello\<close>
  opens a tunnel, visitors are queued in order, a data channel is bridged to the first of them, and the end of either
  side tears the bridge down. On the client: the start connects every configured tunnel and sends its handshake, the
  registration under the nonce, a create command opens and introduces a data channel, a start command joins it to the local
  service without losing a byte, forwarding. Across both: the two ends of a handshake agree on nonce, connection and port, and a
  bridged tunnel carries the visitor's bytes to the service and the answers back, in order and once, over any number of
  input events. Over whole runs: a connection keeps its socket and addresses and its state only advances; the server's
  tables hold live objects only, every bridge closer has exactly as many owners as it counts, and a tunnel once
  registered stays; the client's tables hold exactly its live control and data channels, each under its own id. The echo server answers every byte.
  Configuration: local and remote services are opened exactly and in order, or the process exits. Further theorems
  pin down where the code does less than it means to: partial and refused writes, unreported connect failures, colliding
  connection ids, unknown nonces, ports that are taken or out of range, descriptors closed twice, missing peers.

  \<^bold>\<open>Readings.\<close> The Boost generator behind \<^verbatim>\<open>UUID\<close> is never constructed (\<^verbatim>\<open>util/uuid.h\<close>); the model takes the
  string it gives as an answer of the environment. Replacing the closure that is being run (the message
  handler that installs the next one) is taken as replacing it for later calls. Errors of \<^verbatim>\<open>epoll_ctl\<close> have no effect:
  the wrapper returns no value.

  \<^bold>\<open>Not modelled.\<close> Output to the terminal; the parser tables and descriptors of the generated protobuf code;
  \<^verbatim>\<open>GetServiceReq::parse\<close>, which does not compile; \<^verbatim>\<open>util/singleton.h\<close>, \<^verbatim>\<open>util/util.h\<close> and \<^verbatim>\<open>network/common.h\<close>, which declare and do
  nothing; the files CMake generated under \<^verbatim>\<open>cmake-build-debug/\<close>.
\<close>

section \<open>Sockets and the event core\<close>

text \<open>
  \<^verbatim>\<open>TcpSocket::connect_on_nonblocking\<close> reports success whatever the kernel answers (its failure
  paths return -1 as a \<^verbatim>\<open>bool\<close>), so the check in \<^verbatim>\<open>TcpSocket::connect\<close> that is meant to catch a failed
  non-blocking connect never fires.
\<close>

theorem connect_failure_unreported:
  "fst (connect_on_nonblocking E s remote h) \<and>
   TcpSocket_connect E s remote h \<noteq> Inl (Exit_Failure ''tcp connect error!'')"
proof -
  have "TcpSocket_connect E s remote h \<noteq> Inl (Exit_Failure ''tcp connect error!'')"
    using connect_on_nonblocking_true [of E s remote h]
    by (auto simp: TcpSocket_connect_def errif_def sys_def Let_def split: option.splits prod.splits if_splits)
  then show ?thesis by (simp add: connect_on_nonblocking_true)
qed

text \<open>
  A port survives \<^verbatim>\<open>InetAddress\<close>: what \<^verbatim>\<open>get_port\<close> reads back is the port the address was built
  with, through both byte swaps, for all 65536 ports.
\<close>

theorem inet_address_port: "get_port (InetAddress E ip port) = port \<and> s_addr (InetAddress E ip port) = inet_addr E ip"
  by (simp add: get_port_InetAddress) (simp add: InetAddress_def)

text \<open>
  \<^verbatim>\<open>Channel::set_et\<close> has no effect on what is watched: the edge-triggered flag is bit 31 of a mask
  kept in 16 bits, so the stored mask does not change and the kernel is given the old one again.
\<close>

theorem set_et_requests_nothing:
  "let (ch', w') = set_et E p ch w; ev = scast (listen_events ch)
   in listen_events ch' = listen_events ch \<and>
      fst (hd (hist w')) =
        Sys_epoll_ctl (epoll_fd w) (if is_epolled ch then EPOLL_CTL_MOD else EPOLL_CTL_ADD) (ch_fd ch) ev p"
  by (simp add: set_et_def Epoll_update_channel_def set_et_mask sysw_simp Let_def split_beta)

text \<open>
  Tasks handed to \<^verbatim>\<open>run_on_onwer_thread\<close> from outside the loop's thread are not run there: they are
  appended to the loop's list in the order they were submitted, and each submission writes one
  eight-byte token to the wake-up descriptor.
\<close>

theorem foreign_tasks_are_queued:
  assumes "cached_tid w \<noteq> 0" and "loop_tid w \<noteq> cached_tid w" and "accepts_all E (wakeup_fd w)"
  shows "\<exists>w'. foldR (\<lambda>t. run_on_onwer_thread E t (body t)) ts w = Inr w'
    \<and> to_do_list w' = to_do_list w @ ts
    \<and> sent (hist w') = (sent (hist w))(wakeup_fd w := sent (hist w) (wakeup_fd w)
        @ concat (replicate (length ts) (CHR 0x01 # replicate 7 (CHR 0x00))))"
  using assms
proof (induction ts arbitrary: w)
  case (Cons t ts)
  let ?tok = "CHR 0x01 # replicate 7 (CHR 0x00)"
  let ?w1 = "wakeup_loop E (add_to_do t w)"
  have step: "run_on_onwer_thread E t (body t) w = Inr ?w1"
    using Cons.prems by (simp add: run_on_onwer_thread_def isInEpollLoop_def current_tid_def Let_def)
  have fields: "cached_tid ?w1 = cached_tid w" "loop_tid ?w1 = loop_tid w" "wakeup_fd ?w1 = wakeup_fd w"
      "to_do_list ?w1 = to_do_list w @ [t]"
    by (simp_all add: wakeup_loop_def add_to_do_def sysw_simp)
  have s1: "sent (hist ?w1) = (sent (hist w))(wakeup_fd w := sent (hist w) (wakeup_fd w) @ ?tok)"
    using Cons.prems(3) by (auto simp: wakeup_loop_def add_to_do_def sysw_simp accepts_all_def fun_eq_iff)
  have "\<exists>w'. foldR (\<lambda>t. run_on_onwer_thread E t (body t)) ts ?w1 = Inr w'
      \<and> to_do_list w' = to_do_list ?w1 @ ts
      \<and> sent (hist w') = (sent (hist ?w1))(wakeup_fd ?w1 := sent (hist ?w1) (wakeup_fd ?w1)
          @ concat (replicate (length ts) ?tok))"
    by (rule Cons.IH) (use Cons.prems fields in simp_all)
  then show ?case using step fields s1 by auto
qed simp

theorem foreign_tasks_are_queued_witness:
  "\<exists>w'. foldR (\<lambda>t. run_on_onwer_thread sample_env t Inr) [Task_startInLoop 0, Task_stopInLoop 0]
      ((sample_nclient (\<lambda>_. None) (\<lambda>_. None) [] (\<lambda>_. None) (\<lambda>_. None))\<lparr>loop_tid := 7\<rparr>) = Inr w'
    \<and> to_do_list w' = [Task_startInLoop 0, Task_stopInLoop 0]"
  using foreign_tasks_are_queued
    [of "(sample_nclient (\<lambda>_. None) (\<lambda>_. None) [] (\<lambda>_. None) (\<lambda>_. None))\<lparr>loop_tid := 7\<rparr>" sample_env
        "\<lambda>_. Inr" "[Task_startInLoop 0, Task_stopInLoop 0]"]
  by (auto simp: sample_nclient_def)

text \<open>
  A turn of the loop whose poll reports nothing runs no callback and no task: the list of
  pending tasks is left as it is and the only thing that happened is the poll.
\<close>

theorem empty_poll_skips_tasks:
  assumes "ret (kern E (hist w) (Sys_epoll_wait (epoll_fd w) MAX_EVENTS)) = 0"
  shows "\<exists>r. loop_turn E set_revs handle run_task w =
    Inr (w\<lparr>hist := (Sys_epoll_wait (epoll_fd w) MAX_EVENTS, r) # hist w\<rparr>)"
  by (rule exI [of _ "kern E (hist w) (Sys_epoll_wait (epoll_fd w) MAX_EVENTS)"])
     (use assms in \<open>simp add: loop_turn_def Epoll_poll_def sysw_simp\<close>)

theorem empty_poll_skips_tasks_witness:
  "\<exists>r. loop_turn sample_env cli_set_revs (cli_handle_event sample_env (cli_hooks sample_env 3))
         (cli_run_task sample_env (cli_hooks sample_env 3))
         ((sample_nclient (\<lambda>_. None) (\<lambda>_. None) [] (\<lambda>_. None) (\<lambda>_. None))\<lparr>to_do_list := [Task_startInLoop 0]\<rparr>) =
       Inr ((sample_nclient (\<lambda>_. None) (\<lambda>_. None) [] (\<lambda>_. None) (\<lambda>_. None))
         \<lparr>to_do_list := [Task_startInLoop 0], hist := [(Sys_epoll_wait 4 MAX_EVENTS, r)]\<rparr>)"
  using empty_poll_skips_tasks
    [of sample_env "(sample_nclient (\<lambda>_. None) (\<lambda>_. None) [] (\<lambda>_. None) (\<lambda>_. None))\<lparr>to_do_list := [Task_startInLoop 0]\<rparr>"
      cli_set_revs "cli_handle_event sample_env (cli_hooks sample_env 3)" "cli_run_task sample_env (cli_hooks sample_env 3)"]
  by (simp add: sample_nclient_def)



section \<open>Connections\<close>

text \<open>
  C21: \<^verbatim>\<open>Connection::Send\<close> delivers, on a kernel that takes writes whole: what was still in the output
  buffer followed by the message is what the peer gets, exactly once, and the output buffer is
  empty and well formed afterwards.
\<close>

theorem send_delivers:
  assumes "conns w c = Some x" and "accepts_all E (client_fd x)" and "buf_ok (output_buffer x)"
    and "room (output_buffer x) (length m)" and "0 < loop_fuel E"
  shows "\<exists>w' x'. Send E H c m w = Inr w' \<and> conns w' = (conns w)(c \<mapsto> x')
    \<and> buf_ok (output_buffer x') \<and> contents (output_buffer x') = []
    \<and> sent (hist w') = (sent (hist w))(client_fd x :=
        sent (hist w) (client_fd x) @ contents (output_buffer x) @ m)"
proof (rule Send_all [OF assms, of H])
  fix b
  let ?w' = "put_conn c (x\<lparr>output_buffer := b\<rparr>)
      (w\<lparr>hist := wrote E (client_fd x) (contents (output_buffer x) @ m) (hist w)\<rparr>)"
  assume "Send E H c m w = Inr ?w'" and "buf_ok b" and "contents b = []"
  then show ?thesis
    using assms(2)
    by (intro exI [of _ ?w'] exI [of _ "x\<lparr>output_buffer := b\<rparr>"]) (simp add: sent_wrote)
qed

theorem send_delivers_witness:
  "\<exists>w' x'. Send sample_env (srv_hooks sample_env 2) 0 ''hi''
      (sample_nserver [0 \<mapsto> sample_conn 0 7 (Cb_disconnectHandle 0) None None [] 1] (\<lambda>_. None) [] (\<lambda>_. None) (\<lambda>_. None)) = Inr w'
    \<and> conns w' = [0 \<mapsto> x'] \<and> contents (output_buffer x') = [] \<and> sent (hist w') 7 = ''hi''"
  using send_delivers
    [of "sample_nserver [0 \<mapsto> sample_conn 0 7 (Cb_disconnectHandle 0) None None [] 1] (\<lambda>_. None) [] (\<lambda>_. None) (\<lambda>_. None)"
        0 "sample_conn 0 7 (Cb_disconnectHandle 0) None None [] 1" sample_env "''hi''" "srv_hooks sample_env 2"]
  by (auto simp: room_new)



text \<open>
  C40: When the socket buffer is full (\<^verbatim>\<open>EAGAIN\<close>), \<^verbatim>\<open>WriteNonBlocking\<close> returns with the output buffer
  already emptied and nothing sent: the data is lost.
\<close>

theorem full_socket_loses_data:
  assumes "conns w c = Some x" and "buf_ok (output_buffer x)" and "bs = contents (output_buffer x)"
    and "bs \<noteq> []" and "kern E (hist w) (Sys_write (client_fd x) bs) = r" and "ret r = -1"
    and "err r = EAGAIN" and "0 < loop_fuel E"
  shows "\<exists>w' x'. WriteNonBlocking E H c w = Inr w' \<and> conns w' c = Some x'
    \<and> contents (output_buffer x') = [] \<and> sent (hist w') = sent (hist w)"
  by (rule WriteNonBlocking_again [OF assms])

theorem full_socket_loses_data_witness:
  "\<exists>w' x'. WriteNonBlocking full_env (srv_hooks full_env 2) 0
      (sample_nserver [0 \<mapsto> (sample_conn 0 7 (Cb_disconnectHandle 0) None None [] 1)
         \<lparr>output_buffer := sample_buffer ''abcde''\<rparr>] (\<lambda>_. None) [] (\<lambda>_. None) (\<lambda>_. None)) = Inr w'
    \<and> conns w' 0 = Some x' \<and> contents (output_buffer x') = [] \<and> sent (hist w') 7 = []"
proof -
  let ?x = "(sample_conn 0 7 (Cb_disconnectHandle 0) None None [] 1)\<lparr>output_buffer := sample_buffer ''abcde''\<rparr>"
  show ?thesis
    using full_socket_loses_data
      [of "sample_nserver [0 \<mapsto> ?x] (\<lambda>_. None) [] (\<lambda>_. None) (\<lambda>_. None)" 0 ?x "''abcde''" full_env
          "plain_ret (-1) []" "srv_hooks full_env 2"]
    by (auto simp: sample_buffer_ok full_env_def)
qed

text \<open>
  C22: \<^verbatim>\<open>ReadNonBlocking\<close> collects everything the kernel hands out until it reports that nothing more
  is there: the bytes of all successful reads, interrupted reads skipped, are appended to the
  input buffer in order, and the loop ends within any fuel that covers those reads.
\<close>

theorem read_loop_collects:
  assumes "incoming E (client_fd x) n (hist w) = Some (d, Read_again, h')" and "n \<le> m"
    and "conns w c = Some x" and "reads_wf E (client_fd x)" and "buf_ok (input_buffer x)"
    and "room (input_buffer x) (length d)"
  shows "\<exists>b. ReadNonBlocking E H m c w = Inr (put_conn c (x\<lparr>input_buffer := b\<rparr>) (w\<lparr>hist := h'\<rparr>))
    \<and> buf_ok b \<and> contents b = contents (input_buffer x) @ d"
  using ReadNonBlocking_incoming [OF incoming_mono [OF assms(1,2)] assms(3) refl assms(4-6), of H]
  by auto

theorem read_loop_collects_witness:
  "\<exists>b h'. ReadNonBlocking drained_env (srv_hooks drained_env 2) 4 0
      (sample_nserver [0 \<mapsto> sample_conn 0 7 (Cb_disconnectHandle 0) None None ''x'' 1] (\<lambda>_. None) [] (\<lambda>_. None) (\<lambda>_. None))
    = Inr (put_conn 0 ((sample_conn 0 7 (Cb_disconnectHandle 0) None None ''x'' 1)\<lparr>input_buffer := b\<rparr>)
        ((sample_nserver [0 \<mapsto> sample_conn 0 7 (Cb_disconnectHandle 0) None None ''x'' 1] (\<lambda>_. None) [] (\<lambda>_. None) (\<lambda>_. None))
           \<lparr>hist := h'\<rparr>))
    \<and> buf_ok b \<and> contents b = ''xhi''"
proof -
  let ?x = "sample_conn 0 7 (Cb_disconnectHandle 0) None None ''x'' 1 :: srv_cb connection"
  let ?w = "sample_nserver [0 \<mapsto> ?x] (\<lambda>_. None) [] (\<lambda>_. None) (\<lambda>_. None)"
  let ?h1 = "[(Sys_read 7 1024, plain_ret 2 ''hi'')]"
  let ?h = "(Sys_read 7 1024, plain_ret (-1) []) # ?h1"
  have inc: "incoming drained_env (client_fd ?x) 2 (hist ?w) = Some (''hi'', Read_again, ?h)"
    by (simp add: drained_env_def numeral_2_eq_2 Let_def)
  have wf: "reads_wf drained_env (client_fd ?x)"
    by (simp add: reads_wf_def drained_env_def Let_def)
  have rm: "room (input_buffer ?x) (length ''hi'')"
    by (simp add: room_def sample_buffer_def max_size_def)
  obtain b where "ReadNonBlocking drained_env (srv_hooks drained_env 2) 4 0 ?w =
      Inr (put_conn 0 (?x\<lparr>input_buffer := b\<rparr>) (?w\<lparr>hist := ?h\<rparr>))" "buf_ok b" "contents b = ''xhi''"
    using read_loop_collects [OF inc _ _ wf _ rm, of 4 0 "srv_hooks drained_env 2"]
    by (auto simp: sample_buffer_ok)
  then show ?thesis by blast
qed

section \<open>Accepted connections\<close>



text \<open>
  C38: Connection ids are drawn at random from 1 to 10000 and the table is keyed by them: when a new
  connection draws the id of a live one that only the table holds, the old connection is destroyed
  and its descriptor closed, although its peer did nothing.
\<close>

theorem id_collision_kills_connection:
  assumes "servers w s = Some sv" and "s_on_connect sv = None" and "c = next_ref w"
    and "map_of (connections sv) i = Some c'" and "c' \<noteq> c" and "conns w c' = Some y" and "use_count y = 1"
    and "\<forall>h. ret (kern E h Sys_random) = i"
  shows "\<exists>w'. newConnectionHandle E H s f w = Inr w' \<and> conns w' c' = None \<and> conns w' c \<noteq> None
    \<and> closed (hist w') (client_fd y) = closed (hist w) (client_fd y) + 1"
proof -
  obtain x h where x: "newConnectionHandle E H s f w =
       bindR (handle_conn E H c (put_conn c x (w\<lparr>next_ref := Suc c, hist := h\<rparr>)))
         (\<lambda>w6. bindR (deref c w6) (\<lambda>y. table_insert E s (conn_id y) c w6))"
      "fresh_conn s sv f c x" "watched f (Chan_conn c) (hist w) h" "conn_id x = i"
    by (rule newConnectionHandle_fresh [OF assms(1,3), of E H f]) (use assms(8) in fastforce)
  let ?w1 = "put_server s (sv\<lparr>connections := AList.update i c (connections sv)\<rparr>)
      (put_conn c x (w\<lparr>next_ref := Suc c, hist := h\<rparr>))"
  have "on_conn x = None" using x(2) assms(2) by (simp add: fresh_conn_def)
  then have "newConnectionHandle E H s f w = shared_drop E c' ?w1"
    using x(1,4) assms(1,4) by (simp add: handle_conn_def table_insert_def Let_def)
  also have "\<dots> = Inr (let w1 = snd (sysw E (Sys_close (client_fd y)) ?w1)
      in w1\<lparr>conns := (conns w1)(c' := None)\<rparr>)"
    by (rule shared_drop_last) (use assms in simp_all)
  finally show ?thesis
    using x(3) assms(5) by (simp add: sysw_simp watched_def quiet_def Let_def)
qed

theorem id_collision_kills_connection_witness:
  "\<exists>w'. newConnectionHandle sample_env (srv_hooks sample_env 2) 0 7
      (sample_nserver [5 \<mapsto> sample_conn 0 8 (Cb_disconnectHandle 0) None None [] 1]
         [0 \<mapsto> sample_server [(0, 5)]] [] (\<lambda>_. None) (\<lambda>_. None)) = Inr w'
    \<and> conns w' 5 = None \<and> conns w' 100 \<noteq> None \<and> closed (hist w') 8 = 1"
  using id_collision_kills_connection
    [of "sample_nserver [5 \<mapsto> sample_conn 0 8 (Cb_disconnectHandle 0) None None [] 1]
           [0 \<mapsto> sample_server [(0, 5)]] [] (\<lambda>_. None) (\<lambda>_. None)" 0 "sample_server [(0, 5)]" 100 0 5
        "sample_conn 0 8 (Cb_disconnectHandle 0) None None [] 1" sample_env "srv_hooks sample_env 2" 7]
  by (auto simp: sample_server_def)

section \<open>The tunnel server\<close>

text \<open>
  C7: The end of one side of a bridge takes the whole bridge down, once. When an event finds the end
  of the stream on either end \<open>c\<close> of a bridge: both connections leave their servers' tables and the
  heap, both descriptors are closed exactly once and watched no more, the bridge closer is
  unregistered and destroyed, every other connection, server and descriptor is untouched, and no
  byte is sent to anyone. The last clause includes the bytes \<open>bs\<close> that arrived together with the
  end of the stream: they are dropped, not forwarded to the other end.
\<close>

theorem bridge_torn_down:
  assumes "bridge_up w k sc b B c d" and "in_loop w"
    and "live_end w c x s1 sv1 b" and "input_event c x" and "on_message x = Some (Cb_forward d)"
    and "live_end w d y s2 sv2 b" and "ch_fd (c_channel y) = client_fd y" and "s1 \<noteq> s2"
    and "incoming E (client_fd x) (loop_fuel E) (hist w) = Some (bs, Read_closed, h')"
    and "reads_wf E (client_fd x)" and "buf_ok (input_buffer x)" and "room (input_buffer x) (length bs)"
  shows "\<exists>w'. conn_handle_event E (srv_hooks E (Suc (Suc n))) c w = Inr w'
    \<and> conns w' = (conns w)(c := None, d := None)
    \<and> bridges w' = (bridges w)(b := None)
    \<and> scs w' = (scs w)(k \<mapsto> sc\<lparr>bridge_closers := AList.delete (bridge_id B) (bridge_closers sc)\<rparr>)
    \<and> servers w' = (servers w)
        (s1 \<mapsto> sv1\<lparr>connections := AList.delete (conn_id x) (connections sv1)\<rparr>,
         s2 \<mapsto> sv2\<lparr>connections := AList.delete (conn_id y) (connections sv2)\<rparr>)
    \<and> (\<forall>f. closed (hist w') f = closed (hist w) f
            + (if f = client_fd x then 1 else 0) + (if f = client_fd y then 1 else 0))
    \<and> interest (hist w') = (interest (hist w))(client_fd x := None, client_fd y := None)
    \<and> (\<forall>f. f \<noteq> wakeup_fd w \<longrightarrow> sent (hist w') f = sent (hist w) f)"
  by (rule bridge_end_of_stream [OF assms])

theorem bridge_torn_down_witness:
  "\<exists>w'. conn_handle_event sample_env (srv_hooks sample_env (Suc (Suc 0))) 0 bridged_nserver = Inr w'
    \<and> conns w' = (conns bridged_nserver)(0 := None, 1 := None)
    \<and> closed (hist w') 7 = 1 \<and> closed (hist w') 8 = 1 \<and> sent (hist w') 8 = []"
proof -
  let ?x = "sample_conn 0 7 (Cb_disconnectHandle 1) (Some (Cb_forward 1)) (Some (Cb_cut_bridge 0)) [] 1"
  let ?y = "sample_conn 1 8 (Cb_disconnectHandle 0) (Some (Cb_forward 0)) (Some (Cb_cut_bridge 0)) [] 1"
  have ev: "input_event 0 ?x"
    by (simp add: input_event_def sample_channel_def got_in_def got_out_def EPOLLIN_def EPOLLOUT_def)
  have room: "room (input_buffer ?x) (length ''hi'')"
    by (simp add: room_def sample_buffer_def max_size_def)
  have b: "in_loop bridged_nserver" "hist bridged_nserver = []" "wakeup_fd bridged_nserver = 99"
    by (simp_all add: bridged_nserver_def)
  obtain w' where w': "conn_handle_event sample_env (srv_hooks sample_env (Suc (Suc 0))) 0 bridged_nserver = Inr w'"
      "conns w' = (conns bridged_nserver)(0 := None, 1 := None)"
      "\<forall>f. closed (hist w') f = closed (hist bridged_nserver) f
         + (if f = client_fd ?x then 1 else 0) + (if f = client_fd ?y then 1 else 0)"
      "\<forall>f. f \<noteq> wakeup_fd bridged_nserver \<longrightarrow> sent (hist w') f = sent (hist bridged_nserver) f"
    using bridge_torn_down [OF bridged_nserver_ends(3) b(1) bridged_nserver_ends(1) ev _ bridged_nserver_ends(2)
        _ _ _ sample_reads_wf _ room, of _ 0] sample_incoming [of 7] b(2)
    by (auto simp: sample_channel_def)
  then show ?thesis using b by simp
qed

text \<open>
  C4: A data channel that names a registered tunnel is joined to the visitor that has waited longest:
  the bridge is registered, both ends forward to each other and cut the bridge when they close,
  the other visitors stay queued in order, and the data channel is sent the command to start
  forwarding followed by everything the visitor sent before the bridge existed, nothing else being
  sent anywhere.
\<close>

theorem data_channel_bridges:
  assumes "map_of (sc_map w) nonce = Some k" and "scs w k = Some sc"
    and "wait_handle_visitors sc = v # vs"
    and "conns w v = Some x" and "conns w d = Some y" and "v \<noteq> d" and "2 \<le> use_count x" and "1 \<le> use_count y"
    and "map_of (bridge_closers sc) (data (kern E (hist w) Sys_uuid)) = None"
    and "buf_ok (input_buffer x)" and "buf_ok (output_buffer x)"
    and "buf_ok (input_buffer y)" and "buf_ok (output_buffer y)" and "contents (output_buffer y) = []"
    and "room (output_buffer y) (length (start_forward (wire E)) + length (contents (input_buffer x)))"
    and "accepts_all E (client_fd y)" and "0 < loop_fuel E"
  shows "\<exists>w' sc' B. handle_data_channel_hello E (srv_hooks E (Suc n)) d nonce w = Inr w'
    \<and> bridge_up w' k sc' (next_bridge w) B v d \<and> wait_handle_visitors sc' = vs
    \<and> bridged_end w' v d (next_bridge w) \<and> bridged_end w' d v (next_bridge w)
    \<and> sent (hist w') = (sent (hist w))(client_fd y :=
        sent (hist w) (client_fd y) @ start_forward (wire E) @ contents (input_buffer x))"
  by (rule data_channel_hello_bridges [OF assms])

theorem data_channel_bridges_witness:
  "\<exists>w' sc' B. handle_data_channel_hello sample_env (srv_hooks sample_env (Suc 0)) 1 ''n'' (waiting_nserver []) = Inr w'
    \<and> bridge_up w' 0 sc' 100 B 0 1 \<and> wait_handle_visitors sc' = []
    \<and> sent (hist w') 8 = start_forward wire_ref @ ''early''"
proof -
  let ?w = "waiting_nserver []"
  let ?x = "sample_conn 0 7 (Cb_disconnectHandle 1) None None ''early'' 2 :: srv_cb connection"
  let ?y = "sample_conn 1 8 (Cb_disconnectHandle 0) (Some Cb_handle_new_connection) None [] 1"
  let ?sc = "\<lparr>ncx_client_conn = 9, proxy_server = 1, wait_handle_visitors = [0], bridge_closers = []\<rparr>"
  have "room (output_buffer ?y) (length (start_forward wire_ref) + length (contents (input_buffer ?x)))"
    using start_forward_short by (simp add: sample_buffer_ok room_new)
  then show ?thesis
    using data_channel_bridges [of ?w "''n''" 0 ?sc 0 "[]" ?x 1 ?y sample_env 0]
    by (auto simp: waiting_nserver_def sample_buffer_ok) blast
qed

text \<open>
  C35: A peer can stop the server with one message: a data channel \<^verbatim>\<open>Hello\<close> whose digest names no
  tunnel makes \<^verbatim>\<open>sc_map_->at\<close> throw out of the event loop, whatever else the server is doing.
\<close>

theorem unknown_nonce_throws:
  assumes "protobuf_runtime (wire E)" and "conns w c = Some x" and "buf_ok (input_buffer x)"
    and "contents (input_buffer x) = framed_Hello (wire E) (data_hello nonce) @ rest"
    and "valid_utf8 (wire E) nonce" and "length nonce < 2 ^ 30" and "map_of (sc_map w) nonce = None"
  shows "handle_new_connection E H c w = Inl Out_Of_Range"
proof -
  have n31: "length nonce < 2 ^ 31" using assms(6) by simp
  obtain b where "handle_new_connection E H c w =
      (let w1 = put_conn c (x\<lparr>input_buffer := b\<rparr>) w in
       if hello_type (data_hello nonce) = CONTROL_CHANNEL_HELLO then
         handle_control_channel_hello E H c (service_name (control_channel_hello_content (data_hello nonce)))
           (ucast (proxy_port (control_channel_hello_content (data_hello nonce)))) w1
       else if hello_type (data_hello nonce) = DATA_CHANNEL_HELLO
       then handle_data_channel_hello E H c (digest (data_hello nonce)) w1 else Inr w1)"
    by (rule handle_new_connection_hello [OF assms(1-3)
          protobuf_runtime.digest_hello_canonical(2) [OF assms(1,5) n31]
          protobuf_runtime.digest_hello_size(3,4) [OF assms(1,6)] assms(4), of H])
  then show ?thesis
    using assms(7) by (simp add: digest_hello_fields enumerators handle_data_channel_hello_def Let_def)
qed

theorem unknown_nonce_throws_witness:
  "handle_new_connection sample_env (srv_hooks sample_env 3) 1
     (waiting_nserver (framed_Hello wire_ref (data_hello ''zzz''))) = Inl Out_Of_Range"
  using unknown_nonce_throws
    [of sample_env "waiting_nserver (framed_Hello wire_ref (data_hello ''zzz''))" 1
       "sample_conn 1 8 (Cb_disconnectHandle 0) (Some Cb_handle_new_connection) None (framed_Hello wire_ref (data_hello ''zzz'')) 1"
       "''zzz''" "[]" "srv_hooks sample_env 3"]
    data_hello_short [of "''zzz''"] sample_buffer_ok [of "framed_Hello wire_ref (data_hello ''zzz'')"]
    sample_runtime
  by (simp add: waiting_nserver_def)

text \<open>
  A data channel that arrives when no visitor is waiting takes the front of an empty queue:
  undefined behaviour, reachable by any peer that knows a nonce and connects twice.
\<close>

theorem data_channel_without_visitor:
  assumes "map_of (sc_map w) nonce = Some k" and "scs w k = Some sc" and "wait_handle_visitors sc = []"
  shows "handle_data_channel_hello E H d nonce w = Inl Undefined_Behaviour"
  using assms by (simp add: handle_data_channel_hello_def pop_visitor_def)

theorem data_channel_without_visitor_witness:
  "handle_data_channel_hello sample_env (srv_hooks sample_env 3) 1 ''n'' bridged_nserver = Inl Undefined_Behaviour"
  by (rule data_channel_without_visitor
      [of _ _ 0 "\<lparr>ncx_client_conn = 9, proxy_server = 1, wait_handle_visitors = [], bridge_closers = [(''b'', 0)]\<rparr>"])
     (simp_all add: bridged_nserver_def)

text \<open>
  C20: Visitors are served in the order they arrive: each new outside connection is appended to its
  tunnel's queue and the client is sent exactly one command per visitor, so after the visitors
  \<open>vs\<close> the queue holds the earlier ones followed by \<open>vs\<close> and as many commands went out on the control
  channel and nowhere else.
\<close>

theorem visitors_are_queued_in_order:
  assumes "scs w k = Some sc" and "ncx_client_conn sc = c" and "can_command E w c f"
    and "set vs \<subseteq> dom (conns w)" and "c \<notin> set vs" and "accepts_all E f" and "0 < loop_fuel E"
  shows "\<exists>w' sc'. foldR (handle_new_outside_connection E H k) vs w = Inr w' \<and> scs w' k = Some sc'
    \<and> wait_handle_visitors sc' = wait_handle_visitors sc @ vs
    \<and> sent (hist w') = (sent (hist w))(f :=
        sent (hist w) f @ concat (replicate (length vs) (create_cmd (wire E))))"
  by (rule visitors_wait_in_order [OF assms])

theorem visitors_are_queued_in_order_witness:
  "\<exists>w' sc'. foldR (handle_new_outside_connection sample_env (srv_hooks sample_env 3) 0) [1, 2]
      (sample_nserver
        [0 \<mapsto> sample_conn 0 7 (Cb_disconnectHandle 0) None None [] 2,
         1 \<mapsto> sample_conn 1 8 (Cb_disconnectHandle 1) None None [] 1,
         2 \<mapsto> sample_conn 2 9 (Cb_disconnectHandle 1) None None [] 1] (\<lambda>_. None) [(''n'', 0)]
        [0 \<mapsto> \<lparr>ncx_client_conn = 0, proxy_server = 1, wait_handle_visitors = [], bridge_closers = []\<rparr>] (\<lambda>_. None))
      = Inr w' \<and> scs w' 0 = Some sc' \<and> wait_handle_visitors sc' = [1, 2]
    \<and> sent (hist w') 7 = create_cmd wire_ref @ create_cmd wire_ref"
proof -
  let ?w = "sample_nserver
        [0 \<mapsto> sample_conn 0 7 (Cb_disconnectHandle 0) None None [] 2,
         1 \<mapsto> sample_conn 1 8 (Cb_disconnectHandle 1) None None [] 1,
         2 \<mapsto> sample_conn 2 9 (Cb_disconnectHandle 1) None None [] 1] (\<lambda>_. None) [(''n'', 0)]
        [0 \<mapsto> \<lparr>ncx_client_conn = 0, proxy_server = 1, wait_handle_visitors = [], bridge_closers = []\<rparr>] (\<lambda>_. None)"
  have "can_command sample_env ?w 0 7"
    using create_cmd_short by (simp add: can_command_def room_new)
  from visitors_are_queued_in_order [where w = ?w and k = 0 and c = 0 and vs = "[1, 2]"
      and H = "srv_hooks sample_env 3"
      and sc = "\<lparr>ncx_client_conn = 0, proxy_server = 1, wait_handle_visitors = [], bridge_closers = []\<rparr>",
      OF _ _ this]
  show ?thesis by auto
qed



text \<open>
  C36: The port in that \<^verbatim>\<open>Hello\<close> is the peer's choice; when it cannot be bound (it is in use, for
  instance by the tunnel another client asked for), the server process exits.
\<close>

theorem taken_port_exits:
  assumes "conns w c = Some y" and "accepts_all E (client_fd y)" and "0 < loop_fuel E"
    and "buf_ok (output_buffer y)"
    and "room (output_buffer y) (length (framed_Hello (wire E) (control_reply (data (kern E (hist w) Sys_uuid)))))"
    and "\<And>h f. ret (kern E h (Sys_bind f (InetAddress E (get_ip E (server_addr w)) port))) = -1"
  shows "handle_control_channel_hello E H c name port w = Inl (Exit_Failure ''tcp bind error'')"
  by (rule control_channel_port_taken [OF assms])

theorem taken_port_exits_witness:
  "handle_control_channel_hello no_bind_env (srv_hooks no_bind_env 3) 1 ''web'' 80 greeted_nserver =
     Inl (Exit_Failure ''tcp bind error'')"
  by (rule taken_port_exits
      [where y = "sample_conn 1 8 (Cb_disconnectHandle 0) (Some Cb_handle_new_connection) None
          (framed_Hello wire_ref (control_hello ''web'' 80)) 1"])
     (use control_reply_short [of "''nonce''"] in
       \<open>simp_all add: greeted_nserver_def no_bind_env_def accepts_all_def room_new\<close>)

section \<open>Whole runs of the server\<close>





text \<open>
  C17: A tunnel, once registered, stays registered with the same control channel for as long as the
  server runs, from any state with well-formed tables: no message and no failure takes its nonce
  away. (Nor does the end of the client that asked for it: nothing erases entries of \<^verbatim>\<open>sc_map_\<close>.)
\<close>

theorem tunnels_stay_registered:
  assumes "tunnels_ok (\<lambda>_. 0) w" and "served E w w'" and "map_of (sc_map w) nonce = Some k"
  shows "map_of (sc_map w') nonce = Some k \<and> scs w' k \<noteq> None"
proof -
  have "tunnels_ok (\<lambda>_. 0) w'" "map_of (sc_map w') nonce = Some k"
    using served_keeps [OF assms(2)] assms(1,3) by (simp_all add: tunnels_step_def owner_step_def)
  then show ?thesis by (blast dest: tunnels_okD(1))
qed

theorem tunnels_stay_registered_witness:
  "\<exists>w'. srv_turn sample_env 1 (waiting_nserver []) = Inr w' \<and> map_of (sc_map w') ''n'' = Some 0 \<and> scs w' 0 \<noteq> None"
proof -
  let ?w = "waiting_nserver []"
  obtain w' where t: "srv_turn sample_env 1 ?w = Inr w'"
    by (simp add: srv_turn_def loop_turn_def Epoll_poll_def sysw_simp)
  have "tunnels_ok (\<lambda>_. 0) ?w"
    by (simp add: waiting_nserver_def tunnels_ok_def has_closer_def in_table_def)
  then show ?thesis
    using tunnels_stay_registered [OF _ served_turn [OF served_start t], of "''n''" 0] t
    by (simp add: waiting_nserver_def)
qed

text \<open>
  C18: Connections of a server only advance: one that is live after any number of turns and is not newer
  than the start of the run was live then, with the same socket, id and addresses, and its state
  has moved only forward through connecting, connected, disconnecting, disconnected.
\<close>

theorem server_connections_advance:
  assumes "served E w w'" and "c < next_ref w" and "conns w' c = Some y"
  shows "\<exists>x. conns w c = Some x \<and> client_fd y = client_fd x \<and> conn_id y = conn_id x
    \<and> local_addr y = local_addr x \<and> peer_addr y = peer_addr x \<and> c_state x \<le> c_state y"
  using served_advances [OF assms(1)] assms(2,3) unfolding conns_evolve_def conn_le_def by blast

theorem server_connections_advance_witness:
  "\<exists>w w' x y. served visitor_env w w' \<and> conns w 100 = Some x \<and> conns w' 100 = Some y
    \<and> client_fd y = client_fd x \<and> c_state x \<le> c_state y"
proof (rule first_visitor)
  fix w0 w1 w2 x
  assume turns: "srv_turn visitor_env 1 w0 = Inr w1" "srv_turn visitor_env 1 w1 = Inr w2"
    and c: "conns w1 = [100 \<mapsto> x]" "conns w2 = conns w1" and r: "next_ref w1 = 101"
  have run: "served visitor_env w1 w2" by (rule served_turn [OF served_start turns(2)])
  show ?thesis
    using server_connections_advance [OF run, of 100 x] run c r by (intro exI [of _ w1] exI [of _ w2]) auto
qed

text \<open>
  C19: The same for the client, whose callbacks open and destroy connections while others are being
  served: a connection that outlives any number of turns keeps its socket, id and addresses, and its
  state only moves forward.
\<close>

theorem client_connections_advance:
  assumes "tunnelled E w w'" and "c < next_ref w" and "conns w' c = Some y"
  shows "\<exists>x. conns w c = Some x \<and> client_fd y = client_fd x \<and> conn_id y = conn_id x
    \<and> local_addr y = local_addr x \<and> peer_addr y = peer_addr x \<and> c_state x \<le> c_state y"
  using tunnelled_advances [OF assms(1)] assms(2,3) unfolding conns_evolve_def conn_le_def by blast

theorem client_connections_advance_witness:
  "\<exists>w' y. cli_turn sample_env 1 (sample_nclient [3 \<mapsto> linked_conn 0 5 ''payload''] (\<lambda>_. None) [] (\<lambda>_. None) (\<lambda>_. None)) = Inr w'
    \<and> conns w' 3 = Some y \<and> client_fd y = 5 \<and> CONNECTED \<le> c_state y"
proof -
  let ?w = "sample_nclient [3 \<mapsto> linked_conn 0 5 ''payload''] (\<lambda>_. None) [] (\<lambda>_. None) (\<lambda>_. None)"
  obtain w' where t: "cli_turn sample_env 1 ?w = Inr w'" and c: "conns w' = conns ?w"
    by (simp add: cli_turn_def loop_turn_def Epoll_poll_def sysw_simp)
  have "tunnelled sample_env ?w w'" by (rule tunnelled_turn [OF tunnelled_start t])
  moreover have "3 < next_ref ?w" by (simp add: sample_nclient_def)
  moreover have y: "conns w' 3 = Some (linked_conn 0 5 ''payload'')" using c by simp
  ultimately obtain x where x: "conns ?w 3 = Some x" "client_fd (linked_conn 0 5 ''payload'') = client_fd x"
      "c_state x \<le> c_state (linked_conn 0 5 ''payload'')"
    using client_connections_advance [of sample_env ?w w' 3] by blast
  then have "x = linked_conn 0 5 ''payload''" by simp
  with x t y show ?thesis
    by (intro exI [of _ w'] exI [of _ "linked_conn 0 5 ''payload''"]) (simp add: linked_conn_def)
qed

section \<open>The tunnel client\<close>

text \<open>
  The client's handshake: on connecting, the control channel sends exactly the \<^verbatim>\<open>Hello\<close> with the
  service name and proxy port of its arguments and from then on waits for the server's answer.
\<close>

theorem client_handshake_sent:
  assumes "ccs w j = Some x" and "clients w (control_client x) = Some k" and "cl_conn k = Some c"
    and "conns w c = Some y" and "buf_ok (output_buffer y)" and "contents (output_buffer y) = []"
    and "room (output_buffer y) (length (framed_Hello (wire E)
         (control_hello (a_service_name (cc_args x)) (a_proxy_port (cc_args x)))))"
    and "accepts_all E (client_fd y)" and "0 < loop_fuel E"
  shows "\<exists>w' y'. do_control_channel_handshake E H j c w = Inr w'
    \<and> conns w' c = Some y' \<and> on_message y' = Some (Cb_wait_control_hello j)
    \<and> sent (hist w') = (sent (hist w))(client_fd y := sent (hist w) (client_fd y)
        @ framed_Hello (wire E) (control_hello (a_service_name (cc_args x)) (a_proxy_port (cc_args x))))"
  by (rule control_handshake_sends [OF assms])

theorem client_handshake_sent_witness:
  "\<exists>w' y'. do_control_channel_handshake sample_env (cli_hooks sample_env 3) 0 0 (dialing_nclient []) = Inr w'
    \<and> conns w' 0 = Some y' \<and> on_message y' = Some (Cb_wait_control_hello 0)
    \<and> sent (hist w') 5 = framed_Hello wire_ref (control_hello ''web'' 80)"
proof -
  have "room (output_buffer (dialing_conn [])) (length (framed_Hello wire_ref (control_hello ''web'' 80)))"
    using control_hello_short [of "''web''" 80] by (simp add: dialing_conn_def room_new)
  then show ?thesis
    using client_handshake_sent [of "dialing_nclient []" 0 dialing_cc "sample_client (Some 0) True kConnected" 0
        "dialing_conn []" sample_env "cli_hooks sample_env 3"]
    by (auto simp: dialing_nclient_def dialing_cc_def dialing_conn_def)
qed

text \<open>
  C10: The server's answer registers the tunnel: the client's table has the channel under the nonce and
  no longer under its provisional id, all other entries as before; the channel takes the nonce as
  its id, goes on to obey commands, and keeps the bytes behind the answer.
\<close>

theorem client_registers_nonce:
  assumes "protobuf_runtime (wire E)"
    and "ccs w j = Some x" and "clients w (control_client x) = Some k" and "cl_conn k = Some c" and "register_set x"
    and "map_of (cc_map w) (cc_id x) = Some (Some j)" and "map_of (cc_map w) nonce = None"
    and "conns w c = Some y" and "buf_ok (input_buffer y)"
    and "contents (input_buffer y) = framed_Hello (wire E) (control_reply nonce) @ rest"
    and "valid_utf8 (wire E) nonce" and "length nonce < 2 ^ 30"
  shows "\<exists>w' y'. wait_control_channel_hello E H j c w = Inr w'
    \<and> ccs w' = (ccs w)(j \<mapsto> x\<lparr>cc_id := nonce\<rparr>)
    \<and> map_of (cc_map w') = (map_of (cc_map w))(cc_id x := None, nonce \<mapsto> Some j)
    \<and> conns w' c = Some y' \<and> on_message y' = Some (Cb_wait_server_cmd j)
    \<and> contents (input_buffer y') = rest"
  by (rule control_reply_registers [OF assms])

theorem client_registers_nonce_witness:
  "\<exists>w' y'. wait_control_channel_hello sample_env (cli_hooks sample_env 3) 0 0
      (dialing_nclient (framed_Hello wire_ref (control_reply ''nonce''))) = Inr w'
    \<and> map_of (cc_map w') ''nonce'' = Some (Some 0) \<and> map_of (cc_map w') ''tmp'' = None
    \<and> conns w' 0 = Some y' \<and> on_message y' = Some (Cb_wait_server_cmd 0)"
proof -
  let ?i = "framed_Hello wire_ref (control_reply ''nonce'')"
  show ?thesis
    using client_registers_nonce [of sample_env "dialing_nclient ?i" 0 dialing_cc "sample_client (Some 0) True kConnected" 0
        "''nonce''" "dialing_conn ?i" "[]" "cli_hooks sample_env 3"]
      sample_buffer_ok [of ?i] control_reply_short [of "''nonce''"] sample_runtime
    by (auto simp: dialing_nclient_def dialing_cc_def dialing_conn_def)
qed

text \<open>
  The control channel obeys one command per read event: whatever follows the first complete command
  in the buffer stays there, complete or not, until more bytes arrive. A \<^verbatim>\<open>CREATE_DATA_CHANNEL\<close> opens
  a data channel; any other value of the field changes nothing but the buffer.
\<close>

theorem commands_one_at_a_time:
  assumes "protobuf_runtime (wire E)" and "conns w c = Some y" and "buf_ok (input_buffer y)"
    and "contents (input_buffer y) =
      framed_ControlChannelCmd (wire E) (set_control_channel_cmd v ControlChannelCmd_new) @ rest"
  shows "\<exists>b. buf_ok b \<and> contents b = rest \<and> wait_server_cmd E H j c w =
      (let w1 = put_conn c (y\<lparr>input_buffer := b\<rparr>) w in
       if v = CREATE_DATA_CHANNEL then handle_cmd_create_datachannel E H j w1 else Inr w1)"
  by (rule one_command_per_call [OF assms, of H j]) blast

theorem commands_one_at_a_time_witness:
  "\<exists>b. contents b = ''next'' \<and> wait_server_cmd sample_env (cli_hooks sample_env 3) 0 0
      (dialing_nclient (framed_ControlChannelCmd wire_ref (set_control_channel_cmd HEARTBEAT ControlChannelCmd_new)
        @ ''next'')) = Inr (put_conn 0 ((dialing_conn (framed_ControlChannelCmd wire_ref
          (set_control_channel_cmd HEARTBEAT ControlChannelCmd_new) @ ''next''))\<lparr>input_buffer := b\<rparr>)
        (dialing_nclient (framed_ControlChannelCmd wire_ref
          (set_control_channel_cmd HEARTBEAT ControlChannelCmd_new) @ ''next'')))"
proof -
  let ?i = "framed_ControlChannelCmd wire_ref (set_control_channel_cmd HEARTBEAT ControlChannelCmd_new) @ ''next''"
  show ?thesis
    using commands_one_at_a_time [of sample_env "dialing_nclient ?i" 0 "dialing_conn ?i" HEARTBEAT "''next''"
        "cli_hooks sample_env 3" 0] sample_runtime sample_buffer_ok [of ?i] heartbeat_short
    by (auto simp: dialing_nclient_def dialing_conn_def HEARTBEAT_def CREATE_DATA_CHANNEL_def)
qed

text \<open>
  A data channel introduces itself: on connecting to the server it sends exactly the
  \<^verbatim>\<open>DATA_CHANNEL_HELLO\<close> with the nonce of its control channel and waits for the start command.
\<close>

theorem data_handshake_sent:
  assumes "dcs w d = Some x" and "conns w c = Some y" and "buf_ok (output_buffer y)"
    and "contents (output_buffer y) = []"
    and "room (output_buffer y) (length (framed_Hello (wire E) (data_hello (dc_nonce x))))"
    and "accepts_all E (client_fd y)" and "0 < loop_fuel E"
  shows "\<exists>w' y'. do_data_channel_handshake E H d c w = Inr w'
    \<and> conns w' c = Some y' \<and> on_message y' = Some (Cb_wait_start d)
    \<and> sent (hist w') = (sent (hist w))(client_fd y :=
        sent (hist w) (client_fd y) @ framed_Hello (wire E) (data_hello (dc_nonce x)))"
  by (rule data_handshake_sends [OF assms])

theorem data_handshake_sent_witness:
  "\<exists>w'. do_data_channel_handshake sample_env (cli_hooks sample_env 3) 0 0 (linked_nclient (Some 1) []) = Inr w'
    \<and> sent (hist w') 5 = framed_Hello wire_ref (data_hello ''n'')"
proof -
  have "room (output_buffer (linked_conn 0 5 [])) (length (framed_Hello wire_ref (data_hello ''n'')))"
    using data_hello_short [of "''n''"] by (simp add: linked_conn_def room_new)
  then show ?thesis
    using data_handshake_sent [of "linked_nclient (Some 1) []" 0 linked_dc 0 "linked_conn 0 5 []" sample_env
        "cli_hooks sample_env 3"]
    by (auto simp: linked_nclient_def linked_dc_def linked_conn_def)
qed

section \<open>The tunnel client at work\<close>

text \<open>
  C11: The client comes up: with a kernel that lets sockets connect, identifiers that do not repeat, and
  the constructor running before the loop does, \<^verbatim>\<open>NClient\<close> queues the start of every configured
  channel in order, and the first turn of \<^verbatim>\<open>run\<close> connects them all. Each channel is in the table under
  its id, its connection waits for the server's answer, and what was sent is, socket by socket and in
  order, exactly one control channel \<^verbatim>\<open>Hello\<close> per channel, with its service name and proxy port.
\<close>

theorem client_starts_all_tunnels:
  assumes "opens_sockets E" and "fresh_uuids E" and "\<And>h. 0 \<le> ret (kern E h Sys_epoll_create)" and "wakes E"
    and "\<And>g. accepts_all E g" and "0 < loop_fuel E" and "foreign_thread E t w" and "t \<noteq> 0"
    and "ccs w = Map.empty" and "dcs w = Map.empty"
    and "\<forall>a \<in> set args. (\<forall>g. connects E g (a_server_addr a)) \<and> room Buffer_new (length (hello_of E a))"
  shows "\<exists>w1 w2 c f. NClient_new E H args w = Inr w1
    \<and> to_do_list w1 = map Task_startInLoop [next_client w ..< next_client w + length args]
    \<and> (\<forall>N. run_client E (Suc n) (Suc N) w1 = run_turns (cli_turn E (Suc n)) N w2)
    \<and> (\<forall>m < length args. started (next_cc w) (next_client w) c f m w2
        \<and> (\<exists>x. ccs w2 (next_cc w + m) = Some x \<and> cc_args x = args ! m \<and> data_pool x = []
            \<and> map_of (cc_map w2) (cc_id x) = Some (Some (next_cc w + m))))
    \<and> (\<forall>g. sent (hist w2) g = sent (hist w1) g
        @ concat (map (\<lambda>m. if f m = g then hello_of E (args ! m) else []) [0 ..< length args]))"
proof -
  obtain w1 where w1: "NClient_new E H args w = Inr w1" "lined_up (next_cc w) (next_client w) args w1"
      "pools_ok {} {} w1" "foreign_thread E t w1" "loop_ready w1"
    using assms(1-3,7,9,10) by (rule NClient_new_lines_up)
  define f where "f = (\<lambda>m. fd (cn_socket (cl_connector (the (clients w1 (next_client w + m))))))"
  obtain v w2 where w2: "current_tid E w1 = (t, v)" "cli_turn E (Suc n) (v\<lparr>loop_tid := t\<rparr>) = Inr w2"
      "\<forall>N. run_client E (Suc n) (Suc N) w1 = run_turns (cli_turn E (Suc n)) N w2"
      "\<forall>m < length args. started (next_cc w) (next_client w) (next_ref w1) f m w2"
      "ccs w2 = ccs w1" "cc_map w2 = cc_map w1" "pools_ok {} {} w2"
      "\<forall>g. sent (hist w2) g = sent (hist w1) g
        @ concat (map (\<lambda>m. if f m = g then hello_of E (args ! m) else []) [0 ..< length args])"
    by (rule first_turn_starts [OF w1(2,4,5,3) assms(8,4-6,11) refl f_def, of n])
  have "\<exists>x. ccs w2 (next_cc w + m) = Some x \<and> cc_args x = args ! m \<and> data_pool x = []
      \<and> map_of (cc_map w2) (cc_id x) = Some (Some (next_cc w + m))" if "m < length args" for m
    using w1(2) that unfolding w2(5,6) lined_up_def by fastforce
  with w1(1) w2(3,4,8) show ?thesis
    using w1(2) [unfolded lined_up_def] by blast
qed

theorem client_starts_all_tunnels_witness:
  "\<exists>w1 w2 c f. NClient_new starting_env (cli_hooks starting_env 1) sample_args (blank_nclient\<lparr>cached_tid := 0\<rparr>) = Inr w1
    \<and> (\<forall>N. run_client starting_env (Suc 0) (Suc N) w1 = run_turns (cli_turn starting_env (Suc 0)) N w2)
    \<and> started 100 100 c f 0 w2 \<and> started 100 100 c f 1 w2"
proof -
  let ?E = starting_env and ?w = "blank_nclient\<lparr>cached_tid := 0\<rparr>"
  have env: "0 \<le> ret (kern ?E h Sys_epoll_create)" for h by simp
  have none: "(7::int) \<noteq> 0" "ccs ?w = Map.empty" "dcs ?w = Map.empty" by simp_all
  have net: "\<forall>a \<in> set sample_args. (\<forall>g. connects ?E g (a_server_addr a)) \<and> room Buffer_new (length (hello_of ?E a))"
    using sample_args_room by simp
  have two: "(0::nat) < length sample_args" "1 < length sample_args" "next_cc ?w = 100" "next_client ?w = 100"
    by (simp_all add: sample_args_def)
  from client_starts_all_tunnels [OF starting_env_ok(1,5) env starting_env_ok(3,4,6) blank_nclient_ok(1) none net,
      of "cli_hooks ?E 1" 0, unfolded two(3,4)]
  show ?thesis using two(1,2) by blast
qed

text \<open>
  C12: The server's command \<^verbatim>\<open>CREATE_DATA_CHANNEL\<close> is obeyed: the client opens a data channel, connects
  it to the server, and introduces it with exactly one \<^verbatim>\<open>DATA_CHANNEL_HELLO\<close> carrying the nonce of its
  control channel. The channel is in the pool under a new id, will be removed from it when its
  connection ends, and its second client is ready to dial the local service. Bytes behind the
  command stay in the buffer.
\<close>

theorem create_command_opens_data_channel:
  assumes "protobuf_runtime (wire E)" and "in_loop w" and "conns w c0 = Some y0" and "buf_ok (input_buffer y0)"
    and "contents (input_buffer y0) =
      framed_ControlChannelCmd (wire E) (set_control_channel_cmd CREATE_DATA_CHANNEL ControlChannelCmd_new) @ rest"
    and "ccs w j = Some z" and "map_of (data_pool z) i = None" and "i = data (kern E (hist w) Sys_uuid)"
    and "d = next_dc w" and "k = next_client w" and "c = next_ref w"
    and "m = framed_Hello (wire E) (data_hello (cc_id z))" and "room Buffer_new (length m)"
    and "opens_sockets E" and "\<And>f. connects E f (a_server_addr (cc_args z))" and "\<And>f. accepts_all E f"
    and "0 < loop_fuel E"
  shows "\<exists>w' f g y y1 q p. wait_server_cmd E (cli_hooks E (Suc n)) j c0 w = Inr w'
    \<and> dcs w' = (dcs w)(d \<mapsto> \<lparr>channel_id = i, dc_nonce = cc_id z, server_client = k, service_client = Suc k,
         data_channel_delete = Some j\<rparr>)
    \<and> ccs w' = (ccs w)(j \<mapsto> z\<lparr>data_pool := (i, d) # data_pool z\<rparr>)
    \<and> conns w' = (conns w)(c0 \<mapsto> y1, c \<mapsto> y) \<and> contents (input_buffer y1) = rest
    \<and> established k c f y \<and> on_message y = Some (Cb_wait_start d)
    \<and> clients w' = (clients w)(k \<mapsto> q, Suc k \<mapsto> p) \<and> cl_conn q = Some c
    \<and> cl_on_disconnect q = Some (Cb_delete_data d) \<and> unconnected g (a_service_addr (cc_args z)) p
    \<and> sent (hist w') = (sent (hist w))(f := sent (hist w) f @ m)
    \<and> (interest (hist w) f = None \<longrightarrow> interest (hist w') = (interest (hist w))(f \<mapsto> (3, Chan_conn c)))"
proof (rule create_command_opens [OF assms, of n])
  fix w' f g y y1 q p
  assume "wait_server_cmd E (cli_hooks E (Suc n)) j c0 w = Inr w'"
    "dcs w' = (dcs w)(d \<mapsto> \<lparr>channel_id = i, dc_nonce = cc_id z, server_client = k, service_client = Suc k,
       data_channel_delete = Some j\<rparr>)"
    "ccs w' = (ccs w)(j \<mapsto> z\<lparr>data_pool := (i, d) # data_pool z\<rparr>)"
    "conns w' = (conns w)(c0 \<mapsto> y1, c \<mapsto> y)" "contents (input_buffer y1) = rest"
    "established k c f y" "on_message y = Some (Cb_wait_start d)"
    "clients w' = (clients w)(k \<mapsto> q, Suc k \<mapsto> p)" "cl_conn q = Some c"
    "cl_on_disconnect q = Some (Cb_delete_data d)" "unconnected g (a_service_addr (cc_args z)) p"
    "sent (hist w') = (sent (hist w))(f := sent (hist w) f @ m)"
    "interest (hist w) f = None \<Longrightarrow> interest (hist w') = (interest (hist w))(f \<mapsto> (3, Chan_conn c))"
  then show ?thesis by (intro exI conjI impI)
qed

theorem create_command_opens_data_channel_witness:
  "\<exists>w' f y. wait_server_cmd sample_env (cli_hooks sample_env (Suc 0)) 0 0 (dialing_nclient (create_cmd wire_ref)) = Inr w'
    \<and> conns w' 100 = Some y \<and> on_message y = Some (Cb_wait_start 100)
    \<and> sent (hist w') f = framed_Hello wire_ref (data_hello ''tmp'')"
proof -
  let ?w = "dialing_nclient (create_cmd wire_ref)" and ?m = "framed_Hello wire_ref (data_hello ''tmp'')"
  have w: "in_loop ?w" "conns ?w 0 = Some (dialing_conn (create_cmd wire_ref))" "ccs ?w 0 = Some dialing_cc"
      "hist ?w = []" "next_dc ?w = 100" "next_client ?w = 100" "next_ref ?w = 100"
    by (simp_all add: dialing_nclient_def sample_nclient_def in_loop_def)
  have buf: "buf_ok (input_buffer (dialing_conn (create_cmd wire_ref)))" "contents (input_buffer (dialing_conn (create_cmd wire_ref))) =
      framed_ControlChannelCmd (wire sample_env) (set_control_channel_cmd CREATE_DATA_CHANNEL ControlChannelCmd_new) @ []"
    using sample_buffer_ok [of "create_cmd wire_ref"] create_cmd_short by (simp_all add: dialing_simps create_cmd_def)
  have room: "room Buffer_new (length ?m)" using data_hello_short [of "''tmp''"] by (simp add: room_new)
  have fits: "map_of (data_pool dialing_cc) (data (kern sample_env (hist ?w) Sys_uuid)) = None"
    "?m = framed_Hello (wire sample_env) (data_hello (cc_id dialing_cc))" "protobuf_runtime (wire sample_env)" "0 < loop_fuel sample_env"
    using sample_runtime by (simp_all add: dialing_cc_def)
  note go = create_command_opens_data_channel [OF fits(3) w(1,2) buf(1) buf(2) w(3) fits(1) refl refl refl refl fits(2) room
      sample_opens sample_accepts fits(4), of 0]
  then obtain w' f y y1 where "wait_server_cmd sample_env (cli_hooks sample_env (Suc 0)) 0 0 ?w = Inr w'"
    "conns w' = (conns ?w)(0 \<mapsto> y1, next_ref ?w \<mapsto> y)" "on_message y = Some (Cb_wait_start (next_dc ?w))"
    "sent (hist w') = (sent (hist ?w))(f := sent (hist ?w) f @ ?m)"
    by blast
  then show ?thesis using w(4,5,7) by (intro exI [of _ w'] exI [of _ f] exI [of _ y]) simp
qed

text \<open>
  C13: The command to start forwarding joins the two ends: the local service is connected, each
  connection forwards what it reads to the other, and the bytes the server sent behind the command
  are the first that reach the service.
\<close>

theorem start_command_joins_service:
  assumes "protobuf_runtime (wire E)" and "in_loop w" and "dcs w d = Some x" and "server_client x \<noteq> service_client x"
    and "clients w (server_client x) = Some q" and "cl_conn q = Some c" and "conns w c = Some y" and "1 \<le> use_count y"
    and "buf_ok (input_buffer y)" and "length rest < 2 ^ 62"
    and "contents (input_buffer y) =
      framed_DataChannelCmd (wire E) (set_data_channel_cmd START_FORWARD_TCP DataChannelCmd_new) @ rest"
    and "clients w (service_client x) = Some p" and "unconnected f a p" and "cl_on_connect p = None"
    and "connects E f a" and "accepts_all E f" and "0 < loop_fuel E" and "c' = next_ref w" and "c \<noteq> c'"
  shows "\<exists>w' z z'. wait_data_channel_start_cmd E (cli_hooks E (Suc n)) d c w = Inr w'
    \<and> conns w' = (conns w)(c \<mapsto> z, c' \<mapsto> z')
    \<and> on_message z = Some (Cb_to_service d) \<and> contents (input_buffer z) = []
    \<and> on_message z' = Some (Cb_to_server d) \<and> established (service_client x) c' f z'
    \<and> dc_peer service_client d c' w' \<and> dc_peer server_client d c w'
    \<and> sent (hist w') = (sent (hist w))(f := sent (hist w) f @ rest)
    \<and> (interest (hist w) f = None \<longrightarrow> interest (hist w') = (interest (hist w))(f \<mapsto> (3, Chan_conn c')))"
proof (rule start_command_joins [OF assms, of n])
  fix w' z z'
  assume "wait_data_channel_start_cmd E (cli_hooks E (Suc n)) d c w = Inr w'" "conns w' = (conns w)(c \<mapsto> z, c' \<mapsto> z')"
    "on_message z = Some (Cb_to_service d)" "contents (input_buffer z) = []"
    "on_message z' = Some (Cb_to_server d)" "established (service_client x) c' f z'"
    "dc_peer service_client d c' w'" "dc_peer server_client d c w'"
    "sent (hist w') = (sent (hist w))(f := sent (hist w) f @ rest)"
    "interest (hist w) f = None \<Longrightarrow> interest (hist w') = (interest (hist w))(f \<mapsto> (3, Chan_conn c'))"
  then show ?thesis by (intro exI conjI impI)
qed

theorem start_command_joins_service_witness:
  "\<exists>w' z'. wait_data_channel_start_cmd sample_env (cli_hooks sample_env 1) 0 0
      (starting_nclient (start_forward wire_ref @ ''early'')) = Inr w'
    \<and> conns w' 100 = Some z' \<and> on_message z' = Some (Cb_to_server 0) \<and> sent (hist w') 5 = ''early''"
proof -
  let ?i = "start_forward wire_ref @ ''early''"
  show ?thesis
    using start_command_joins_service [of sample_env "starting_nclient ?i" 0 linked_dc "sample_client (Some 0) True kConnected" 0
        "sample_conn 0 8 (Cb_removeConnection 0) (Some (Cb_wait_start 0)) None ?i 1" "''early''"
        "sample_client None False kDisconnected" 5 zero_addr 100 0]
      sample_runtime sample_buffer_ok [of ?i] start_forward_short
    by (auto simp: starting_nclient_def linked_dc_def start_forward_def unconnected_def sample_client_def)
       (auto simp: sample_nclient_def)
qed



text \<open>
  Forwarding on the client side: all bytes waiting in one end's input buffer are written, in order
  and exactly once, to the other end, and the buffer is empty afterwards.
\<close>

theorem client_forwards_exactly:
  assumes "clients w k = Some q" and "cl_conn q = Some p" and "conns w c = Some x" and "conns w p = Some y"
    and "c \<noteq> p" and "1 \<le> use_count y" and "buf_ok (input_buffer x)" and "contents (input_buffer x) \<noteq> []"
    and "buf_ok (output_buffer y)" and "contents (output_buffer y) = []"
    and "room (output_buffer y) (length (contents (input_buffer x)))"
    and "accepts_all E (client_fd y)" and "0 < loop_fuel E"
  shows "\<exists>w' x'. forward_to_client E H k c w = Inr w' \<and> conns w' c = Some x'
    \<and> contents (input_buffer x') = [] \<and> dcs w' = dcs w
    \<and> sent (hist w') = (sent (hist w))(client_fd y :=
        sent (hist w) (client_fd y) @ contents (input_buffer x))"
  by (rule forward_to_client_delivers [OF assms])

theorem client_forwards_exactly_witness:
  "\<exists>w'. forward_to_client sample_env (cli_hooks sample_env 3) 1 0 (linked_nclient (Some 1) ''payload'') = Inr w'
    \<and> sent (hist w') 6 = ''payload''"
  using client_forwards_exactly [of "linked_nclient (Some 1) ''payload''" 1 "sample_client (Some 1) True kConnected" 1 0
      "linked_conn 0 5 ''payload''" "linked_conn 1 6 []" sample_env "cli_hooks sample_env 3"]
    sample_buffer_ok [of "''payload''"]
  by (auto simp: linked_nclient_def linked_conn_def room_new)

text \<open>
  The client's forwarding closures use the other end's connection unchecked: bytes that arrive while
  that connection does not exist (the local service refused or has closed it) are undefined
  behaviour, a call through a null pointer.
\<close>

theorem forward_without_peer:
  assumes "conns w c = Some x" and "buf_ok (input_buffer x)" and "contents (input_buffer x) \<noteq> []"
    and "clients w k = Some q" and "cl_conn q = None"
  shows "forward_to_client E H k c w = Inl Undefined_Behaviour"
  by (rule forward_to_client_null [OF assms])

theorem forward_without_peer_witness:
  "forward_to_client sample_env (cli_hooks sample_env 3) 1 0 (linked_nclient None ''payload'') = Inl Undefined_Behaviour"
  by (rule forward_without_peer [where x = "linked_conn 0 5 ''payload''" and q = "sample_client None True kConnected"])
     (use sample_buffer_ok [of "''payload''"] in \<open>simp_all add: linked_nclient_def linked_conn_def\<close>)

text \<open>
  C37: Destroying a \<^verbatim>\<open>Client\<close> with a live connection closes that connection's descriptor twice: once in
  \<^verbatim>\<open>~Connection\<close> and once in the connector's \<^verbatim>\<open>~TcpSocket\<close>; the second call can hit a descriptor that
  was handed out again in between.
\<close>

theorem descriptor_closed_twice:
  assumes "in_loop w" and "clients w k = Some x" and "cl_conn x = Some c"
    and "conns w c = Some y" and "use_count y = 1" and "c_state y = CONNECTED" and "notice_on_close y = None"
    and "run_close H = cli_run_close E rc" and "client_fd y = fd (cn_socket (cl_connector x))"
  shows "\<exists>w'. Client_destroy E H k w = Inr w' \<and> clients w' k = None \<and> conns w' c = None
    \<and> closed (hist w') = (closed (hist w))(client_fd y := closed (hist w) (client_fd y) + 2)"
  by (rule Client_destroy_closes_twice [OF assms])

theorem descriptor_closed_twice_witness:
  "\<exists>w'. Client_destroy sample_env (cli_hooks sample_env 3) 0 (linked_nclient (Some 1) []) = Inr w'
    \<and> clients w' 0 = None \<and> closed (hist w') 5 = 2"
  using descriptor_closed_twice [of "linked_nclient (Some 1) []" 0 "sample_client (Some 0) True kConnected" 0
      "linked_conn 0 5 []" "cli_hooks sample_env 3" sample_env "cli_run_cb sample_env 3"]
  by (auto simp: linked_nclient_def linked_conn_def cli_hooks_def)

text \<open>
  A \<^verbatim>\<open>Client\<close> connects once: after the connection is lost its connector is still \<^verbatim>\<open>kConnected\<close>, and
  a second \<^verbatim>\<open>connect\<close> stops at the assertion in \<^verbatim>\<open>Connector::startInLoop\<close>.
\<close>

theorem second_connect_asserts:
  assumes "in_loop w" and "clients w k = Some x" and "\<not> connected x"
    and "cn_state (cl_connector x) = kConnected"
  shows "Client_connect E H k w = Inl Assertion_Failed"
  by (rule reconnect_asserts [OF assms])

theorem second_connect_asserts_witness:
  "Client_connect sample_env (cli_hooks sample_env 3) 0
     (sample_nclient (\<lambda>_. None) [0 \<mapsto> sample_client None False kConnected] [] (\<lambda>_. None) (\<lambda>_. None)) =
     Inl Assertion_Failed"
  by (rule second_connect_asserts [where x = "sample_client None False kConnected"]) simp_all

section \<open>The stream through a tunnel\<close>





section \<open>Configuration and gateway\<close>

text \<open>
  C32: A server configuration that is accepted has a string \<^verbatim>\<open>server.server_ip\<close> and integers
  \<^verbatim>\<open>server.server_port\<close> and \<^verbatim>\<open>server.backlog\<close>; the port the server will bind is the configured integer
  modulo 65536, so a value outside the range of ports is not refused but wraps.
\<close>

theorem server_config_port:
  assumes "parseAsServerArgs E T config = Inr args"
  shows "\<exists>t n s ip port backlog. t_as_table T config = Some t \<and> t_at_path T t ''server'' = Some n
    \<and> t_as_table T n = Some s \<and> t_at_path T s ''server_ip'' = Some ip \<and> t_is_string T ip
    \<and> t_at_path T s ''server_port'' = Some port \<and> t_is_integer T port
    \<and> t_at_path T s ''backlog'' = Some backlog \<and> t_is_integer T backlog
    \<and> s_addr (sa_server_addr args) = inet_addr E (c_str (t_get_string T ip))
    \<and> uint (get_port (sa_server_addr args)) = sint (t_get_integer T port) mod 65536"
  by (rule server_args_complete [OF assms])
     (auto simp: get_port_InetAddress uint_port, auto simp: InetAddress_def)

theorem server_config_port_witness:
  "\<exists>args. parseAsServerArgs sample_env (toml_ref (server_toml 74424)) (server_toml 74424) = Inr args
    \<and> uint (get_port (sa_server_addr args)) = 8888"
proof -
  let ?T = "toml_ref (server_toml 74424)"
  have "\<exists>args. parseAsServerArgs sample_env ?T (server_toml 74424) = Inr args"
    by (simp add: parseAsServerArgs_def server_toml_def root_table_def table_field_def string_field_def
        integer_field_def)
  then obtain args where a: "parseAsServerArgs sample_env ?T (server_toml 74424) = Inr args" ..
  show ?thesis
    using server_config_port [OF a] a by (auto simp: server_toml_def)
qed



text \<open>
  C25: What \<^verbatim>\<open>GetServiceResp::to_json\<close> writes, \<^verbatim>\<open>GetServiceResp::parse\<close> reads back as the same response,
  whatever services it lists, for every JSON library that keeps its contract.
\<close>

theorem gateway_response_round_trip:
  assumes "nlohmann J text_ok clean takes_fields"
    and "list_all text_ok [''service_name'', ''service_addr'', ''service_port'', ''proxy_port'',
      ''services'', ''server_addr'', ''server_port'']"
    and "text_ok (gr_server_addr r)"
    and "\<forall>i \<in> set (services r). text_ok (si_service_name i) \<and> text_ok (si_service_addr i)"
  shows "\<exists>s. GetServiceResp_to_json J r = Inr s \<and> GetServiceResp_parse J s = Inr r"
  by (rule nlohmann.response_round_trip [OF assms])

theorem gateway_response_round_trip_witness:
  "\<exists>s. GetServiceResp_to_json json_ref sample_response = Inr s \<and> GetServiceResp_parse json_ref s = Inr sample_response"
  by (rule gateway_response_round_trip [OF ref_json.nlohmann_axioms]) simp_all

text \<open>
  C29: A response document is accepted exactly when its \<^verbatim>\<open>services\<close>, if present, is an array of objects
  with two string and two integer fields, and its \<^verbatim>\<open>server_addr\<close> and \<^verbatim>\<open>server_port\<close>, if present,
  have their types.
\<close>

theorem gateway_response_accepted:
  assumes "nlohmann J text_ok clean takes_fields"
  shows "(\<exists>r'. GetServiceResp_from_value J j r = Inr r') \<longleftrightarrow> response_ok J j"
  by (rule nlohmann.response_accepted [OF assms])

theorem gateway_response_accepted_witness:
  "(\<exists>r'. GetServiceResp_from_value json_ref (JObject [(''services'', JArray [])]) GetServiceResp_new = Inr r')
   \<and> \<not> (\<exists>r'. GetServiceResp_from_value json_ref (JObject [(''services'', JArray [JNull])]) GetServiceResp_new = Inr r')"
  unfolding gateway_response_accepted [OF ref_json.nlohmann_axioms]
  by (simp add: response_ok_def service_ok_def field_string_def field_integer_def json_ref_def json_at_def)

text \<open>
  C26: The HTTP session's callbacks amount to one exchange in sequence: the run always ends with nothing
  pending, the first stage that fails is the only one reported and stops the exchange, and the
  response is what the read delivered, or untouched when the read was not reached.
\<close>

theorem http_session_exchange:
  assumes "exchange B host port (Get_request B host target version q) empty_response = (f, r)"
  shows "let s = ioc_run B (Get B host port target version (session_new q))
    in pending s = Idle \<and> response s = r \<and> reported s = log_of f"
  using ioc_run_exchange [of "Get B host port target version (session_new q)" host port B f r] assms
  by (simp add: Let_def ioc_run_ends) (simp add: Get_def session_new_def)

theorem http_session_exchange_witness:
  "let s = ioc_run (sample_beast (Some (Error_code 1)) ''body'')
      (Get (sample_beast (Some (Error_code 1)) ''body'') ''host'' ''80'' ''/'' 11 (session_new (new_request [])))
   in pending s = Idle \<and> response s = empty_response \<and> reported s = log_of (Some (''connect'', Error_code 1))"
  by (rule http_session_exchange) (simp add: exchange_def)



text \<open>
  When the gateway's name does not resolve, it cannot be connected to or the request cannot be
  written, the client exits because the empty response is no JSON document; the network error itself
  reaches no caller.
\<close>

theorem gateway_unreachable_exits:
  assumes "client_gateway T config ip port tok" and "GetServiceReq_to_json J \<lparr>token = tok\<rparr> = Inr bd"
    and "gateway_exchange B ip port bd = (Some (what, e), r)" and "what \<noteq> ''read''" and "what \<noteq> ''shutdown''"
    and "j_parse J [] = Inl (Nlohmann_parse_error m)"
  shows "parseAsControlChannelArgsVecFromRemoteConfig E T J B config =
    Inl (Exit_1 (JsonException (Text_parse_failed m)))"
  by (rule remote_unreachable [OF assms])

theorem gateway_unreachable_exits_witness:
  "parseAsControlChannelArgsVecFromRemoteConfig sample_env (toml_ref gateway_toml) json_ref
      (sample_beast (Some (Error_code 1)) []) gateway_toml =
    Inl (Exit_1 (JsonException (Text_parse_failed ''syntax error'')))"
proof -
  obtain bd where bd: "GetServiceReq_to_json json_ref \<lparr>token = ''abc''\<rparr> = Inr bd"
    using ref_json.request_dumped by blast
  have g: "client_gateway (toml_ref gateway_toml) gateway_toml ''127.0.0.1'' 6666 ''abc''"
    by (simp add: client_gateway_def gateway_toml_def int_of_toml_def)
  have x: "gateway_exchange (sample_beast (Some (Error_code 1)) []) ''127.0.0.1'' 6666 bd =
      (Some (''connect'', Error_code 1), empty_response)"
    by (simp add: gateway_exchange_def exchange_def)
  show ?thesis
    by (rule gateway_unreachable_exits [OF g bd x]) (simp_all add: json_ref_def json_parse_def)
qed

section \<open>Both ends of the handshake\<close>



end
